(* ===== verification/Md_Prelude.thy ===== *)
theory Md_Prelude
  imports Main "HOL-Library.Word" "HOL-Library.Monad_Syntax"
begin

text \<open>
  The prelude of the development: the machine types, the errno values, C strings, C arrays
  and the generic lemmas on them that the component theories share.

  \<^item> Fixed-width integers are words (\<open>u8\<close>, \<open>u32\<close>, \<open>u64\<close>).  Counters and table
    indices that the code keeps below a small bound are \<open>nat\<close>; where such a counter is
    decremented or truncated the width is written out (\<open>u32_sub\<close>, \<open>u64_of_int\<close>).
  \<^item> A C array is a function from indices to elements (\<open>'a arr\<close>).  Its capacity is
    checked where it is accessed.
  \<^item> A function of the code that writes memory returns an \<open>option\<close>.  \<open>None\<close> is a
    memory fault: a NULL pointer is dereferenced, or an access leaves the object it is
    meant for.  Error codes are ordinary results, negative as in the kernel.
  \<^item> A C string is the list of the characters before its terminator.
\<close>

subsection \<open>Collections of simplification facts\<close>

named_theorems md_consts \<open>values of the macros of the source\<close>
named_theorems md_defs \<open>definitions of the model that proofs unfold together\<close>
named_theorems arr_simps \<open>rewriting of array reads after array writes\<close>

subsection \<open>Machine types\<close>

type_synonym u8 = "8 word"
type_synonym u16 = "16 word"
type_synonym u32 = "32 word"
type_synonym u64 = "64 word"

definition u32_sub :: "nat \<Rightarrow> nat \<Rightarrow> nat" where
  "u32_sub a b = (a + 2 ^ 32 - b mod 2 ^ 32) mod 2 ^ 32"

definition u64_of_int :: "int \<Rightarrow> nat" where
  "u64_of_int i = nat (i mod 2 ^ 64)"

lemma u32_sub_le [simp]: "b \<le> a \<Longrightarrow> a < 2 ^ 32 \<Longrightarrow> u32_sub a b = a - b"
proof -
  assume a: "b \<le> a" "a < 2 ^ 32"
  then have "a + 2 ^ 32 - b mod 2 ^ 32 = (a - b) + 2 ^ 32" by simp
  then have "u32_sub a b = (a - b) mod 2 ^ 32"
    unfolding u32_sub_def by (metis mod_add_self2)
  with a show ?thesis by simp
qed

lemma u64_of_int_small [simp]: "0 \<le> i \<Longrightarrow> i < 2 ^ 64 \<Longrightarrow> u64_of_int i = nat i"
  by (simp add: u64_of_int_def)

lemma u64_of_nat: "n < 2 ^ 64 \<Longrightarrow> u64_of_int (int n) = n"
proof -
  assume n: "n < 2 ^ 64"
  have "int n mod 2 ^ 64 = int (n mod 2 ^ 64)" by (simp add: of_nat_mod)
  also have "n mod 2 ^ 64 = n" by (rule mod_less [OF n])
  finally show "u64_of_int (int n) = n" unfolding u64_of_int_def by simp
qed

subsection \<open>Error numbers\<close>

definition ENOENT :: int where "ENOENT = 2"
definition EIO :: int where "EIO = 5"
definition E2BIG :: int where "E2BIG = 7"
definition ENOMEM :: int where "ENOMEM = 12"
definition EFAULT :: int where "EFAULT = 14"
definition EBUSY :: int where "EBUSY = 16"
definition EEXIST :: int where "EEXIST = 17"
definition ENODEV :: int where "ENODEV = 19"
definition EINVAL :: int where "EINVAL = 22"
definition ENOSPC :: int where "ENOSPC = 28"
definition EPERM :: int where "EPERM = 1"

lemmas errno_defs [md_consts] =
  ENOENT_def EIO_def E2BIG_def ENOMEM_def EFAULT_def EBUSY_def EEXIST_def ENODEV_def
  EINVAL_def ENOSPC_def EPERM_def

subsection \<open>C strings\<close>

definition NUL :: char where "NUL = CHR 0x00"

definition cstring :: "string \<Rightarrow> bool" where
  "cstring s \<longleftrightarrow> NUL \<notin> set s"

text \<open>
  \<open>strscpy\<close> of the kernel: at most \<open>count - 1\<close> characters are copied and a terminator is
  written; the result is the number of characters copied, or \<open>- E2BIG\<close> when the
  source did not fit (or \<open>count\<close> is 0, when nothing is written).
\<close>

definition strscpy_str :: "string \<Rightarrow> nat \<Rightarrow> string" where
  "strscpy_str src count = take (count - 1) src"

definition strscpy_ret :: "string \<Rightarrow> nat \<Rightarrow> int" where
  "strscpy_ret src count = (if length src < count then int (length src) else - E2BIG)"

lemma strscpy_str_fits [simp]: "length src < count \<Longrightarrow> strscpy_str src count = src"
  by (simp add: strscpy_str_def)

lemma strscpy_ret_fits [simp]: "length src < count \<Longrightarrow> strscpy_ret src count = int (length src)"
  by (simp add: strscpy_ret_def)

lemma length_strscpy_str: "0 < count \<Longrightarrow> length (strscpy_str src count) < count"
  by (simp add: strscpy_str_def)

lemma cstring_strscpy [intro]: "cstring src \<Longrightarrow> cstring (strscpy_str src count)"
  by (auto simp: cstring_def strscpy_str_def dest: in_set_takeD)

lemma cstring_append [simp]: "cstring (a @ b) \<longleftrightarrow> cstring a \<and> cstring b"
  by (auto simp: cstring_def)

subsection \<open>Arrays\<close>

type_synonym 'a arr = "nat \<Rightarrow> 'a"

definition arr_seg :: "'a arr \<Rightarrow> nat \<Rightarrow> nat \<Rightarrow> 'a list" where
  "arr_seg f s n = map f [s..<s + n]"

abbreviation arr_list :: "'a arr \<Rightarrow> nat \<Rightarrow> 'a list" where
  "arr_list f n \<equiv> arr_seg f 0 n"

text \<open>\<open>memmove\<close> of \<open>n\<close> elements within one array; the source and the target may overlap.\<close>

definition memmove :: "'a arr \<Rightarrow> nat \<Rightarrow> nat \<Rightarrow> nat \<Rightarrow> 'a arr" where
  "memmove f dst src n = (\<lambda>i. if dst \<le> i \<and> i < dst + n then f (src + (i - dst)) else f i)"

definition arr_write :: "'a arr \<Rightarrow> nat \<Rightarrow> 'a list \<Rightarrow> 'a arr" where
  "arr_write f off xs = (\<lambda>i. if off \<le> i \<and> i < off + length xs then xs ! (i - off) else f i)"

fun c_string :: "char arr \<Rightarrow> nat \<Rightarrow> nat \<Rightarrow> string" where
  "c_string f p 0 = []"
| "c_string f p (Suc limit) = (if f p = NUL then [] else f p # c_string f (Suc p) limit)"

lemma length_arr_seg [simp]: "length (arr_seg f s n) = n"
  by (simp add: arr_seg_def)

lemma nth_arr_seg [simp]: "i < n \<Longrightarrow> arr_seg f s n ! i = f (s + i)"
  by (simp add: arr_seg_def)

lemma arr_seg_0 [simp]: "arr_seg f s 0 = []"
  by (simp add: arr_seg_def)

lemma arr_seg_Suc: "arr_seg f s (Suc n) = arr_seg f s n @ [f (s + n)]"
  by (simp add: arr_seg_def)

lemma arr_seg_add: "arr_seg f s (m + n) = arr_seg f s m @ arr_seg f (s + m) n"
  by (auto simp: list_eq_iff_nth_eq nth_append add.assoc)

lemma arr_seg_cong: "(\<And>i. i < n \<Longrightarrow> f (s + i) = g (s + i)) \<Longrightarrow> arr_seg f s n = arr_seg g s n"
  by (simp add: list_eq_iff_nth_eq)

lemma arr_seg_upd_out [simp]: "i < s \<or> s + n \<le> i \<Longrightarrow> arr_seg (f(i := v)) s n = arr_seg f s n"
  by (rule arr_seg_cong) auto

lemma arr_list_upd: "i < n \<Longrightarrow> arr_list (f(i := v)) n = (arr_list f n)[i := v]"
  by (simp add: list_eq_iff_nth_eq nth_list_update)

lemma arr_list_snoc_upd: "arr_list (f(n := v)) (Suc n) = arr_list f n @ [v]"
  by (simp add: arr_seg_Suc)

lemma arr_seg_write: "arr_seg (arr_write f (s + n) xs) s (n + length xs) = arr_seg f s n @ xs"
  by (auto simp: list_eq_iff_nth_eq nth_append arr_write_def)

lemma arr_write_Nil [simp]: "arr_write m i [] = m"
  by (rule ext) (auto simp: arr_write_def)

lemma arr_seg_write_out [simp]:
  "off + length xs \<le> s \<or> s + n \<le> off \<Longrightarrow> arr_seg (arr_write f off xs) s n = arr_seg f s n"
  by (rule arr_seg_cong) (auto simp: arr_write_def)

text \<open>
  Closing a gap: \<open>memmove\<close> of what follows a segment of length \<open>b\<close> onto its start removes
  the segment from the array's contents.
\<close>

lemma arr_seg_memmove:
  assumes "a + b \<le> n" and "n \<le> a + b + c"
  shows "arr_seg (memmove f (s + a) (s + (a + b)) c) s (n - b) =
         take a (arr_seg f s n) @ drop (a + b) (arr_seg f s n)"
  using assms
  by (auto simp: list_eq_iff_nth_eq nth_append memmove_def add.assoc)

lemma arr_list_memmove_gap:
  assumes "k < n"
  shows "arr_list (memmove f k (Suc k) (n - k - 1)) (n - 1) =
         take k (arr_list f n) @ drop (Suc k) (arr_list f n)"
  using arr_seg_memmove [of k 1 n "n - k - 1" f 0] assms by simp

lemma memmove_below [simp]: "i < dst \<Longrightarrow> memmove f dst src n i = f i"
  by (simp add: memmove_def)

lemma memmove_inside: "dst \<le> i \<Longrightarrow> i < dst + n \<Longrightarrow> memmove f dst src n i = f (src + (i - dst))"
  by (simp add: memmove_def)

text \<open>A C string is read back up to its terminator, whatever follows it.\<close>

lemma c_string_read:
  assumes "arr_seg f p (length s + 1) = s @ [NUL]" and "cstring s" and "length s < limit"
  shows "c_string f p limit = s"
  using assms
proof (induction s arbitrary: p limit)
  case Nil
  then show ?case by (cases limit) (auto simp: arr_seg_def)
next
  case (Cons c s)
  from Cons.prems obtain l where l: "limit = Suc l" by (cases limit) auto
  have seg: "arr_seg f p (length (c # s) + 1) = f p # arr_seg f (Suc p) (length s + 1)"
    using arr_seg_add [of f p 1 "length s + 1"] by (simp add: arr_seg_Suc [of f p 0])
  with Cons.prems(1) have "f p = c" and "arr_seg f (Suc p) (length s + 1) = s @ [NUL]" by auto
  with Cons.prems Cons.IH [of "Suc p" l] show ?case
    by (auto simp: l cstring_def)
qed

lemma length_c_string: "length (c_string f p limit) \<le> limit"
  by (induction f p limit rule: c_string.induct) auto

lemma c_string_cstring: "cstring (c_string f p limit)"
  by (induction f p limit rule: c_string.induct) (auto simp: cstring_def)

subsection \<open>Searches over index ranges\<close>

lemma find_upt_first:
  assumes "k < n" and "P k" and "\<And>j. j < k \<Longrightarrow> \<not> P j"
  shows "find P [0..<n] = Some k"
  unfolding find_Some_iff using assms by (intro exI [of _ k]) simp

lemma find_upt_None: "find P [0..<n] = None \<longleftrightarrow> (\<forall>j < n. \<not> P j)"
  by (auto simp: find_None_iff)

lemma find_upt_Some:
  assumes "find P [0..<n] = Some k"
  shows "k < n" and "P k" and "\<And>j. j < k \<Longrightarrow> \<not> P j"
  using assms by (auto simp: find_Some_iff)

lemma find_upt_cong:
  assumes "\<And>j. j < n \<Longrightarrow> P j = Q j"
  shows "find P [0..<n] = find Q [0..<n]"
  using assms by (intro find_cong) auto

subsection \<open>Lists with one element removed\<close>

definition remove_nth :: "nat \<Rightarrow> 'a list \<Rightarrow> 'a list" where
  "remove_nth k xs = take k xs @ drop (Suc k) xs"

lemma length_remove_nth [simp]: "k < length xs \<Longrightarrow> length (remove_nth k xs) = length xs - 1"
  by (simp add: remove_nth_def)

lemma nth_remove_nth:
  "k < length xs \<Longrightarrow> i < length xs - 1 \<Longrightarrow>
   remove_nth k xs ! i = (if i < k then xs ! i else xs ! Suc i)"
  by (auto simp: remove_nth_def nth_append)

lemma map_remove_nth: "map f (remove_nth k xs) = remove_nth k (map f xs)"
  by (simp add: remove_nth_def take_map drop_map)

lemma set_remove_nth_subset: "set (remove_nth k xs) \<subseteq> set xs"
  by (auto simp: remove_nth_def dest: in_set_takeD in_set_dropD)

lemma distinct_remove_nth: "distinct xs \<Longrightarrow> distinct (remove_nth k xs)"
  unfolding remove_nth_def distinct_append
  using set_take_disj_set_drop_if_distinct [of xs k "Suc k"] by auto

lemma remove_nth_notin:
  assumes "distinct xs" and "k < length xs"
  shows "xs ! k \<notin> set (remove_nth k xs)"
proof
  assume "xs ! k \<in> set (remove_nth k xs)"
  then obtain i where "i < length xs - 1" and "remove_nth k xs ! i = xs ! k"
    using assms by (auto simp: in_set_conv_nth)
  then show False
    using assms by (auto simp: nth_remove_nth nth_eq_iff_index_eq split: if_splits)
qed

lemma take_remove_nth:
  "take i (remove_nth k xs) =
   (if i \<le> k then take i xs else remove_nth k (take (Suc i) xs))"
  if "k < length xs"
proof (cases "i \<le> k")
  case True
  with that show ?thesis by (simp add: remove_nth_def min_def)
next
  case False
  then show ?thesis using that
    by (simp add: remove_nth_def min_def Suc_diff_Suc take_drop)
qed

lemma sum_list_remove_nth:
  fixes xs :: "'a::ab_group_add list"
  assumes "k < length xs"
  shows "sum_list (remove_nth k xs) = sum_list xs - xs ! k"
proof -
  have "sum_list xs = sum_list (take k xs) + (xs ! k + sum_list (drop (Suc k) xs))"
    using id_take_nth_drop [OF assms] by (metis sum_list.append sum_list.Cons)
  then show ?thesis by (simp add: remove_nth_def)
qed

lemma sum_list_remove_nth_nat:
  fixes xs :: "nat list"
  assumes "k < length xs"
  shows "sum_list (remove_nth k xs) = sum_list xs - xs ! k"
proof -
  have "sum_list xs = sum_list (take k xs) + (xs ! k + sum_list (drop (Suc k) xs))"
    using id_take_nth_drop [OF assms] by (metis sum_list.append sum_list.Cons)
  then show ?thesis by (simp add: remove_nth_def)
qed

subsection \<open>Fallible steps\<close>

lemma bind_SomeE:
  assumes "Option.bind m f = Some y"
  obtains x where "m = Some x" and "f x = Some y"
  using assms by (cases m) auto

subsection \<open>Runs and simulations\<close>

text \<open>A run of operations collects the results and stops at the first fault.\<close>

fun run_ops :: "('op \<Rightarrow> 's \<Rightarrow> ('r \<times> 's) option) \<Rightarrow> 'op list \<Rightarrow> 's \<Rightarrow> ('r list \<times> 's) option" where
  "run_ops step [] s = Some ([], s)"
| "run_ops step (x # xs) s = do {
     (r, s) \<leftarrow> step x s;
     (rs, s) \<leftarrow> run_ops step xs s;
     Some (r # rs, s) }"

text \<open>
  The contract between an implementation and its specification: where the specification of an
  operation is defined, the implementation does not fault, returns the same result and ends in
  a state that represents the specification's.
\<close>

locale simulation =
  fixes rep :: "'a \<Rightarrow> 's \<Rightarrow> bool"
    and spec :: "'op \<Rightarrow> 'a \<Rightarrow> ('r \<times> 'a) option"
    and impl :: "'op \<Rightarrow> 's \<Rightarrow> ('r \<times> 's) option"
  assumes step_sim: "rep a s \<Longrightarrow> spec x a = Some (r, a') \<Longrightarrow> \<exists>s'. impl x s = Some (r, s') \<and> rep a' s'"
begin

lemma run_sim:
  "rep a s \<Longrightarrow> run_ops spec xs a = Some (rs, a') \<Longrightarrow>
   \<exists>s'. run_ops impl xs s = Some (rs, s') \<and> rep a' s'"
proof (induction xs arbitrary: a s rs)
  case (Cons x xs)
  from Cons.prems(2) obtain r a1 rs' where a1: "spec x a = Some (r, a1)"
    and rest: "run_ops spec xs a1 = Some (rs', a')" and rs: "rs = r # rs'"
    by (auto simp: bind_eq_Some_conv)
  from step_sim [OF Cons.prems(1) a1] obtain s1 where "impl x s = Some (r, s1)" and "rep a1 s1"
    by blast
  moreover from Cons.IH [OF \<open>rep a1 s1\<close> rest] obtain s' where "run_ops impl xs s1 = Some (rs', s')"
    and "rep a' s'" by blast
  ultimately show ?case by (simp add: rs)
qed simp

end

text \<open>The contract of an invariant: every operation that does not fault keeps it.\<close>

locale step_invariant =
  fixes inv :: "'s \<Rightarrow> bool"
    and step :: "'op \<Rightarrow> 's \<Rightarrow> ('r \<times> 's) option"
  assumes step_inv: "inv s \<Longrightarrow> step x s = Some (r, s') \<Longrightarrow> inv s'"
begin

lemma run_inv: "inv s \<Longrightarrow> run_ops step xs s = Some (rs, s') \<Longrightarrow> inv s'"
  by (induction xs arbitrary: s rs) (auto simp: bind_eq_Some_conv dest: step_inv)

end

end
