(* ===== verification/Md_Data.thy ===== *)
theory Md_Data
  imports Md_Prelude
begin

unbundle bit_operations_syntax

text \<open>
  The data of the minidump driver: the macros and structures of \<^verbatim>\<open>minidump/minidump.h\<close>
  and \<^verbatim>\<open>minidump/minidump_private.h\<close>, the tables of \<^verbatim>\<open>minidump/msm_minidump.c\<close> and
  the driver's global variables.  The build without \<^verbatim>\<open>CONFIG_ARCH_QTI_VM\<close> is modelled,
  where a region name has at most 12 characters.
\<close>

subsection \<open>Macros\<close>

definition CONFIG_MINIDUMP_MAX_ENTRIES :: nat where "CONFIG_MINIDUMP_MAX_ENTRIES = 200"
definition MAX_NAME_LENGTH :: nat where "MAX_NAME_LENGTH = 12"
definition MAX_REGION_NAME_LENGTH :: nat where "MAX_REGION_NAME_LENGTH = 16"
definition MAX_NUM_ENTRIES :: nat where "MAX_NUM_ENTRIES = CONFIG_MINIDUMP_MAX_ENTRIES + 1"
definition MAX_STRTBL_SIZE :: nat where
  "MAX_STRTBL_SIZE = MAX_NUM_ENTRIES * MAX_REGION_NAME_LENGTH"
definition MAX_NUM_OF_SS :: nat where "MAX_NUM_OF_SS = 10"
definition MD_SS_HLOS_ID :: nat where "MD_SS_HLOS_ID = 0"
definition INT_MAX :: int where "INT_MAX = 2147483647"

text \<open>The four-character status words, \<^verbatim>\<open>'V' << 24 | 'A' << 16 | 'L' << 8 | 'I' << 0\<close>.\<close>

definition status_word :: "nat \<Rightarrow> nat \<Rightarrow> nat \<Rightarrow> nat \<Rightarrow> u32" where
  "status_word a b c d =
     push_bit 24 (of_nat a) OR push_bit 16 (of_nat b) OR push_bit 8 (of_nat c) OR of_nat d"

definition MD_REGION_VALID :: u32 where
  "MD_REGION_VALID = status_word (of_char CHR ''V'') (of_char CHR ''A'') (of_char CHR ''L'') (of_char CHR ''I'')"
definition MD_SS_ENCR_NOTREQ :: u32 where
  "MD_SS_ENCR_NOTREQ = status_word 0 0 (of_char CHR ''N'') (of_char CHR ''R'')"
definition MD_SS_ENCR_DONE :: u32 where
  "MD_SS_ENCR_DONE = status_word (of_char CHR ''D'') (of_char CHR ''O'') (of_char CHR ''N'') (of_char CHR ''E'')"
definition MD_SS_ENABLED :: u32 where
  "MD_SS_ENABLED = status_word (of_char CHR ''E'') (of_char CHR ''N'') (of_char CHR ''B'') (of_char CHR ''L'')"

lemma md_macro_values [md_consts]:
  "CONFIG_MINIDUMP_MAX_ENTRIES = 200" "MAX_NAME_LENGTH = 12" "MAX_REGION_NAME_LENGTH = 16"
  "MAX_NUM_ENTRIES = 201" "MAX_STRTBL_SIZE = 3216" "MAX_NUM_OF_SS = 10" "MD_SS_HLOS_ID = 0"
  by (simp_all add: CONFIG_MINIDUMP_MAX_ENTRIES_def MAX_NAME_LENGTH_def
      MAX_REGION_NAME_LENGTH_def MAX_NUM_ENTRIES_def MAX_STRTBL_SIZE_def MAX_NUM_OF_SS_def
      MD_SS_HLOS_ID_def)

lemma status_word_values [md_consts]:
  "MD_REGION_VALID = 0x56414C49" "MD_SS_ENCR_NOTREQ = 0x4E52" "MD_SS_ENCR_DONE = 0x444F4E45"
  "MD_SS_ENABLED = 0x454E424C"
  by (simp_all add: MD_REGION_VALID_def MD_SS_ENCR_NOTREQ_def MD_SS_ENCR_DONE_def
      MD_SS_ENABLED_def status_word_def)

subsection \<open>Structures of the headers\<close>

record md_region =
  mdr_name :: string
  mdr_id :: u32
  virt_addr :: u64
  phys_addr :: u64
  mdr_size :: u64

definition zero_region :: md_region where
  "zero_region = \<lparr>mdr_name = '''', mdr_id = 0, virt_addr = 0, phys_addr = 0, mdr_size = 0\<rparr>"

record md_rm_region =
  rmr_name :: string
  slot_num :: int

definition zero_rm_region :: md_rm_region where
  "zero_rm_region = \<lparr>rmr_name = '''', slot_num = 0\<rparr>"

datatype minidump_entry_cmd = MINIDUMP_ADD | MINIDUMP_REMOVE | MINIDUMP_UPDATE | MINIDUMP_NO_CMD

record md_rm_request =
  rq_entry :: md_region
  work_cmd :: minidump_entry_cmd

record md_ss_region =
  ssr_name :: string
  seq_num :: u32
  md_valid :: u32
  region_base_address :: u64
  region_size :: u64

definition zero_ss_region :: md_ss_region where
  "zero_ss_region =
     \<lparr>ssr_name = '''', seq_num = 0, md_valid = 0, region_base_address = 0, region_size = 0\<rparr>"

record md_ss_toc =
  md_ss_toc_init :: u32
  md_ss_enable_status :: u32
  encryption_status :: u32
  encryption_required :: u32
  ss_region_count :: nat
  md_ss_smem_regions_baseptr :: u64

record md_global_toc =
  md_toc_init :: u32
  md_revision :: u32
  md_enable_status :: u32
  gbl_ss_toc :: "md_ss_toc list"

subsection \<open>Structures of the driver\<close>

text \<open>
  \<open>md_ss_toc\<close> of the C table points at the HLOS slot of the SMEM table of contents; the model
  keeps the slot's contents under the pointer, \<open>None\<close> being the NULL pointer.  \<open>md_regions\<close>
  likewise is the pointer to the region array.
\<close>

record md_table =
  tbl_revision :: u32
  tbl_ss_toc :: "md_ss_toc option"
  md_gbl_toc :: md_global_toc
  md_regions :: "md_ss_region arr option"
  tbl_entry :: "md_region arr"

text \<open>The work queue holds the requests that were queued and have not started, oldest first.\<close>

record md_rm_table =
  minidump_rm_wq :: "md_rm_request list"
  rm_entry :: "md_rm_region arr"

text \<open>
  A region that the driver's checks accept: its name fits, is a C string, the virtual
  address is set and the size is a multiple of four.
\<close>

definition wf_region :: "md_region \<Rightarrow> bool" where
  "wf_region r \<longleftrightarrow> cstring (mdr_name r) \<and> length (mdr_name r) \<le> MAX_NAME_LENGTH \<and>
     virt_addr r \<noteq> 0 \<and> 4 dvd unat (mdr_size r)"

lemma wf_regionD:
  assumes "wf_region r"
  shows "cstring (mdr_name r)" "length (mdr_name r) \<le> 12" "virt_addr r \<noteq> 0" "mdr_size r \<noteq> 6"
  using assms by (auto simp: wf_region_def md_consts)

end
