(* ===== verification/Elf_Header.thy ===== *)
theory Elf_Header
  imports Md_Data
begin

text \<open>
  The ELF header that describes the dumped regions: the accessors of \<^verbatim>\<open>minidump/elf.h\<close>
  and, of \<^verbatim>\<open>minidump/msm_minidump.c\<close>, \<^verbatim>\<open>struct md_elfhdr\<close>, the string table, and the
  functions that append, update and remove a region's headers.

  The header buffer holds, one after the other, the ELF header, the section headers, the
  program headers, the string table and the banner.  The model keeps the header's fields, one
  array per header table and the characters of the buffer (\<open>buf\<close>, indexed by the offset from
  the buffer's start, as pointers into it are).  A slot of a header table is accessible as
  long as it ends before the next part of the buffer starts.
\<close>

subsection \<open>Sizes and constants\<close>

definition sizeof_ehdr :: nat where "sizeof_ehdr = 64"
definition sizeof_shdr :: nat where "sizeof_shdr = 64"
definition sizeof_phdr :: nat where "sizeof_phdr = 56"
definition SHN_UNDEF :: nat where "SHN_UNDEF = 0"
definition SHT_PROGBITS :: u32 where "SHT_PROGBITS = 1"
definition SHT_STRTAB :: u32 where "SHT_STRTAB = 3"
definition SHF_WRITE :: u64 where "SHF_WRITE = 1"
definition PT_LOAD :: u32 where "PT_LOAD = 1"
definition PF_RW :: u32 where "PF_RW = 6"

definition linux_banner :: string where "linux_banner = ''Linux''"

definition align4 :: "nat \<Rightarrow> nat" where "align4 n = (n + 3) div 4 * 4"

definition elfh_size :: nat where
  "elfh_size = align4 (sizeof_ehdr + MAX_STRTBL_SIZE + (length linux_banner + 1) +
     (sizeof_shdr + sizeof_phdr) * (MAX_NUM_ENTRIES + 4))"

definition phdr_off :: nat where
  "phdr_off = sizeof_ehdr + sizeof_shdr * MAX_NUM_ENTRIES"

definition strtbl_off :: nat where
  "strtbl_off = sizeof_ehdr + (sizeof_phdr + sizeof_shdr) * MAX_NUM_ENTRIES"

lemma elf_layout_values [md_consts]:
  "sizeof_ehdr = 64" "sizeof_shdr = 64" "sizeof_phdr = 56" "elfh_size = 27888"
  "phdr_off = 12928" "strtbl_off = 24184" "SHN_UNDEF = 0"
  by (simp_all add: sizeof_ehdr_def sizeof_shdr_def sizeof_phdr_def elfh_size_def align4_def
      phdr_off_def strtbl_off_def linux_banner_def SHN_UNDEF_def md_consts)

subsection \<open>The header buffer\<close>

record elf_shdr =
  sh_name :: nat
  sh_type :: u32
  sh_flags :: u64
  sh_addr :: u64
  sh_offset :: u64
  sh_size :: u64
  sh_entsize :: u64

record elf_phdr =
  p_type :: u32
  p_flags :: u32
  p_offset :: u64
  p_vaddr :: u64
  p_paddr :: u64
  p_filesz :: u64
  p_memsz :: u64

definition zero_shdr :: elf_shdr where
  "zero_shdr = \<lparr>sh_name = 0, sh_type = 0, sh_flags = 0, sh_addr = 0, sh_offset = 0,
     sh_size = 0, sh_entsize = 0\<rparr>"

definition zero_phdr :: elf_phdr where
  "zero_phdr = \<lparr>p_type = 0, p_flags = 0, p_offset = 0, p_vaddr = 0, p_paddr = 0,
     p_filesz = 0, p_memsz = 0\<rparr>"

record elfhdr =
  e_ident :: "nat list"
  e_type :: nat
  e_machine :: nat
  e_version :: nat
  e_ehsize :: nat
  e_phoff :: nat
  e_phentsize :: nat
  e_shoff :: nat
  e_shentsize :: nat
  e_shstrndx :: nat
  e_phnum :: nat
  e_shnum :: nat
  shdrs :: "elf_shdr arr"
  phdrs :: "elf_phdr arr"
  buf :: "char arr"

definition zero_elfhdr :: elfhdr where
  "zero_elfhdr = \<lparr>e_ident = replicate 16 0, e_type = 0, e_machine = 0, e_version = 0,
     e_ehsize = 0, e_phoff = 0, e_phentsize = 0, e_shoff = 0, e_shentsize = 0,
     e_shstrndx = 0, e_phnum = 0, e_shnum = 0, shdrs = (\<lambda>_. zero_shdr),
     phdrs = (\<lambda>_. zero_phdr), buf = (\<lambda>_. NUL)\<rparr>"

text \<open>\<open>ehdr\<close> is the pointer to the buffer: \<open>None\<close> until it has been allocated.\<close>

record md_elfhdr =
  ehdr :: "elfhdr option"
  elf_offset :: u64
  strtable_idx :: nat

subsection \<open>The accessors of elf.h\<close>

text \<open>Addresses are offsets from the start of the header buffer.\<close>

definition elf_sheader :: "elfhdr \<Rightarrow> nat" where
  "elf_sheader hdr = e_shoff hdr"

definition elf_section :: "elfhdr \<Rightarrow> nat \<Rightarrow> nat" where
  "elf_section hdr idx = elf_sheader hdr + sizeof_shdr * idx"

definition elf_pheader :: "elfhdr \<Rightarrow> nat" where
  "elf_pheader hdr = e_phoff hdr"

definition elf_program :: "elfhdr \<Rightarrow> nat \<Rightarrow> nat" where
  "elf_program hdr idx = elf_pheader hdr + sizeof_phdr * idx"

definition elf_str_table :: "elfhdr \<Rightarrow> nat option" where
  "elf_str_table hdr =
     (if e_shstrndx hdr = SHN_UNDEF then None
      else Some (unat (sh_offset (shdrs hdr (e_shstrndx hdr)))))"

text \<open>The slot behind \<open>elf_section hdr idx\<close>, if it ends before the program headers.\<close>

definition upd_shdr :: "nat \<Rightarrow> (elf_shdr \<Rightarrow> elf_shdr) \<Rightarrow> md_elfhdr \<Rightarrow> md_elfhdr option" where
  "upd_shdr idx g eh = do {
     hdr \<leftarrow> ehdr eh;
     if elf_section hdr (Suc idx) \<le> elf_pheader hdr
     then Some (eh\<lparr>ehdr := Some (hdr\<lparr>shdrs := (shdrs hdr)(idx := g (shdrs hdr idx))\<rparr>)\<rparr>)
     else None }"

text \<open>The slot behind \<open>elf_program hdr idx\<close>, if it ends before the string table.\<close>

definition upd_phdr :: "nat \<Rightarrow> (elf_phdr \<Rightarrow> elf_phdr) \<Rightarrow> md_elfhdr \<Rightarrow> md_elfhdr option" where
  "upd_phdr idx g eh = do {
     hdr \<leftarrow> ehdr eh;
     if elf_program hdr (Suc idx) \<le> strtbl_off
     then Some (eh\<lparr>ehdr := Some (hdr\<lparr>phdrs := (phdrs hdr)(idx := g (phdrs hdr idx))\<rparr>)\<rparr>)
     else None }"

subsection \<open>The string table\<close>

definition elf_lookup_string :: "md_elfhdr \<Rightarrow> elfhdr \<Rightarrow> nat \<Rightarrow> nat option" where
  "elf_lookup_string eh hdr offset =
     (case elf_str_table hdr of
        None \<Rightarrow> None
      | Some strtab \<Rightarrow> if strtable_idx eh < offset then None else Some (strtab + offset))"

definition set_section_name :: "string option \<Rightarrow> md_elfhdr \<Rightarrow> (nat \<times> md_elfhdr) option" where
  "set_section_name name eh = do {
     hdr \<leftarrow> ehdr eh;
     (case (elf_str_table hdr, name) of
        (Some strtab, Some nm) \<Rightarrow>
          (let idx = strtable_idx eh;
               str = strscpy_str nm MAX_REGION_NAME_LENGTH @ [NUL]
           in if idx + length str \<le> MAX_STRTBL_SIZE
              then Some (idx, eh\<lparr>ehdr := Some (hdr\<lparr>buf := arr_write (buf hdr) (strtab + idx) str\<rparr>),
                     strtable_idx :=
                       u64_of_int (int idx + strscpy_ret nm MAX_REGION_NAME_LENGTH + 1)\<rparr>)
              else None)
      | _ \<Rightarrow> Some (0, eh)) }"

subsection \<open>Appending and updating a region's headers\<close>

definition md_add_elf_header :: "md_region \<Rightarrow> md_elfhdr \<Rightarrow> md_elfhdr option" where
  "md_add_elf_header entry eh = do {
     hdr \<leftarrow> ehdr eh;
     let si = e_shnum hdr;
     let pi = e_phnum hdr;
     let eh = eh\<lparr>ehdr := Some (hdr\<lparr>e_shnum := si + 1, e_phnum := pi + 1\<rparr>)\<rparr>;
     (nm, eh) \<leftarrow> set_section_name (Some (mdr_name entry)) eh;
     eh \<leftarrow> upd_shdr si (\<lambda>sh. sh\<lparr>sh_type := SHT_PROGBITS, sh_name := nm,
        sh_addr := virt_addr entry, sh_size := mdr_size entry, sh_flags := SHF_WRITE,
        sh_offset := elf_offset eh, sh_entsize := 0\<rparr>) eh;
     eh \<leftarrow> upd_phdr pi (\<lambda>ph. ph\<lparr>p_type := PT_LOAD, p_offset := elf_offset eh,
        p_vaddr := virt_addr entry, p_paddr := phys_addr entry, p_filesz := mdr_size entry,
        p_memsz := mdr_size entry, p_flags := PF_RW\<rparr>) eh;
     Some (eh\<lparr>elf_offset := elf_offset eh + mdr_size entry\<rparr>) }"

text \<open>\<open>entryno\<close> is a C \<open>int\<close>; a negative slot number is outside both header tables.\<close>

definition md_update_elf_header :: "int \<Rightarrow> md_region \<Rightarrow> md_elfhdr \<Rightarrow> md_elfhdr option" where
  "md_update_elf_header entryno entry eh =
     (if entryno + 4 < 0 \<or> entryno + 1 < 0 then None
      else do {
        eh \<leftarrow> upd_shdr (nat (entryno + 4)) (\<lambda>sh. sh\<lparr>sh_addr := virt_addr entry\<rparr>) eh;
        upd_phdr (nat (entryno + 1))
          (\<lambda>ph. ph\<lparr>p_vaddr := virt_addr entry, p_paddr := phys_addr entry\<rparr>) eh })"

subsection \<open>Removing a region's headers\<close>

text \<open>The two loops that close the gap in a header table, \<open>m\<close> iterations from index \<open>i\<close>.\<close>

fun shift_phdrs :: "elf_phdr arr \<Rightarrow> nat \<Rightarrow> nat \<Rightarrow> u64 \<Rightarrow> elf_phdr arr" where
  "shift_phdrs a i 0 esize = a"
| "shift_phdrs a i (Suc m) esize =
     (let ph = a (i + 1)
      in shift_phdrs (a(i := ph\<lparr>p_offset := p_offset ph - esize\<rparr>)) (i + 1) m esize)"

fun shift_shdrs :: "elf_shdr arr \<Rightarrow> nat \<Rightarrow> nat \<Rightarrow> u64 \<Rightarrow> nat \<Rightarrow> elf_shdr arr" where
  "shift_shdrs a i 0 esize strln = a"
| "shift_shdrs a i (Suc m) esize strln =
     (let sh = a (i + 1)
      in shift_shdrs
           (a(i := sh\<lparr>sh_offset := sh_offset sh - esize, sh_name := u32_sub (sh_name sh) strln\<rparr>))
           (i + 1) m esize strln)"

definition phdr_matches :: "md_region \<Rightarrow> elfhdr \<Rightarrow> nat \<Rightarrow> bool" where
  "phdr_matches entry hdr i \<longleftrightarrow>
     p_paddr (phdrs hdr i) = phys_addr entry \<and> p_memsz (phdrs hdr i) = mdr_size entry"

definition shdr_matches :: "md_region \<Rightarrow> md_elfhdr \<Rightarrow> elfhdr \<Rightarrow> nat \<Rightarrow> bool" where
  "shdr_matches entry eh hdr i \<longleftrightarrow>
     (case elf_lookup_string eh hdr (sh_name (shdrs hdr i)) of
        None \<Rightarrow> False
      | Some p \<Rightarrow> c_string (buf hdr) p (elfh_size - p) = mdr_name entry) \<and>
     sh_addr (shdrs hdr i) = virt_addr entry \<and> sh_size (shdrs hdr i) = mdr_size entry"

text \<open>
  The part of \<^verbatim>\<open>msm_minidump_clear_headers\<close> after the three checks: the name is squeezed
  out of the string table, then the program header and the section header out of their
  tables.
\<close>

definition clear_headers_at :: "nat \<Rightarrow> nat \<Rightarrow> md_region \<Rightarrow> md_elfhdr \<Rightarrow> elfhdr \<Rightarrow> md_elfhdr option" where
  "clear_headers_at pidx shidx entry eh hdr = do {
     let esize = mdr_size entry;
     let nm = sh_name (shdrs hdr shidx);
     shname \<leftarrow> elf_lookup_string eh hdr nm;
     let strln = length (c_string (buf hdr) shname (elfh_size - shname)) + 1;
     let n = strtable_idx eh - nm;
     _ \<leftarrow> (if nm + strln + n \<le> MAX_STRTBL_SIZE then Some () else None);
     let b = memmove (buf hdr) shname (shname + strln) n;
     let ps = shift_phdrs (phdrs hdr) pidx (e_phnum hdr - 1 - pidx) esize;
     let ss = shift_shdrs (shdrs hdr) shidx (e_shnum hdr - 1 - shidx) esize strln;
     Some (eh\<lparr>ehdr := Some (hdr\<lparr>buf := b,
                 phdrs := ps(e_phnum hdr - 1 := zero_phdr), e_phnum := e_phnum hdr - 1,
                 shdrs := ss(e_shnum hdr - 1 := zero_shdr), e_shnum := e_shnum hdr - 1\<rparr>),
              strtable_idx := u64_of_int (int (strtable_idx eh) - int strln),
              elf_offset := elf_offset eh - esize\<rparr>) }"

definition msm_minidump_clear_headers ::
  "md_region \<Rightarrow> md_elfhdr \<Rightarrow> (int \<times> md_elfhdr) option" where
  "msm_minidump_clear_headers entry eh = do {
     hdr \<leftarrow> ehdr eh;
     (case find (phdr_matches entry hdr) [0..<e_phnum hdr] of
        None \<Rightarrow> Some (- EINVAL, eh)
      | Some pidx \<Rightarrow>
          (case find (shdr_matches entry eh hdr) [0..<e_shnum hdr] of
             None \<Rightarrow> Some (- EINVAL, eh)
           | Some shidx \<Rightarrow>
               if sh_offset (shdrs hdr shidx) \<noteq> p_offset (phdrs hdr pidx)
               then Some (- EINVAL, eh)
               else do { eh' \<leftarrow> clear_headers_at pidx shidx entry eh hdr; Some (0, eh') })) }"

subsection \<open>The initial header\<close>

text \<open>
  The part of \<^verbatim>\<open>msm_minidump_add_header\<close> that fills the zeroed buffer.  \<open>table_va\<close> is the
  address of the region table, \<open>banner_va\<close> and \<open>banner_pa\<close> are the virtual and physical
  addresses of the banner string.
\<close>

definition fill_elf_header :: "u64 \<Rightarrow> u64 \<Rightarrow> u64 \<Rightarrow> md_elfhdr option" where
  "fill_elf_header table_va banner_va banner_pa = do {
     let hdr = zero_elfhdr\<lparr>
        e_ident := [0x7F, 0x45, 0x4C, 0x46, 2, 1, 1, 0] @ replicate 8 0,
        e_type := 4, e_machine := 183, e_version := 1, e_ehsize := sizeof_ehdr,
        e_phoff := phdr_off, e_phentsize := sizeof_phdr, e_shoff := sizeof_ehdr,
        e_shentsize := sizeof_shdr, e_shstrndx := 1\<rparr>;
     let eh = \<lparr>ehdr = Some hdr, elf_offset = of_nat elfh_size, strtable_idx = 1\<rparr>;
     eh \<leftarrow> upd_shdr 1 (\<lambda>sh. sh\<lparr>sh_type := SHT_STRTAB, sh_offset := of_nat strtbl_off,
        sh_size := of_nat MAX_STRTBL_SIZE, sh_entsize := 0, sh_flags := 0\<rparr>) eh;
     (nm, eh) \<leftarrow> set_section_name (Some ''STR_TBL'') eh;
     eh \<leftarrow> upd_shdr 1 (\<lambda>sh. sh\<lparr>sh_name := nm\<rparr>) eh;
     eh \<leftarrow> upd_shdr 2 (\<lambda>sh. sh\<lparr>sh_type := SHT_PROGBITS, sh_entsize := 0, sh_flags := 0,
        sh_addr := table_va\<rparr>) eh;
     (nm, eh) \<leftarrow> set_section_name (Some ''minidump_table'') eh;
     eh \<leftarrow> upd_shdr 2 (\<lambda>sh. sh\<lparr>sh_name := nm\<rparr>) eh;
     hdr \<leftarrow> ehdr eh;
     let banner = strtbl_off + MAX_STRTBL_SIZE;
     let eh = eh\<lparr>ehdr := Some (hdr\<lparr>buf := arr_write (buf hdr) banner (linux_banner @ [NUL])\<rparr>)\<rparr>;
     eh \<leftarrow> upd_shdr 3 (\<lambda>sh. sh\<lparr>sh_type := SHT_PROGBITS, sh_offset := of_nat banner,
        sh_size := of_nat (length linux_banner + 1), sh_addr := banner_va, sh_entsize := 0,
        sh_flags := SHF_WRITE\<rparr>) eh;
     (nm, eh) \<leftarrow> set_section_name (Some ''linux_banner'') eh;
     eh \<leftarrow> upd_shdr 3 (\<lambda>sh. sh\<lparr>sh_name := nm\<rparr>) eh;
     eh \<leftarrow> upd_phdr 0 (\<lambda>ph. ph\<lparr>p_type := PT_LOAD, p_offset := of_nat banner,
        p_vaddr := banner_va, p_paddr := banner_pa,
        p_filesz := of_nat (length linux_banner + 1),
        p_memsz := of_nat (length linux_banner + 1), p_flags := PF_RW\<rparr>) eh;
     hdr \<leftarrow> ehdr eh;
     Some (eh\<lparr>ehdr := Some (hdr\<lparr>e_phnum := 1, e_shnum := 4\<rparr>)\<rparr>) }"

subsection \<open>What the header describes\<close>

text \<open>
  \<open>elf_rep bs L eh\<close>: the header describes exactly the regions \<open>L\<close>, in this order.  Each
  has one program header and one section header, the file offsets are the running sums of the
  sizes, and the string table holds the names one after the other.
\<close>

record elf_base =
  table_va :: u64
  banner_va :: u64
  banner_pa :: u64

definition base_strings :: string where
  "base_strings = [NUL] @ ''STR_TBL'' @ [NUL] @ ''minidump_table'' @ [NUL] @ ''linux_banner'' @ [NUL]"

definition name_off :: "md_region list \<Rightarrow> nat \<Rightarrow> nat" where
  "name_off L k = length base_strings + sum_list (map (\<lambda>r. length (mdr_name r) + 1) (take k L))"

definition data_off :: "md_region list \<Rightarrow> nat \<Rightarrow> u64" where
  "data_off L k = of_nat elfh_size + sum_list (map mdr_size (take k L))"

definition strtab_of :: "md_region list \<Rightarrow> string" where
  "strtab_of L = base_strings @ concat (map (\<lambda>r. mdr_name r @ [NUL]) L)"

definition region_shdr :: "md_region list \<Rightarrow> nat \<Rightarrow> elf_shdr" where
  "region_shdr L k = \<lparr>sh_name = name_off L k, sh_type = SHT_PROGBITS, sh_flags = SHF_WRITE,
     sh_addr = virt_addr (L ! k), sh_offset = data_off L k, sh_size = mdr_size (L ! k),
     sh_entsize = 0\<rparr>"

definition region_phdr :: "md_region list \<Rightarrow> nat \<Rightarrow> elf_phdr" where
  "region_phdr L k = \<lparr>p_type = PT_LOAD, p_flags = PF_RW, p_offset = data_off L k,
     p_vaddr = virt_addr (L ! k), p_paddr = phys_addr (L ! k), p_filesz = mdr_size (L ! k),
     p_memsz = mdr_size (L ! k)\<rparr>"

definition base_shdr :: "elf_base \<Rightarrow> nat \<Rightarrow> elf_shdr" where
  "base_shdr bs i =
     [zero_shdr,
      \<lparr>sh_name = 1, sh_type = SHT_STRTAB, sh_flags = 0, sh_addr = 0,
        sh_offset = of_nat strtbl_off, sh_size = of_nat MAX_STRTBL_SIZE, sh_entsize = 0\<rparr>,
      \<lparr>sh_name = 9, sh_type = SHT_PROGBITS, sh_flags = 0, sh_addr = table_va bs,
        sh_offset = 0, sh_size = 0, sh_entsize = 0\<rparr>,
      \<lparr>sh_name = 24, sh_type = SHT_PROGBITS, sh_flags = SHF_WRITE, sh_addr = banner_va bs,
        sh_offset = of_nat (strtbl_off + MAX_STRTBL_SIZE), sh_size = 6, sh_entsize = 0\<rparr>] ! i"

definition base_phdr :: "elf_base \<Rightarrow> elf_phdr" where
  "base_phdr bs = \<lparr>p_type = PT_LOAD, p_flags = PF_RW,
     p_offset = of_nat (strtbl_off + MAX_STRTBL_SIZE), p_vaddr = banner_va bs,
     p_paddr = banner_pa bs, p_filesz = 6, p_memsz = 6\<rparr>"

definition hdr_rep :: "elf_base \<Rightarrow> md_region list \<Rightarrow> elfhdr \<Rightarrow> bool" where
  "hdr_rep bs L hdr \<longleftrightarrow>
     e_shoff hdr = sizeof_ehdr \<and> e_phoff hdr = phdr_off \<and> e_shstrndx hdr = 1 \<and>
     e_shnum hdr = 4 + length L \<and> e_phnum hdr = 1 + length L \<and>
     (\<forall>i < 4. shdrs hdr i = base_shdr bs i) \<and> phdrs hdr 0 = base_phdr bs \<and>
     (\<forall>k < length L. shdrs hdr (4 + k) = region_shdr L k) \<and>
     (\<forall>k < length L. phdrs hdr (1 + k) = region_phdr L k) \<and>
     arr_seg (buf hdr) strtbl_off (length (strtab_of L)) = strtab_of L"

definition elf_rep :: "elf_base \<Rightarrow> md_region list \<Rightarrow> md_elfhdr \<Rightarrow> bool" where
  "elf_rep bs L eh \<longleftrightarrow>
     (\<exists>hdr. ehdr eh = Some hdr \<and> hdr_rep bs L hdr) \<and>
     elf_offset eh = data_off L (length L) \<and> strtable_idx eh = name_off L (length L) \<and>
     (\<forall>r \<in> set L. wf_region r) \<and> length L + 4 \<le> MAX_NUM_ENTRIES"

subsection \<open>Layout facts\<close>

lemma length_base_strings [md_consts]: "length base_strings = 37"
  by (simp add: base_strings_def)

lemma length_strtab_of: "length (strtab_of L) = name_off L (length L)"
  by (simp add: strtab_of_def name_off_def length_concat o_def)

lemma name_off_mono: "i \<le> j \<Longrightarrow> name_off L i \<le> name_off L j"
proof (induction j)
  case (Suc j)
  have "name_off L j \<le> name_off L (Suc j)"
    by (cases "j < length L") (auto simp: name_off_def take_Suc_conv_app_nth)
  with Suc show ?case by (cases "i = Suc j") auto
qed simp

lemma name_off_Suc: "k < length L \<Longrightarrow> name_off L (Suc k) = name_off L k + length (mdr_name (L ! k)) + 1"
  by (simp add: name_off_def take_Suc_conv_app_nth)

lemma data_off_Suc: "k < length L \<Longrightarrow> data_off L (Suc k) = data_off L k + mdr_size (L ! k)"
  by (simp add: data_off_def take_Suc_conv_app_nth add.assoc)

lemma name_off_snoc [simp]: "k \<le> length L \<Longrightarrow> name_off (L @ [r]) k = name_off L k"
  by (simp add: name_off_def)

lemma data_off_snoc [simp]: "k \<le> length L \<Longrightarrow> data_off (L @ [r]) k = data_off L k"
  by (simp add: data_off_def)

text \<open>Thirteen bytes per region are enough for the names, so the string table never overflows.\<close>

lemma name_off_bound:
  assumes "\<forall>r \<in> set L. wf_region r"
  shows "name_off L k \<le> 37 + 13 * length L"
proof -
  have "sum_list (map (\<lambda>r. length (mdr_name r) + 1) M) \<le> 13 * length M"
    if "\<forall>r \<in> set M. wf_region r" for M
    using that by (induction M) (auto dest: wf_regionD)
  moreover have "\<forall>r \<in> set (take k L). wf_region r"
    using assms by (meson in_set_takeD)
  ultimately have "sum_list (map (\<lambda>r. length (mdr_name r) + 1) (take k L)) \<le> 13 * length (take k L)"
    by blast
  also have "\<dots> \<le> 13 * length L" by simp
  finally show ?thesis by (simp add: name_off_def md_consts)
qed

lemma strtab_of_take:
  "k < length L \<Longrightarrow>
   strtab_of L = strtab_of (take k L) @ (mdr_name (L ! k) @ [NUL]) @
     concat (map (\<lambda>r. mdr_name r @ [NUL]) (drop (Suc k) L))"
  by (subst id_take_nth_drop [of k L]) (simp_all add: strtab_of_def)

lemma length_strtab_of_take: "length (strtab_of (take k L)) = name_off L k"
  by (simp add: length_strtab_of name_off_def min_def)

lemma strtab_of_remove_nth:
  assumes "k < length L"
  shows "strtab_of (remove_nth k L) =
         take (name_off L k) (strtab_of L) @ drop (name_off L (Suc k)) (strtab_of L)"
proof -
  let ?pre = "strtab_of (take k L)" and ?mid = "mdr_name (L ! k) @ [NUL]"
    and ?post = "concat (map (\<lambda>r. mdr_name r @ [NUL]) (drop (Suc k) L))"
  have L: "strtab_of L = ?pre @ ?mid @ ?post" by (rule strtab_of_take [OF assms])
  have "name_off L k = length ?pre" and "name_off L (Suc k) = length (?pre @ ?mid)"
    using assms by (simp_all add: length_strtab_of_take name_off_Suc)
  then have "take (name_off L k) (strtab_of L) @ drop (name_off L (Suc k)) (strtab_of L) = ?pre @ ?post"
    by (simp add: L)
  then show ?thesis by (simp add: remove_nth_def strtab_of_def)
qed

lemma name_off_remove_nth:
  assumes "k < length L" and "i < length L"
  shows "name_off (remove_nth k L) i =
    (if i \<le> k then name_off L i else name_off L (Suc i) - (length (mdr_name (L ! k)) + 1))"
proof (cases "i \<le> k")
  case True
  with assms show ?thesis by (simp add: name_off_def take_remove_nth)
next
  case False
  let ?ls = "\<lambda>M. map (\<lambda>r. length (mdr_name r) + 1) M"
  have k: "k < length (?ls (take (Suc i) L))" using False assms by simp
  have "sum_list (?ls (take i (remove_nth k L))) = sum_list (remove_nth k (?ls (take (Suc i) L)))"
    using False assms by (simp add: take_remove_nth map_remove_nth)
  also have "\<dots> = sum_list (?ls (take (Suc i) L)) - ?ls (take (Suc i) L) ! k"
    by (rule sum_list_remove_nth_nat [OF k])
  finally have "sum_list (?ls (take i (remove_nth k L))) =
      sum_list (?ls (take (Suc i) L)) - (length (mdr_name (L ! k)) + 1)"
    using False assms by simp
  moreover have "?ls (take (Suc i) L) ! k \<le> sum_list (?ls (take (Suc i) L))"
    by (rule elem_le_sum_list [OF k])
  ultimately show ?thesis using False assms by (simp add: name_off_def)
qed

lemma data_off_remove_nth:
  assumes "k < length L" and "i < length L"
  shows "data_off (remove_nth k L) i =
    (if i \<le> k then data_off L i else data_off L (Suc i) - mdr_size (L ! k))"
proof (cases "i \<le> k")
  case True
  with assms show ?thesis by (simp add: data_off_def take_remove_nth)
next
  case False
  have k: "k < length (map mdr_size (take (Suc i) L))" using False assms by simp
  have "sum_list (map mdr_size (take i (remove_nth k L))) =
      sum_list (remove_nth k (map mdr_size (take (Suc i) L)))"
    using False assms by (simp add: take_remove_nth map_remove_nth)
  also have "\<dots> = sum_list (map mdr_size (take (Suc i) L)) - map mdr_size (take (Suc i) L) ! k"
    by (rule sum_list_remove_nth [OF k])
  finally show ?thesis using False assms by (simp add: data_off_def)
qed

subsection \<open>The gap-closing loops\<close>

lemma shift_phdrs_eq:
  "shift_phdrs a i m esize =
   (\<lambda>j. if i \<le> j \<and> j < i + m then (a (j + 1))\<lparr>p_offset := p_offset (a (j + 1)) - esize\<rparr> else a j)"
proof (induction m arbitrary: a i)
  case (Suc m)
  show ?case by (rule ext) (auto simp: Suc.IH Let_def)
qed (auto simp: fun_eq_iff)

lemma shift_shdrs_eq:
  "shift_shdrs a i m esize strln =
   (\<lambda>j. if i \<le> j \<and> j < i + m
        then (a (j + 1))\<lparr>sh_offset := sh_offset (a (j + 1)) - esize,
                        sh_name := u32_sub (sh_name (a (j + 1))) strln\<rparr>
        else a j)"
proof (induction m arbitrary: a i)
  case (Suc m)
  show ?case by (rule ext) (auto simp: Suc.IH Let_def)
qed (auto simp: fun_eq_iff)

subsection \<open>The operations on a described header\<close>

lemma elf_repE:
  assumes "elf_rep bs L eh"
  obtains hdr where "ehdr eh = Some hdr" and "hdr_rep bs L hdr"
    and "elf_offset eh = data_off L (length L)" and "strtable_idx eh = name_off L (length L)"
    and "\<forall>r \<in> set L. wf_region r" and "length L + 4 \<le> MAX_NUM_ENTRIES"
  using assms by (auto simp: elf_rep_def)

lemma elf_str_table_rep: "hdr_rep bs L hdr \<Longrightarrow> elf_str_table hdr = Some strtbl_off"
  by (simp add: hdr_rep_def elf_str_table_def base_shdr_def md_consts)

lemma elf_str_table_upd [simp]:
  "elf_str_table (hdr\<lparr>e_shnum := a\<rparr>) = elf_str_table hdr"
  "elf_str_table (hdr\<lparr>e_phnum := b\<rparr>) = elf_str_table hdr"
  "elf_str_table (hdr\<lparr>buf := c\<rparr>) = elf_str_table hdr"
  by (simp_all add: elf_str_table_def)

lemma upd_shdr_Some:
  "ehdr eh = Some hdr \<Longrightarrow> e_shoff hdr = 64 \<Longrightarrow> e_phoff hdr = 12928 \<Longrightarrow> idx \<le> 200 \<Longrightarrow>
   upd_shdr idx g eh =
     Some (eh\<lparr>ehdr := Some (hdr\<lparr>shdrs := (shdrs hdr)(idx := g (shdrs hdr idx))\<rparr>)\<rparr>)"
  by (simp add: upd_shdr_def elf_section_def elf_sheader_def elf_pheader_def md_consts)

lemma upd_phdr_Some:
  "ehdr eh = Some hdr \<Longrightarrow> e_phoff hdr = 12928 \<Longrightarrow> idx \<le> 200 \<Longrightarrow>
   upd_phdr idx g eh =
     Some (eh\<lparr>ehdr := Some (hdr\<lparr>phdrs := (phdrs hdr)(idx := g (phdrs hdr idx))\<rparr>)\<rparr>)"
  by (simp add: upd_phdr_def elf_program_def elf_pheader_def md_consts)

lemma set_section_name_Some:
  assumes "ehdr eh = Some hdr" and "elf_str_table hdr = Some strtab"
    and "length nm < MAX_REGION_NAME_LENGTH" and "strtable_idx eh + length nm + 1 \<le> MAX_STRTBL_SIZE"
  shows "set_section_name (Some nm) eh =
    Some (strtable_idx eh,
      eh\<lparr>ehdr := Some (hdr\<lparr>buf := arr_write (buf hdr) (strtab + strtable_idx eh) (nm @ [NUL])\<rparr>),
         strtable_idx := strtable_idx eh + length nm + 1\<rparr>)"
  using assms by (simp add: set_section_name_def Let_def md_consts)

text \<open>The three names of the fixed sections, behind the empty name at index 0.\<close>

lemma base_strings_written:
  "arr_seg (arr_write (arr_write (arr_write (arr_write (\<lambda>_. NUL) (s + 1) (''STR_TBL'' @ [NUL]))
     (s + 9) (''minidump_table'' @ [NUL])) (s + 3216) xs) (s + 24) (''linux_banner'' @ [NUL])) s 37
   = base_strings"
  (is "arr_seg (arr_write (arr_write (arr_write ?f1 (s + 9) ?b) (s + 3216) xs) (s + 24) ?c) s 37 = _")
proof -
  let ?f2 = "arr_write ?f1 (s + 9) ?b"
  have "arr_seg ?f1 s 9 = [NUL] @ ''STR_TBL'' @ [NUL]"
    using arr_seg_write [of "\<lambda>_. NUL" s 1 "''STR_TBL'' @ [NUL]"]
    by (simp add: arr_seg_Suc [of _ _ 0] numeral_eq_Suc)
  then have "arr_seg ?f2 s 24 = [NUL] @ ''STR_TBL'' @ [NUL] @ ?b"
    using arr_seg_write [of ?f1 s 9 ?b] by simp
  then have "arr_seg (arr_write ?f2 (s + 3216) xs) s 24 = [NUL] @ ''STR_TBL'' @ [NUL] @ ?b"
    by simp
  then show ?thesis
    using arr_seg_write [of "arr_write ?f2 (s + 3216) xs" s 24 ?c]
    by (simp add: base_strings_def)
qed

lemma all_less_4: "(\<forall>i < 4. P i) \<longleftrightarrow> P 0 \<and> P 1 \<and> P 2 \<and> P (3 :: nat)"
  by (auto simp: less_Suc_eq numeral_eq_Suc)

lemma fill_elf_header_rep:
  "\<exists>eh. fill_elf_header tva bva bpa = Some eh \<and>
        elf_rep \<lparr>table_va = tva, banner_va = bva, banner_pa = bpa\<rparr> [] eh"
  using base_strings_written [of 24184 "linux_banner @ [NUL]"]
  by (auto simp: fill_elf_header_def Let_def upd_shdr_def upd_phdr_def set_section_name_def
      elf_section_def elf_sheader_def elf_pheader_def elf_program_def elf_str_table_def
      zero_elfhdr_def elf_rep_def hdr_rep_def base_shdr_def base_phdr_def zero_shdr_def
      zero_phdr_def strtab_of_def data_off_def name_off_def linux_banner_def md_consts
      all_less_4)

lemma shdr_full_upd [simp]:
  "sh\<lparr>sh_type := t, sh_name := n, sh_addr := a, sh_size := s, sh_flags := f, sh_offset := off,
     sh_entsize := e\<rparr> =
   \<lparr>sh_name = n, sh_type = t, sh_flags = f, sh_addr = a, sh_offset = off, sh_size = s,
     sh_entsize = e\<rparr>"
  by (rule elf_shdr.equality) simp_all

lemma phdr_full_upd [simp]:
  "ph\<lparr>p_type := t, p_offset := off, p_vaddr := v, p_paddr := p, p_filesz := s, p_memsz := m,
     p_flags := f\<rparr> =
   \<lparr>p_type = t, p_flags = f, p_offset = off, p_vaddr = v, p_paddr = p, p_filesz = s,
     p_memsz = m\<rparr>"
  by (rule elf_phdr.equality) simp_all

lemma md_add_elf_header_eq:
  assumes hdr: "ehdr eh = Some hdr" "e_shoff hdr = 64" "e_phoff hdr = 12928"
    "elf_str_table hdr = Some st"
    and room: "e_shnum hdr \<le> 200" "e_phnum hdr \<le> 200"
    and nm: "length (mdr_name r) < MAX_REGION_NAME_LENGTH"
      "strtable_idx eh + length (mdr_name r) + 1 \<le> MAX_STRTBL_SIZE"
  shows "md_add_elf_header r eh = Some (eh\<lparr>
    ehdr := Some (hdr\<lparr>e_shnum := e_shnum hdr + 1, e_phnum := e_phnum hdr + 1,
      buf := arr_write (buf hdr) (st + strtable_idx eh) (mdr_name r @ [NUL]),
      shdrs := (shdrs hdr)(e_shnum hdr := \<lparr>sh_name = strtable_idx eh, sh_type = SHT_PROGBITS,
        sh_flags = SHF_WRITE, sh_addr = virt_addr r, sh_offset = elf_offset eh,
        sh_size = mdr_size r, sh_entsize = 0\<rparr>),
      phdrs := (phdrs hdr)(e_phnum hdr := \<lparr>p_type = PT_LOAD, p_flags = PF_RW,
        p_offset = elf_offset eh, p_vaddr = virt_addr r, p_paddr = phys_addr r,
        p_filesz = mdr_size r, p_memsz = mdr_size r\<rparr>)\<rparr>),
    strtable_idx := strtable_idx eh + length (mdr_name r) + 1,
    elf_offset := elf_offset eh + mdr_size r\<rparr>)"
proof -
  let ?h1 = "hdr\<lparr>e_shnum := e_shnum hdr + 1, e_phnum := e_phnum hdr + 1\<rparr>"
  let ?e1 = "eh\<lparr>ehdr := Some ?h1\<rparr>"
  let ?e2 = "?e1\<lparr>ehdr := Some (?h1\<lparr>buf := arr_write (buf ?h1) (st + strtable_idx ?e1)
      (mdr_name r @ [NUL])\<rparr>), strtable_idx := strtable_idx ?e1 + length (mdr_name r) + 1\<rparr>"
  have "set_section_name (Some (mdr_name r)) ?e1 = Some (strtable_idx ?e1, ?e2)"
    by (rule set_section_name_Some) (use hdr nm in simp_all)
  then show ?thesis
    using hdr(2,3) room
    by (simp add: md_add_elf_header_def hdr(1) Let_def upd_shdr_def upd_phdr_def elf_section_def
        elf_sheader_def elf_pheader_def elf_program_def md_consts)
qed

lemma md_add_elf_header_rep:
  assumes rep: "elf_rep bs L eh" and wf: "wf_region r" and room: "length L + 5 \<le> MAX_NUM_ENTRIES"
  shows "\<exists>eh'. md_add_elf_header r eh = Some eh' \<and> elf_rep bs (L @ [r]) eh'"
proof -
  from rep obtain hdr where hdr: "ehdr eh = Some hdr" "hdr_rep bs L hdr"
    and off: "elf_offset eh = data_off L (length L)" and idx: "strtable_idx eh = name_off L (length L)"
    and wfL: "\<forall>r \<in> set L. wf_region r" and len: "length L + 4 \<le> MAX_NUM_ENTRIES"
    by (rule elf_repE)
  have nm: "length (mdr_name r) \<le> 12" using wf by (rule wf_regionD)
  have fits: "name_off L (length L) + length (mdr_name r) + 1 \<le> 3216"
    using name_off_bound [OF wfL, of "length L"] room nm by (simp add: md_consts)
  have str: "strtab_of (L @ [r]) = strtab_of L @ mdr_name r @ [NUL]"
    by (simp add: strtab_of_def)
  have seg: "arr_seg (arr_write (buf hdr) (24184 + name_off L (length L)) (mdr_name r @ [NUL])) 24184
      (Suc (name_off L (length L) + length (mdr_name r))) = strtab_of L @ mdr_name r @ [NUL]"
    using arr_seg_write [of "buf hdr" 24184 "name_off L (length L)" "mdr_name r @ [NUL]"] hdr(2)
    by (simp add: hdr_rep_def length_strtab_of md_consts)
  show ?thesis
    using hdr(2) room nm fits wf wfL
    by (subst md_add_elf_header_eq [OF hdr(1) _ _ elf_str_table_rep [OF hdr(2)]])
      (auto simp: elf_rep_def hdr_rep_def off idx str less_Suc_eq region_shdr_def region_phdr_def
        nth_append name_off_Suc data_off_Suc seg length_strtab_of md_consts
        name_off_Suc [of "length L" "L @ [r]"] data_off_Suc [of "length L" "L @ [r]"])
qed

definition move_region :: "md_region \<Rightarrow> md_region \<Rightarrow> md_region" where
  "move_region r e = r\<lparr>virt_addr := virt_addr e, phys_addr := phys_addr e\<rparr>"

lemma move_region_simps [simp]:
  "mdr_name (move_region r e) = mdr_name r" "mdr_size (move_region r e) = mdr_size r"
  "mdr_id (move_region r e) = mdr_id r"
  "virt_addr (move_region r e) = virt_addr e" "phys_addr (move_region r e) = phys_addr e"
  by (simp_all add: move_region_def)

lemma map_upd_same: "k < length L \<Longrightarrow> f x = f (L ! k) \<Longrightarrow> map f (take i (L[k := x])) = map f (take i L)"
  by (auto simp: list_eq_iff_nth_eq nth_list_update)

lemma layout_move [simp]:
  assumes "k < length L"
  shows "name_off (L[k := move_region (L ! k) e]) i = name_off L i"
    and "data_off (L[k := move_region (L ! k) e]) i = data_off L i"
    and "strtab_of (L[k := move_region (L ! k) e]) = strtab_of L"
proof -
  show "name_off (L[k := move_region (L ! k) e]) i = name_off L i"
    unfolding name_off_def by (subst map_upd_same [OF assms]) simp_all
  show "data_off (L[k := move_region (L ! k) e]) i = data_off L i"
    unfolding data_off_def by (subst map_upd_same [OF assms]) simp_all
  show "strtab_of (L[k := move_region (L ! k) e]) = strtab_of L"
    using map_upd_same [OF assms, of "\<lambda>r. mdr_name r @ [NUL]" "move_region (L ! k) e" "length L"]
    by (simp add: strtab_of_def)
qed

lemma md_update_elf_header_rep:
  assumes rep: "elf_rep bs L eh" and k: "k < length L" and va: "virt_addr e \<noteq> 0"
  shows "\<exists>eh'. md_update_elf_header (int k) e eh = Some eh' \<and>
               elf_rep bs (L[k := move_region (L ! k) e]) eh'"
proof -
  from rep obtain hdr where hdr: "ehdr eh = Some hdr" "hdr_rep bs L hdr"
    and off: "elf_offset eh = data_off L (length L)" and idx: "strtable_idx eh = name_off L (length L)"
    and wfL: "\<forall>r \<in> set L. wf_region r" and len: "length L + 4 \<le> MAX_NUM_ENTRIES"
    by (rule elf_repE)
  let ?hdr = "hdr\<lparr>shdrs := (shdrs hdr)(k + 4 := (shdrs hdr (k + 4))\<lparr>sh_addr := virt_addr e\<rparr>),
    phdrs := (phdrs hdr)(k + 1 := (phdrs hdr (k + 1))\<lparr>p_vaddr := virt_addr e, p_paddr := phys_addr e\<rparr>)\<rparr>"
  have "md_update_elf_header (int k) e eh = Some (eh\<lparr>ehdr := Some ?hdr\<rparr>)"
    using hdr k len
    by (simp add: md_update_elf_header_def upd_shdr_def upd_phdr_def hdr_rep_def nat_add_distrib
        elf_section_def elf_sheader_def elf_pheader_def elf_program_def md_consts)
  moreover have "wf_region (move_region (L ! k) e)"
    using wfL k va by (auto simp: wf_region_def)
  then have "elf_rep bs (L[k := move_region (L ! k) e]) (eh\<lparr>ehdr := Some ?hdr\<rparr>)"
    using hdr(2) k len wfL off idx set_update_subset_insert [of L k "move_region (L ! k) e"]
    by (auto simp: elf_rep_def hdr_rep_def nth_list_update region_shdr_def region_phdr_def
        add.commute [of k 4])
  ultimately show ?thesis by blast
qed

subsection \<open>Finding and removing a region's headers\<close>

lemma arr_seg_sub:
  "n + m \<le> N \<Longrightarrow> arr_seg f (s + n) m = take m (drop n (arr_seg f s N))"
  by (auto simp: list_eq_iff_nth_eq add.assoc)

lemma section_name_read:
  assumes rep: "hdr_rep bs L hdr" and idx: "strtable_idx eh = name_off L (length L)"
    and wf: "\<forall>r \<in> set L. wf_region r" and len: "length L + 4 \<le> MAX_NUM_ENTRIES"
    and split: "strtab_of L = pre @ nm @ [NUL] @ post" and nm: "cstring nm"
  shows "elf_lookup_string eh hdr (length pre) = Some (strtbl_off + length pre)"
    and "c_string (buf hdr) (strtbl_off + length pre) (elfh_size - (strtbl_off + length pre)) = nm"
proof -
  have total: "length pre + length nm + 1 \<le> name_off L (length L)"
    using arg_cong [OF split, of length] by (simp add: length_strtab_of)
  also have "\<dots> \<le> 37 + 13 * length L" by (rule name_off_bound [OF wf])
  finally have small: "length pre + length nm < 2636" using len by (simp add: md_consts)
  show "elf_lookup_string eh hdr (length pre) = Some (strtbl_off + length pre)"
    using total idx by (simp add: elf_lookup_string_def elf_str_table_rep [OF rep])
  have "arr_seg (buf hdr) (strtbl_off + length pre) (length nm + 1) =
      take (length nm + 1) (drop (length pre) (strtab_of L))"
    using rep total
    by (subst arr_seg_sub [of _ _ "length (strtab_of L)"]) (auto simp: hdr_rep_def length_strtab_of)
  then have "arr_seg (buf hdr) (strtbl_off + length pre) (length nm + 1) = nm @ [NUL]"
    by (simp add: split)
  then show "c_string (buf hdr) (strtbl_off + length pre) (elfh_size - (strtbl_off + length pre)) = nm"
    by (rule c_string_read [OF _ nm]) (use small in \<open>simp add: md_consts\<close>)
qed

lemma shdr_matches_region:
  assumes rep: "hdr_rep bs L hdr" and idx: "strtable_idx eh = name_off L (length L)"
    and wf: "\<forall>r \<in> set L. wf_region r" and len: "length L + 4 \<le> MAX_NUM_ENTRIES"
    and i: "i < length L"
  shows "shdr_matches e eh hdr (4 + i) \<longleftrightarrow>
    mdr_name (L ! i) = mdr_name e \<and> virt_addr (L ! i) = virt_addr e \<and> mdr_size (L ! i) = mdr_size e"
proof -
  have "cstring (mdr_name (L ! i))" using wf i by (auto dest: wf_regionD)
  note read = section_name_read [OF rep idx wf len _ this, of "strtab_of (take i L)"]
  have "strtab_of L = strtab_of (take i L) @ mdr_name (L ! i) @ [NUL] @
      concat (map (\<lambda>r. mdr_name r @ [NUL]) (drop (Suc i) L))"
    using strtab_of_take [OF i] by simp
  from read [OF this] have "elf_lookup_string eh hdr (name_off L i) = Some (strtbl_off + name_off L i)"
    and "c_string (buf hdr) (strtbl_off + name_off L i) (elfh_size - (strtbl_off + name_off L i)) =
      mdr_name (L ! i)"
    by (simp_all add: length_strtab_of_take)
  moreover have "shdrs hdr (4 + i) = region_shdr L i" using rep i by (simp add: hdr_rep_def)
  ultimately show ?thesis by (simp add: shdr_matches_def region_shdr_def)
qed

lemma shdr_matches_base:
  assumes rep: "hdr_rep bs L hdr" and idx: "strtable_idx eh = name_off L (length L)"
    and wf: "\<forall>r \<in> set L. wf_region r" and len: "length L + 4 \<le> MAX_NUM_ENTRIES"
    and e: "wf_region e" and i: "i < 4"
  shows "\<not> shdr_matches e eh hdr i"
proof -
  note e' = wf_regionD [OF e]
  have "cstring ''minidump_table''" by (simp add: cstring_def NUL_def)
  note read = section_name_read [OF rep idx wf len _ this, of "[NUL] @ ''STR_TBL'' @ [NUL]"
      "''linux_banner'' @ [NUL] @ concat (map (\<lambda>r. mdr_name r @ [NUL]) L)"]
  have nine: "length ([NUL] @ ''STR_TBL'' @ [NUL]) = 9" by simp
  have "elf_lookup_string eh hdr 9 = Some (strtbl_off + 9)"
    and "c_string (buf hdr) (strtbl_off + 9) (elfh_size - (strtbl_off + 9)) = ''minidump_table''"
    using read [unfolded nine] by (simp_all add: strtab_of_def base_strings_def)
  moreover have "mdr_name e \<noteq> ''minidump_table''" using e'(2) by auto
  moreover have "shdrs hdr i = base_shdr bs i" using rep i by (simp add: hdr_rep_def)
  ultimately show ?thesis using i e'
    by (auto simp: shdr_matches_def base_shdr_def zero_shdr_def less_Suc_eq numeral_eq_Suc)
qed

lemma phdr_matches_region:
  assumes "hdr_rep bs L hdr" and "i < length L"
  shows "phdr_matches e hdr (1 + i) \<longleftrightarrow>
    phys_addr (L ! i) = phys_addr e \<and> mdr_size (L ! i) = mdr_size e"
  using assms by (simp add: phdr_matches_def hdr_rep_def region_phdr_def)

lemma phdr_matches_base: "hdr_rep bs L hdr \<Longrightarrow> wf_region e \<Longrightarrow> \<not> phdr_matches e hdr 0"
  by (auto simp: phdr_matches_def hdr_rep_def base_phdr_def dest: wf_regionD)

lemma layout_after_remove:
  assumes "k < length L" and "k \<le> i" and "i < length L"
  shows "name_off (remove_nth k L) i = name_off L (Suc i) - (length (mdr_name (L ! k)) + 1)"
    and "data_off (remove_nth k L) i = data_off L (Suc i) - mdr_size (L ! k)"
  using assms name_off_Suc [of k L] data_off_Suc [of k L]
  by (cases "i = k"; simp add: name_off_remove_nth data_off_remove_nth)+

lemma layout_total_remove:
  assumes "k < length L"
  shows "name_off (remove_nth k L) (length L - 1) = name_off L (length L) - (length (mdr_name (L ! k)) + 1)"
    and "data_off (remove_nth k L) (length L - 1) = data_off L (length L) - mdr_size (L ! k)"
  using layout_after_remove [of k L "length L - 1"] assms by (cases "length L"; simp)+

lemma shift_shdrs_region:
  assumes rep: "hdr_rep bs L hdr" and k: "k < length L" and i: "i < length L - 1"
    and small: "name_off L (length L) < 2 ^ 32"
  shows "shift_shdrs (shdrs hdr) (4 + k) (length L - 1 - k) (mdr_size (L ! k))
           (length (mdr_name (L ! k)) + 1) (4 + i) = region_shdr (remove_nth k L) i"
proof (cases "i < k")
  case True
  with assms show ?thesis
    by (simp add: shift_shdrs_eq hdr_rep_def region_shdr_def nth_remove_nth name_off_remove_nth
        data_off_remove_nth)
next
  case False
  have "shdrs hdr (4 + Suc i) = region_shdr L (Suc i)"
    using rep i unfolding hdr_rep_def by (metis Suc_leI less_diff_conv Suc_eq_plus1)
  moreover have "length (mdr_name (L ! k)) + 1 \<le> name_off L (Suc i)"
    using name_off_mono [of "Suc k" "Suc i" L] name_off_Suc [OF k] False by simp
  moreover have "name_off L (Suc i) < 2 ^ 32"
    using name_off_mono [of "Suc i" "length L" L] i small by linarith
  ultimately show ?thesis
    using False k i layout_after_remove [of k L i]
    by (simp add: shift_shdrs_eq region_shdr_def nth_remove_nth)
qed

lemma shift_phdrs_region:
  assumes rep: "hdr_rep bs L hdr" and k: "k < length L" and i: "i < length L - 1"
  shows "shift_phdrs (phdrs hdr) (1 + k) (length L - 1 - k) (mdr_size (L ! k)) (1 + i) =
         region_phdr (remove_nth k L) i"
proof (cases "i < k")
  case True
  with assms show ?thesis
    by (simp add: shift_phdrs_eq hdr_rep_def region_phdr_def nth_remove_nth data_off_remove_nth)
next
  case False
  have "phdrs hdr (1 + Suc i) = region_phdr L (Suc i)"
    using rep i unfolding hdr_rep_def by (metis Suc_leI less_diff_conv Suc_eq_plus1)
  then show ?thesis
    using False k i layout_after_remove [of k L i]
    by (simp add: shift_phdrs_eq region_phdr_def nth_remove_nth)
qed

text \<open>
  Removing the headers of region \<open>k\<close>: the string table, both header tables, the counters and
  the running offset describe the remaining regions.
\<close>

lemma clear_headers_at_rep:
  assumes rep: "elf_rep bs L eh" and hdr: "ehdr eh = Some hdr" and k: "k < length L"
    and e: "mdr_size e = mdr_size (L ! k)"
  shows "\<exists>eh'. clear_headers_at (1 + k) (4 + k) e eh hdr = Some eh' \<and>
               elf_rep bs (remove_nth k L) eh'"
proof -
  from rep hdr have hrep: "hdr_rep bs L hdr"
    and off: "elf_offset eh = data_off L (length L)" and idx: "strtable_idx eh = name_off L (length L)"
    and wf: "\<forall>r \<in> set L. wf_region r" and len: "length L + 4 \<le> MAX_NUM_ENTRIES"
    by (auto simp: elf_rep_def)
  let ?nm = "mdr_name (L ! k)" and ?n = "name_off L k" and ?N = "name_off L (length L)"
  let ?L = "remove_nth k L"
  have cs: "cstring ?nm" and l12: "length ?nm \<le> 12" using wf k by (auto dest: wf_regionD)
  have split: "strtab_of L = strtab_of (take k L) @ ?nm @ [NUL] @
      concat (map (\<lambda>r. mdr_name r @ [NUL]) (drop (Suc k) L))"
    using strtab_of_take [OF k] by simp
  note read = section_name_read [OF hrep idx wf len split cs, unfolded length_strtab_of_take]
  have nk: "?n + length ?nm + 1 \<le> ?N"
    using name_off_mono [of "Suc k" "length L" L] k by (simp add: name_off_Suc)
  have N: "?N \<le> 2637" using name_off_bound [OF wf, of "length L"] len by (simp add: md_consts)
  have fits: "name_off L i < 2 ^ 32" if "i \<le> length L" for i
    using name_off_mono [OF that, of L] N by simp
  let ?b = "memmove (buf hdr) (strtbl_off + ?n) (strtbl_off + ?n + (length ?nm + 1)) (?N - ?n)"
  have seg: "arr_seg ?b strtbl_off (?N - (length ?nm + 1)) = strtab_of ?L"
  proof -
    have "arr_seg (buf hdr) strtbl_off ?N = strtab_of L"
      using hrep by (simp add: hdr_rep_def length_strtab_of)
    then show ?thesis
      using arr_seg_memmove [of ?n "length ?nm + 1" ?N "?N - ?n" "buf hdr" strtbl_off] nk
      by (simp add: strtab_of_remove_nth [OF k] name_off_Suc [OF k] add.assoc)
  qed
  let ?hdr = "hdr\<lparr>buf := ?b,
    phdrs := (shift_phdrs (phdrs hdr) (1 + k) (length L - 1 - k) (mdr_size (L ! k)))(length L := zero_phdr),
    e_phnum := length L,
    shdrs := (shift_shdrs (shdrs hdr) (4 + k) (length L - 1 - k) (mdr_size (L ! k))
       (length ?nm + 1))(3 + length L := zero_shdr),
    e_shnum := 3 + length L\<rparr>"
  have "clear_headers_at (1 + k) (4 + k) e eh hdr = Some (eh\<lparr>ehdr := Some ?hdr,
      strtable_idx := ?N - (length ?nm + 1), elf_offset := data_off L (length L) - mdr_size (L ! k)\<rparr>)"
    using hrep k read nk N l12
    by (simp add: clear_headers_at_def Let_def hdr_rep_def region_shdr_def idx off e md_consts
        nat_diff_distrib)
  moreover have "hdr_rep bs ?L ?hdr"
  proof -
    have "length (strtab_of ?L) = ?N - (length ?nm + 1)"
      using layout_total_remove [OF k] k by (simp add: length_strtab_of)
    moreover have "\<forall>i < 4. shift_shdrs (shdrs hdr) (4 + k) (length L - 1 - k) (mdr_size (L ! k))
        (length ?nm + 1) i = base_shdr bs i"
      using hrep by (simp add: shift_shdrs_eq hdr_rep_def)
    moreover have "shift_phdrs (phdrs hdr) (1 + k) (length L - 1 - k) (mdr_size (L ! k)) 0 = base_phdr bs"
      using hrep by (simp add: shift_phdrs_eq hdr_rep_def)
    ultimately show ?thesis
      using hrep k seg shift_shdrs_region [OF hrep k] shift_phdrs_region [OF hrep k] fits [of "length L"]
      by (cases "L = []") (simp_all add: hdr_rep_def)
  qed
  ultimately show ?thesis
    using wf len k set_remove_nth_subset [of k L] layout_total_remove [OF k]
    by (auto simp: elf_rep_def)
qed

text \<open>
  The entry that is removed agrees with region \<open>k\<close>, and no earlier region answers to the
  searches: then the searches find region \<open>k\<close>.
\<close>

lemma clear_headers_rep:
  assumes rep: "elf_rep bs L eh" and k: "k < length L" and wf: "wf_region e"
    and e: "mdr_name e = mdr_name (L ! k)" "virt_addr e = virt_addr (L ! k)"
      "phys_addr e = phys_addr (L ! k)" "mdr_size e = mdr_size (L ! k)"
    and first: "\<And>j. j < k \<Longrightarrow> \<not> (phys_addr (L ! j) = phys_addr e \<and> mdr_size (L ! j) = mdr_size e)"
    and uniq: "\<And>j. j < k \<Longrightarrow> mdr_name (L ! j) \<noteq> mdr_name e"
  shows "\<exists>eh'. msm_minidump_clear_headers e eh = Some (0, eh') \<and> elf_rep bs (remove_nth k L) eh'"
proof -
  from rep obtain hdr where hdr: "ehdr eh = Some hdr" "hdr_rep bs L hdr"
    and idx: "strtable_idx eh = name_off L (length L)"
    and wfL: "\<forall>r \<in> set L. wf_region r" and len: "length L + 4 \<le> MAX_NUM_ENTRIES"
    by (rule elf_repE)
  note base = phdr_matches_base [OF hdr(2) wf] shdr_matches_base [OF hdr(2) idx wfL len wf]
  note at = phdr_matches_region [OF hdr(2)] shdr_matches_region [OF hdr(2) idx wfL len]
  have "find (phdr_matches e hdr) [0..<e_phnum hdr] = Some (1 + k)"
  proof (rule find_upt_first)
    show "1 + k < e_phnum hdr" using hdr(2) k by (simp add: hdr_rep_def)
    show "phdr_matches e hdr (1 + k)" using k e at(1) [of k e] by simp
    show "\<not> phdr_matches e hdr j" if "j < 1 + k" for j
      using that base(1) first at(1) k by (cases j) auto
  qed
  moreover have "find (shdr_matches e eh hdr) [0..<e_shnum hdr] = Some (4 + k)"
  proof (rule find_upt_first)
    show "4 + k < e_shnum hdr" using hdr(2) k by (simp add: hdr_rep_def)
    show "shdr_matches e eh hdr (4 + k)" using k e at(2) [of k e] by simp
    show "\<not> shdr_matches e eh hdr j" if j: "j < 4 + k" for j
    proof (cases "j < 4")
      case False
      then obtain i where "j = 4 + i" by (metis le_Suc_ex not_less)
      with j k uniq at(2) [of i e] show ?thesis by auto
    qed (rule base(2))
  qed
  moreover have "sh_offset (shdrs hdr (4 + k)) = p_offset (phdrs hdr (1 + k))"
    using hdr(2) k by (simp add: hdr_rep_def region_shdr_def region_phdr_def)
  moreover obtain eh' where "clear_headers_at (1 + k) (4 + k) e eh hdr = Some eh'"
    and "elf_rep bs (remove_nth k L) eh'"
    using clear_headers_at_rep [OF rep hdr(1) k e(4)] by blast
  ultimately show ?thesis by (simp add: msm_minidump_clear_headers_def hdr(1))
qed

text \<open>Every error return of \<^const>\<open>msm_minidump_clear_headers\<close> leaves the header as it was.\<close>

lemma clear_headers_error_frame:
  "msm_minidump_clear_headers e eh = Some (ret, eh') \<Longrightarrow> ret \<noteq> 0 \<Longrightarrow> ret = - EINVAL \<and> eh' = eh"
  by (auto simp: msm_minidump_clear_headers_def bind_eq_Some_conv split: option.splits if_splits)

text \<open>A region without program header is not removed.\<close>

lemma clear_headers_no_phdr:
  assumes rep: "elf_rep bs L eh" and wf: "wf_region e"
    and none: "\<And>r. r \<in> set L \<Longrightarrow> \<not> (phys_addr r = phys_addr e \<and> mdr_size r = mdr_size e)"
  shows "msm_minidump_clear_headers e eh = Some (- EINVAL, eh)"
proof -
  from rep obtain hdr where hdr: "ehdr eh = Some hdr" "hdr_rep bs L hdr" by (rule elf_repE)
  have "\<not> phdr_matches e hdr j" if "j < e_phnum hdr" for j
    using that hdr(2) none phdr_matches_base [OF hdr(2) wf] phdr_matches_region [OF hdr(2)]
    by (cases j) (auto simp: hdr_rep_def)
  then have "find (phdr_matches e hdr) [0..<e_phnum hdr] = None"
    by (simp add: find_upt_None)
  then show ?thesis by (simp add: msm_minidump_clear_headers_def hdr(1))
qed

subsection \<open>Removals with arbitrary details\<close>

text \<open>
  A region whose size is positive and within the 52-bit physical address space.  For such
  regions no two file offsets coincide, so the offset check of
  \<^verbatim>\<open>msm_minidump_clear_headers\<close> pairs the program header with the right section header.
\<close>

definition sized :: "md_region \<Rightarrow> bool" where
  "sized r \<longleftrightarrow> 0 < unat (mdr_size r) \<and> unat (mdr_size r) < 2 ^ 52"

lemma unat_data_off:
  assumes "\<forall>r \<in> set L. sized r" and "length L \<le> 201" and "i \<le> length L"
  shows "unat (data_off L i) = 27888 + sum_list (map (\<lambda>r. unat (mdr_size r)) (take i L)) \<and>
    sum_list (map (\<lambda>r. unat (mdr_size r)) (take i L)) \<le> i * 2 ^ 52"
  using assms(3)
proof (induction i)
  case 0
  show ?case by (simp add: data_off_def md_consts)
next
  case (Suc i)
  then have i: "i < length L" by simp
  then have "L ! i \<in> set L" by simp
  with assms(1) have z: "unat (mdr_size (L ! i)) < 2 ^ 52" by (simp add: sized_def)
  let ?S = "sum_list (map (\<lambda>r. unat (mdr_size r)) (take i L))"
  have IH: "unat (data_off L i) = 27888 + ?S" "?S \<le> i * 2 ^ 52"
    using Suc i by simp_all
  have S: "sum_list (map (\<lambda>r. unat (mdr_size r)) (take (Suc i) L)) = ?S + unat (mdr_size (L ! i))"
    using i by (simp add: take_Suc_conv_app_nth)
  have "unat (data_off L i) + unat (mdr_size (L ! i)) < 2 ^ 64"
    using IH z i assms(2) by simp
  then have "unat (data_off L (Suc i)) = unat (data_off L i) + unat (mdr_size (L ! i))"
    unfolding data_off_Suc [OF i] by (simp add: unat_word_ariths)
  with IH z S show ?case by simp
qed

lemma data_off_strict:
  assumes L: "\<forall>r \<in> set L. sized r" "length L \<le> 201" and ij: "i < j" "j \<le> length L"
  shows "data_off L i \<noteq> data_off L j"
proof -
  let ?S = "\<lambda>M. sum_list (map (\<lambda>r. unat (mdr_size r)) M)"
  obtain m where m: "j = i + Suc m" using ij(1) less_iff_Suc_add by auto
  have "drop i L = L ! i # drop (Suc i) L" using ij by (simp add: Cons_nth_drop_Suc)
  then have "take j L = take i L @ L ! i # take m (drop (Suc i) L)"
    unfolding m take_add by simp
  then have "?S (take j L) = ?S (take i L @ L ! i # take m (drop (Suc i) L))" by (rule arg_cong)
  moreover have "sized (L ! i)" using L ij by simp
  ultimately have "?S (take i L) < ?S (take j L)" by (simp add: sized_def)
  with unat_data_off [OF L, of i] unat_data_off [OF L, of j] ij show ?thesis by auto
qed

lemma data_off_inj:
  assumes "\<forall>r \<in> set L. sized r" and "length L \<le> 201" and "i \<le> length L" and "j \<le> length L"
  shows "data_off L i = data_off L j \<longleftrightarrow> i = j"
  using data_off_strict [OF assms(1,2), of i j] data_off_strict [OF assms(1,2), of j i] assms(3,4)
  by (cases i j rule: linorder_cases) auto

text \<open>Whatever details a removal passes, it removes the region of that name or nothing.\<close>

lemma clear_headers_cases:
  assumes rep: "elf_rep bs L eh" and wf: "wf_region e" and d: "distinct (map mdr_name L)"
    and sz: "\<forall>r \<in> set L. sized r"
  shows "msm_minidump_clear_headers e eh = Some (- EINVAL, eh) \<or>
    (\<exists>k eh'. k < length L \<and> mdr_name (L ! k) = mdr_name e \<and>
       msm_minidump_clear_headers e eh = Some (0, eh') \<and> elf_rep bs (remove_nth k L) eh')"
proof -
  from rep obtain hdr where hdr: "ehdr eh = Some hdr" "hdr_rep bs L hdr"
    and idx: "strtable_idx eh = name_off L (length L)"
    and wfL: "\<forall>r \<in> set L. wf_region r" and len: "length L + 4 \<le> MAX_NUM_ENTRIES"
    by (rule elf_repE)
  note sh = shdr_matches_region [OF hdr(2) idx wfL len]
  consider (miss) "msm_minidump_clear_headers e eh = Some (- EINVAL, eh)"
    | (hit) p q where "find (phdr_matches e hdr) [0..<e_phnum hdr] = Some p"
        "find (shdr_matches e eh hdr) [0..<e_shnum hdr] = Some q"
        "sh_offset (shdrs hdr q) = p_offset (phdrs hdr p)"
    unfolding msm_minidump_clear_headers_def hdr(1) bind.bind_lunit
    by (cases "find (phdr_matches e hdr) [0..<e_phnum hdr]";
        cases "find (shdr_matches e eh hdr) [0..<e_shnum hdr]";
        cases "sh_offset (shdrs hdr (the (find (shdr_matches e eh hdr) [0..<e_shnum hdr]))) =
          p_offset (phdrs hdr (the (find (phdr_matches e hdr) [0..<e_phnum hdr])))") auto
  then show ?thesis
  proof cases
    case (hit p q)
    note p = hit(1) and q = hit(2) and off = hit(3)
    have "p \<noteq> 0" using find_upt_Some(2) [OF p] phdr_matches_base [OF hdr(2) wf] by metis
    then obtain j where j: "p = 1 + j" "j < length L"
      using find_upt_Some(1) [OF p] hdr(2) by (cases p) (auto simp: hdr_rep_def)
    have "\<not> q < 4" using find_upt_Some(2) [OF q] shdr_matches_base [OF hdr(2) idx wfL len wf] by metis
    then obtain k where k: "q = 4 + k" by (metis le_Suc_ex not_less)
    have kl: "k < length L" using find_upt_Some(1) [OF q] hdr(2) k by (simp add: hdr_rep_def)
    have "data_off L k = data_off L j"
      using off j k kl hdr(2) by (simp add: hdr_rep_def region_shdr_def region_phdr_def)
    then have kj: "k = j" using data_off_inj [OF sz, of k j] j kl len by (simp add: md_consts)
    have match: "mdr_name (L ! k) = mdr_name e" "mdr_size e = mdr_size (L ! k)"
      using find_upt_Some(2) [OF q] sh [of k e] k kl by auto
    obtain eh' where "clear_headers_at (1 + k) (4 + k) e eh hdr = Some eh'"
      and "elf_rep bs (remove_nth k L) eh'"
      using clear_headers_at_rep [OF rep hdr(1) kl match(2)] by blast
    then have "msm_minidump_clear_headers e eh = Some (0, eh')"
      using p q off j k kj by (simp add: msm_minidump_clear_headers_def hdr(1))
    with kl match \<open>elf_rep bs (remove_nth k L) eh'\<close> show ?thesis by blast
  qed simp
qed

text \<open>An update behind the last region changes no header that is in use.\<close>

lemma md_update_elf_header_behind:
  assumes rep: "elf_rep bs L eh" and k: "length L \<le> k" "k + 4 < MAX_NUM_ENTRIES"
  shows "\<exists>eh'. md_update_elf_header (int k) e eh = Some eh' \<and> elf_rep bs L eh'"
proof -
  from rep obtain hdr where hdr: "ehdr eh = Some hdr" "hdr_rep bs L hdr" by (rule elf_repE)
  let ?hdr = "hdr\<lparr>shdrs := (shdrs hdr)(k + 4 := (shdrs hdr (k + 4))\<lparr>sh_addr := virt_addr e\<rparr>),
    phdrs := (phdrs hdr)(k + 1 := (phdrs hdr (k + 1))\<lparr>p_vaddr := virt_addr e, p_paddr := phys_addr e\<rparr>)\<rparr>"
  have "md_update_elf_header (int k) e eh = Some (eh\<lparr>ehdr := Some ?hdr\<rparr>)"
    using hdr k
    by (simp add: md_update_elf_header_def upd_shdr_def upd_phdr_def hdr_rep_def nat_add_distrib
        elf_section_def elf_sheader_def elf_pheader_def elf_program_def md_consts)
  moreover have "elf_rep bs L (eh\<lparr>ehdr := Some ?hdr\<rparr>)"
    using rep hdr k by (auto simp: elf_rep_def hdr_rep_def)
  ultimately show ?thesis by blast
qed

end
