(* ===== verification/Md_Table.thy ===== *)
theory Md_Table
  imports Elf_Header
begin

text \<open>
  The global state of \<^verbatim>\<open>minidump/msm_minidump.c\<close> and the table of regions in shared memory
  (SMEM): the searches \<^verbatim>\<open>md_region_num\<close> and \<^verbatim>\<open>md_entry_num\<close>, and the functions
  \<^verbatim>\<open>md_add_ss_toc\<close>, \<^verbatim>\<open>md_remove_ss_toc\<close> and \<^verbatim>\<open>md_update_ss_toc\<close> that the driver calls with
  its spin lock held.
\<close>

subsection \<open>Global state\<close>

record md_globals =
  minidump_table :: "md_table option"
  minidump_rm_table :: "md_rm_table option"
  minidump_elfheader :: md_elfhdr
  first_removed_entry :: int
  md_init_done :: bool
  num_regions :: nat
  is_rm_minidump :: bool
  pending_list :: "md_region list"

definition init_globals :: md_globals where
  "init_globals = \<lparr>minidump_table = None, minidump_rm_table = None,
     minidump_elfheader = \<lparr>ehdr = None, elf_offset = 0, strtable_idx = 0\<rparr>,
     first_removed_entry = INT_MAX, md_init_done = False, num_regions = 0,
     is_rm_minidump = False, pending_list = []\<rparr>"

subsection \<open>Searches\<close>

text \<open>
  The last slot with the name, and the largest sequence number among the slots with the name
  (at least the number passed in).
\<close>

definition md_region_num_step ::
  "md_ss_region arr \<Rightarrow> string \<Rightarrow> int \<times> u32 \<Rightarrow> nat \<Rightarrow> int \<times> u32" where
  "md_region_num_step regs name st i =
     (if ssr_name (regs i) = name
      then (int i, if snd st < seq_num (regs i) then seq_num (regs i) else snd st)
      else st)"

definition md_region_num :: "string \<Rightarrow> u32 \<Rightarrow> md_globals \<Rightarrow> (int \<times> u32) option" where
  "md_region_num name seqno s = do {
     t \<leftarrow> minidump_table s;
     toc \<leftarrow> tbl_ss_toc t;
     regs \<leftarrow> md_regions t;
     if ss_region_count toc \<le> MAX_NUM_ENTRIES
     then Some (foldl (md_region_num_step regs name) (- EINVAL, seqno)
                  [0..<ss_region_count toc])
     else None }"

definition md_entry_num :: "md_region \<Rightarrow> md_globals \<Rightarrow> int option" where
  "md_entry_num entry s = do {
     t \<leftarrow> minidump_table s;
     if num_regions s \<le> MAX_NUM_ENTRIES
     then Some (case find (\<lambda>i. mdr_name (tbl_entry t i) = mdr_name entry) [0..<num_regions s] of
                  None \<Rightarrow> - ENOENT | Some i \<Rightarrow> int i)
     else None }"

subsection \<open>Adding, removing and updating a slot\<close>

definition md_add_ss_toc :: "md_region \<Rightarrow> md_globals \<Rightarrow> md_globals option" where
  "md_add_ss_toc entry s = do {
     t \<leftarrow> minidump_table s;
     toc \<leftarrow> tbl_ss_toc t;
     let reg_cnt = ss_region_count toc;
     regs \<leftarrow> md_regions t;
     _ \<leftarrow> (if num_regions s < MAX_NUM_ENTRIES \<and> reg_cnt < MAX_NUM_ENTRIES then Some () else None);
     let mdr = (tbl_entry t (num_regions s))\<lparr>
        mdr_name := strscpy_str (mdr_name entry) (MAX_NAME_LENGTH + 1),
        virt_addr := virt_addr entry, phys_addr := phys_addr entry,
        mdr_size := mdr_size entry, mdr_id := mdr_id entry\<rparr>;
     let ss_mdr = (regs reg_cnt)\<lparr>
        ssr_name := strscpy_str (mdr_name entry) MAX_REGION_NAME_LENGTH,
        region_base_address := phys_addr entry, region_size := mdr_size entry\<rparr>;
     let t = t\<lparr>tbl_entry := (tbl_entry t)(num_regions s := mdr),
               md_regions := Some (regs(reg_cnt := ss_mdr))\<rparr>;
     (ret, seq) \<leftarrow> md_region_num (mdr_name entry) 0 (s\<lparr>minidump_table := Some t\<rparr>);
     let ss_mdr = (if 0 \<le> ret then ss_mdr\<lparr>seq_num := seq + 1\<rparr> else ss_mdr);
     let ss_mdr = ss_mdr\<lparr>md_valid := MD_REGION_VALID\<rparr>;
     let t = t\<lparr>md_regions := Some (regs(reg_cnt := ss_mdr)),
               tbl_ss_toc := Some (toc\<lparr>ss_region_count := reg_cnt + 1\<rparr>)\<rparr>;
     Some (s\<lparr>minidump_table := Some t\<rparr>) }"

definition md_remove_ss_toc :: "md_region \<Rightarrow> md_globals \<Rightarrow> (int \<times> md_globals) option" where
  "md_remove_ss_toc entry s = do {
     t \<leftarrow> minidump_table s;
     (case tbl_ss_toc t of
        None \<Rightarrow> Some (- EINVAL, s)
      | Some toc \<Rightarrow>
          if md_ss_enable_status toc \<noteq> MD_SS_ENABLED then Some (- EINVAL, s)
          else do {
            entryno \<leftarrow> md_entry_num entry s;
            if entryno < 0 then Some (entryno, s)
            else do {
              let ecount = num_regions s;
              (rgno, _) \<leftarrow> md_region_num (mdr_name entry) 0 s;
              if rgno < 0 then Some (- EINVAL, s)
              else do {
                let rcount = ss_region_count toc;
                regs \<leftarrow> md_regions t;
                let e = nat entryno;
                let r = nat rgno;
                let s = s\<lparr>first_removed_entry :=
                   (if entryno < first_removed_entry s then entryno else first_removed_entry s)\<rparr>;
                let entries = (memmove (tbl_entry t) e (e + 1) (ecount - e - 1))
                   (ecount - 1 := zero_region);
                let regions = (memmove regs r (r + 1) (rcount - r - 1))
                   (rcount - 1 := zero_ss_region);
                let toc = toc\<lparr>md_ss_toc_init := 0\<rparr>;
                let t = t\<lparr>tbl_entry := entries, md_regions := Some regions, tbl_ss_toc := Some toc\<rparr>;
                (ret, eh) \<leftarrow> msm_minidump_clear_headers entry (minidump_elfheader s);
                let s = s\<lparr>minidump_elfheader := eh\<rparr>;
                if ret \<noteq> 0 then Some (ret, s\<lparr>minidump_table := Some t\<rparr>)
                else Some (0, s\<lparr>minidump_table := Some (t\<lparr>tbl_ss_toc :=
                         Some (toc\<lparr>ss_region_count := rcount - 1, md_ss_toc_init := 1\<rparr>)\<rparr>),
                       num_regions := num_regions s - 1\<rparr>) }}}) }"

definition md_update_ss_toc :: "int \<Rightarrow> md_region \<Rightarrow> md_globals \<Rightarrow> (int \<times> md_globals) option" where
  "md_update_ss_toc regno entry s =
     (if first_removed_entry s \<le> regno then Some (- EINVAL, s)
      else do {
        ret \<leftarrow> md_entry_num entry s;
        if ret < 0 then Some (ret, s)
        else do {
          t \<leftarrow> minidump_table s;
          _ \<leftarrow> (if 0 \<le> regno \<and> regno + 1 < int MAX_NUM_ENTRIES then Some () else None);
          let i = nat regno;
          regs \<leftarrow> md_regions t;
          let mdr = (tbl_entry t i)\<lparr>virt_addr := virt_addr entry, phys_addr := phys_addr entry\<rparr>;
          let mdssr = (regs (i + 1))\<lparr>region_base_address := phys_addr entry\<rparr>;
          Some (0, s\<lparr>minidump_table := Some (t\<lparr>tbl_entry := (tbl_entry t)(i := mdr),
                     md_regions := Some (regs(i + 1 := mdssr))\<rparr>)\<rparr>) }})"

subsection \<open>What the table holds\<close>

text \<open>
  \<open>table_rep L t\<close>: the table is enabled and holds exactly the regions \<open>L\<close>.  Slot 0 of
  the region array is the ELF header's own region, slot \<open>k + 1\<close> is region \<open>k\<close>, and the slots
  behind the last region are zero.
\<close>

definition KELF_HDR :: string where "KELF_HDR = ''KELF_HDR''"

definition ss_of :: "md_region \<Rightarrow> md_ss_region" where
  "ss_of r = \<lparr>ssr_name = mdr_name r, seq_num = (if mdr_name r = KELF_HDR then 1 else 0),
     md_valid = MD_REGION_VALID, region_base_address = phys_addr r, region_size = mdr_size r\<rparr>"

definition toc_rep :: "nat \<Rightarrow> md_ss_toc \<Rightarrow> bool" where
  "toc_rep n toc \<longleftrightarrow> md_ss_enable_status toc = MD_SS_ENABLED \<and> ss_region_count toc = 1 + n"

definition regions_rep :: "md_region list \<Rightarrow> md_ss_region arr \<Rightarrow> bool" where
  "regions_rep L regs \<longleftrightarrow>
     ssr_name (regs 0) = KELF_HDR \<and> seq_num (regs 0) = 0 \<and>
     (\<forall>k < length L. regs (1 + k) = ss_of (L ! k)) \<and>
     (\<forall>j > length L. regs j = zero_ss_region)"

definition table_rep :: "md_region list \<Rightarrow> md_table \<Rightarrow> bool" where
  "table_rep L t \<longleftrightarrow>
     (\<exists>toc. tbl_ss_toc t = Some toc \<and> toc_rep (length L) toc) \<and>
     arr_list (tbl_entry t) (length L) = L \<and>
     (\<exists>regs. md_regions t = Some regs \<and> regions_rep L regs) \<and>
     distinct (map mdr_name L) \<and> (\<forall>r \<in> set L. wf_region r) \<and>
     length L \<le> CONFIG_MINIDUMP_MAX_ENTRIES"

lemma table_repE:
  assumes "table_rep L t"
  obtains toc regs where "tbl_ss_toc t = Some toc" and "md_ss_enable_status toc = MD_SS_ENABLED"
    and "ss_region_count toc = 1 + length L" and "arr_list (tbl_entry t) (length L) = L"
    and "md_regions t = Some regs" and "regions_rep L regs" and "distinct (map mdr_name L)"
    and "\<forall>r \<in> set L. wf_region r" and "length L \<le> 200"
  using assms by (auto simp: table_rep_def toc_rep_def md_consts)

lemma table_entry_nth:
  assumes "arr_list f (length L) = L" and "k < length L"
  shows "f k = L ! k"
  using assms nth_arr_seg [of k "length L" f 0] by simp

lemma distinct_names_inj:
  "distinct (map mdr_name L) \<Longrightarrow> i < length L \<Longrightarrow> j < length L \<Longrightarrow>
   mdr_name (L ! i) = mdr_name (L ! j) \<longleftrightarrow> i = j"
  using nth_eq_iff_index_eq [of "map mdr_name L" i j] by simp

subsection \<open>The searches\<close>

lemma region_fold_skip:
  "\<forall>i \<in> set xs. ssr_name (regs i) \<noteq> name \<Longrightarrow> foldl (md_region_num_step regs name) st xs = st"
  by (induction xs arbitrary: st) (auto simp: md_region_num_step_def)

lemma region_fold_last:
  assumes "i < n" and "ssr_name (regs i) = name"
    and "\<And>j. i < j \<Longrightarrow> j < n \<Longrightarrow> ssr_name (regs j) \<noteq> name"
  shows "fst (foldl (md_region_num_step regs name) st [0..<n]) = int i"
proof -
  have "[0..<n] = [0..<i] @ [i] @ [Suc i..<n]"
    using assms(1) by (metis append_Cons append_Nil le_add_same_cancel1 less_imp_add_positive
        less_imp_le_nat upt_add_eq_append upt_conv_Cons zero_le)
  then show ?thesis
    using assms by (simp add: region_fold_skip md_region_num_step_def)
qed

text \<open>The search finds a slot exactly when there is one, and its number covers every such slot.\<close>

lemma region_fold_spec:
  "(0 \<le> fst (foldl (md_region_num_step regs name) (- EINVAL, seqno) [0..<n])) =
     (\<exists>i < n. ssr_name (regs i) = name)"
  "i < n \<Longrightarrow> ssr_name (regs i) = name \<Longrightarrow>
     seq_num (regs i) \<le> snd (foldl (md_region_num_step regs name) (- EINVAL, seqno) [0..<n])"
  by (induction n) (auto simp: md_region_num_step_def errno_defs less_Suc_eq not_less)

lemma md_entry_num_found:
  assumes "minidump_table s = Some t" and "arr_list (tbl_entry t) (length L) = L"
    and "num_regions s = length L" and "length L \<le> MAX_NUM_ENTRIES"
    and "k < length L" and "mdr_name (L ! k) = mdr_name e"
    and "\<And>j. j < k \<Longrightarrow> mdr_name (L ! j) \<noteq> mdr_name e"
  shows "md_entry_num e s = Some (int k)"
proof -
  have "find (\<lambda>i. mdr_name (tbl_entry t i) = mdr_name e) [0..<length L] = Some k"
    using assms(5-7) table_entry_nth [OF assms(2)] by (intro find_upt_first) auto
  with assms show ?thesis by (simp add: md_entry_num_def)
qed

lemma md_entry_num_missing:
  assumes "minidump_table s = Some t" and "arr_list (tbl_entry t) (length L) = L"
    and "num_regions s = length L" and "length L \<le> MAX_NUM_ENTRIES"
    and "mdr_name e \<notin> set (map mdr_name L)"
  shows "md_entry_num e s = Some (- ENOENT)"
proof -
  have "find (\<lambda>i. mdr_name (tbl_entry t i) = mdr_name e) [0..<length L] = None"
    unfolding find_upt_None
    using assms(5) table_entry_nth [OF assms(2)] by (metis image_eqI nth_mem set_map)
  with assms show ?thesis by (simp add: md_entry_num_def)
qed

lemma md_region_num_found:
  assumes t: "minidump_table s = Some t" "tbl_ss_toc t = Some toc" "md_regions t = Some regs"
    and c: "ss_region_count toc = 1 + length L" "length L \<le> 200"
    and r: "regions_rep L regs" and d: "distinct (map mdr_name L)"
    and k: "k < length L" "mdr_name (L ! k) = name"
  shows "\<exists>seq. md_region_num name 0 s = Some (int (1 + k), seq)"
proof -
  have "fst (foldl (md_region_num_step regs name) (- EINVAL, 0) [0..<1 + length L]) = int (1 + k)"
  proof (rule region_fold_last)
    show "ssr_name (regs j) \<noteq> name" if "1 + k < j" "j < 1 + length L" for j
    proof -
      from that obtain i where i: "j = 1 + i" "k < i" "i < length L" by (cases j) auto
      with r k distinct_names_inj [OF d, of i k] show ?thesis
        by (auto simp: regions_rep_def ss_of_def)
    qed
  qed (use r k in \<open>auto simp: regions_rep_def ss_of_def\<close>)
  then show ?thesis
    using t c by (simp add: md_region_num_def md_consts prod_eq_iff)
qed

lemma md_region_num_missing:
  assumes t: "minidump_table s = Some t" "tbl_ss_toc t = Some toc" "md_regions t = Some regs"
    and c: "ss_region_count toc = 1 + length L" "length L \<le> 200"
    and r: "\<And>k. k < length L \<Longrightarrow> ssr_name (regs (1 + k)) = mdr_name (L ! k)"
      "ssr_name (regs 0) = KELF_HDR" "seq_num (regs 0) = 0"
    and fresh: "name \<notin> set (map mdr_name L)"
  shows "md_region_num name 0 s = Some (if name = KELF_HDR then 0 else - EINVAL, 0)"
proof -
  have "[0..<1 + length L] = 0 # [1..<1 + length L]"
    by (subst upt_conv_Cons) (simp_all del: upt_Suc)
  moreover have "\<forall>i \<in> set [1..<1 + length L]. ssr_name (regs i) \<noteq> name"
  proof
    fix i assume "i \<in> set [1..<1 + length L]"
    then have "1 \<le> i \<and> i < 1 + length L" by (simp del: upt_Suc)
    then obtain k where "i = 1 + k" "k < length L" by (cases i) auto
    with r(1) [of k] fresh show "ssr_name (regs i) \<noteq> name" by auto
  qed
  ultimately have "foldl (md_region_num_step regs name) (- EINVAL, 0) [0..<1 + length L] =
      md_region_num_step regs name (- EINVAL, 0) 0"
    by (simp add: region_fold_skip)
  then show ?thesis
    using t c r(2,3) by (auto simp: md_region_num_def md_region_num_step_def md_consts)
qed

subsection \<open>The operations on the table's contents\<close>

text \<open>\<open>smem_rep L s\<close>: the driver's SMEM table holds \<open>L\<close> and the counter agrees.\<close>

definition smem_rep :: "md_region list \<Rightarrow> md_globals \<Rightarrow> bool" where
  "smem_rep L s \<longleftrightarrow> num_regions s = length L \<and> (\<exists>t. minidump_table s = Some t \<and> table_rep L t)"

lemma region_full_upd [simp]:
  "r\<lparr>mdr_name := n, virt_addr := v, phys_addr := p, mdr_size := z, mdr_id := i\<rparr> =
   \<lparr>mdr_name = n, mdr_id = i, virt_addr = v, phys_addr = p, mdr_size = z\<rparr>"
  by (rule md_region.equality) simp_all

lemma region_eta [simp]:
  "\<lparr>mdr_name = mdr_name r, mdr_id = mdr_id r, virt_addr = virt_addr r, phys_addr = phys_addr r,
     mdr_size = mdr_size r\<rparr> = r"
  by (rule md_region.equality) simp_all

lemma md_add_ss_toc_eq:
  assumes t: "minidump_table s = Some t" "tbl_ss_toc t = Some toc" "md_regions t = Some regs"
    and cnt: "ss_region_count toc = 1 + length L" and reg: "regions_rep L regs"
    and room: "length L < CONFIG_MINIDUMP_MAX_ENTRIES" "num_regions s < MAX_NUM_ENTRIES"
    and wf: "wf_region r" and fresh: "mdr_name r \<notin> set (map mdr_name L)"
  shows "md_add_ss_toc r s = Some (s\<lparr>minidump_table := Some (t\<lparr>
     tbl_entry := (tbl_entry t)(num_regions s := r), md_regions := Some (regs(1 + length L := ss_of r)),
     tbl_ss_toc := Some (toc\<lparr>ss_region_count := 2 + length L\<rparr>)\<rparr>)\<rparr>)"
proof -
  note nm = wf_regionD(2) [OF wf]
  let ?ss = "zero_ss_region\<lparr>ssr_name := mdr_name r, region_base_address := phys_addr r,
     region_size := mdr_size r\<rparr>"
  let ?t1 = "t\<lparr>tbl_entry := (tbl_entry t)(num_regions s := r),
     md_regions := Some (regs(1 + length L := ?ss))\<rparr>"
  have reg0: "regs (1 + length L) = zero_ss_region" using reg by (simp add: regions_rep_def)
  have "md_region_num (mdr_name r) 0 (s\<lparr>minidump_table := Some ?t1\<rparr>) =
      Some (if mdr_name r = KELF_HDR then 0 else - EINVAL, 0)"
    by (rule md_region_num_missing
          [where t = ?t1 and toc = toc and L = L and regs = "regs(1 + length L := ?ss)"])
      (use t cnt room reg fresh in \<open>auto simp: regions_rep_def ss_of_def md_consts\<close>)
  then show ?thesis
    using t cnt room nm reg0
    by (simp add: md_add_ss_toc_def Let_def md_consts zero_ss_region_def ss_of_def)
qed

lemma regions_rep_snoc:
  "regions_rep L regs \<Longrightarrow> regions_rep (L @ [r]) (regs(1 + length L := ss_of r))"
  by (auto simp: regions_rep_def nth_append less_Suc_eq)

lemma md_add_ss_toc_rep:
  assumes rep: "smem_rep L s" and room: "length L < CONFIG_MINIDUMP_MAX_ENTRIES"
    and wf: "wf_region r" and fresh: "mdr_name r \<notin> set (map mdr_name L)"
  shows "\<exists>t'. md_add_ss_toc r s = Some (s\<lparr>minidump_table := Some t'\<rparr>) \<and> table_rep (L @ [r]) t'"
proof -
  from rep obtain t where t: "minidump_table s = Some t" and trep: "table_rep L t"
    and n: "num_regions s = length L" by (auto simp: smem_rep_def)
  from trep obtain toc regs where toc: "tbl_ss_toc t = Some toc"
    and en: "md_ss_enable_status toc = MD_SS_ENABLED" and cnt: "ss_region_count toc = 1 + length L"
    and ent: "arr_list (tbl_entry t) (length L) = L" and rt: "md_regions t = Some regs"
    and reg: "regions_rep L regs" and d: "distinct (map mdr_name L)"
    and wfL: "\<forall>r \<in> set L. wf_region r" by (rule table_repE)
  show ?thesis
    using md_add_ss_toc_eq [OF t toc rt cnt reg room _ wf fresh] regions_rep_snoc [OF reg, of r]
      n room en ent d wfL wf fresh
    by (auto simp: table_rep_def toc_rep_def arr_list_snoc_upd md_consts)
qed

lemma regions_rep_remove:
  assumes "regions_rep L regs" and "k < length L"
  shows "regions_rep (remove_nth k L)
    ((memmove regs (1 + k) (2 + k) (length L - (1 + k)))(length L := zero_ss_region))"
  unfolding regions_rep_def
proof (intro conjI allI impI)
  let ?f = "(memmove regs (1 + k) (2 + k) (length L - (1 + k)))(length L := zero_ss_region)"
  show "ssr_name (?f 0) = KELF_HDR" and "seq_num (?f 0) = 0"
    using assms by (auto simp: regions_rep_def)
  show "?f (1 + i) = ss_of (remove_nth k L ! i)" if "i < length (remove_nth k L)" for i
    using assms that by (auto simp: regions_rep_def nth_remove_nth memmove_def)
  show "?f j = zero_ss_region" if "length (remove_nth k L) < j" for j
    using assms that by (auto simp: regions_rep_def memmove_def)
qed

lemma entries_remove:
  assumes "arr_list f (length L) = L" and "k < length L"
  shows "arr_list ((memmove f k (k + 1) (length L - k - 1))(length L - 1 := zero_region)) (length L - 1)
    = remove_nth k L"
  using arr_list_memmove_gap [OF assms(2), of f] assms(1) by (simp add: remove_nth_def)

text \<open>
  A successful removal: the region leaves the entry list and the region array, and the ELF
  header is what \<^const>\<open>msm_minidump_clear_headers\<close> made of it.
\<close>

lemma md_remove_ss_toc_rep:
  assumes rep: "smem_rep L s" and k: "k < length L" and e: "mdr_name e = mdr_name (L ! k)"
    and clr: "msm_minidump_clear_headers e (minidump_elfheader s) = Some (0, eh)"
  shows "\<exists>t'. md_remove_ss_toc e s = Some (0, s\<lparr>minidump_table := Some t', minidump_elfheader := eh,
            num_regions := length L - 1,
            first_removed_entry := min (int k) (first_removed_entry s)\<rparr>) \<and>
          table_rep (remove_nth k L) t'"
proof -
  from rep obtain t where t: "minidump_table s = Some t" and trep: "table_rep L t"
    and n: "num_regions s = length L" by (auto simp: smem_rep_def)
  from trep obtain toc regs where toc: "tbl_ss_toc t = Some toc"
    and en: "md_ss_enable_status toc = MD_SS_ENABLED" and cnt: "ss_region_count toc = 1 + length L"
    and ent: "arr_list (tbl_entry t) (length L) = L" and rt: "md_regions t = Some regs" and reg: "regions_rep L regs"
    and d: "distinct (map mdr_name L)" and wfL: "\<forall>r \<in> set L. wf_region r" and len: "length L \<le> 200"
    by (rule table_repE)
  have "md_entry_num e s = Some (int k)"
    by (rule md_entry_num_found [OF t ent n]) (use len k e distinct_names_inj [OF d] in \<open>auto simp: md_consts\<close>)
  moreover obtain seq where "md_region_num (mdr_name e) 0 s = Some (int (1 + k), seq)"
    using md_region_num_found [OF t toc rt cnt len reg d k e [symmetric]] by blast
  ultimately have "md_remove_ss_toc e s = Some (0, s\<lparr>minidump_table := Some (t\<lparr>
       tbl_entry := (memmove (tbl_entry t) k (k + 1) (length L - k - 1))(length L - 1 := zero_region),
       md_regions := Some ((memmove regs (1 + k) (2 + k) (length L - (1 + k)))(length L := zero_ss_region)),
       tbl_ss_toc := Some (toc\<lparr>ss_region_count := length L, md_ss_toc_init := 1\<rparr>)\<rparr>),
       minidump_elfheader := eh, num_regions := length L - 1,
       first_removed_entry := min (int k) (first_removed_entry s)\<rparr>)"
    using t toc rt en cnt n clr by (simp add: md_remove_ss_toc_def Let_def min_def nat_add_distrib)
  moreover have "table_rep (remove_nth k L) (t\<lparr>
       tbl_entry := (memmove (tbl_entry t) k (k + 1) (length L - k - 1))(length L - 1 := zero_region),
       md_regions := Some ((memmove regs (1 + k) (2 + k) (length L - (1 + k)))(length L := zero_ss_region)),
       tbl_ss_toc := Some (toc\<lparr>ss_region_count := length L, md_ss_toc_init := 1\<rparr>)\<rparr>)"
    using regions_rep_remove [OF reg k] entries_remove [OF ent k] en len wfL k d
      set_remove_nth_subset [of k L] distinct_remove_nth [of "map mdr_name L" k]
    by (auto simp: table_rep_def toc_rep_def md_consts map_remove_nth)
  ultimately show ?thesis by blast
qed

lemma md_update_ss_toc_rep:
  assumes rep: "smem_rep L s" and k: "k < length L" and e: "mdr_name e \<in> set (map mdr_name L)"
    and va: "virt_addr e \<noteq> 0" and moved: "int k < first_removed_entry s"
  shows "\<exists>t'. md_update_ss_toc (int k) e s = Some (0, s\<lparr>minidump_table := Some t'\<rparr>) \<and>
              table_rep (L[k := move_region (L ! k) e]) t'"
proof -
  from rep obtain t where t: "minidump_table s = Some t" and trep: "table_rep L t"
    and n: "num_regions s = length L" by (auto simp: smem_rep_def)
  from trep obtain toc regs where toc: "tbl_ss_toc t = Some toc"
    and en: "md_ss_enable_status toc = MD_SS_ENABLED" and cnt: "ss_region_count toc = 1 + length L"
    and ent: "arr_list (tbl_entry t) (length L) = L" and rt: "md_regions t = Some regs" and reg: "regions_rep L regs"
    and d: "distinct (map mdr_name L)" and wfL: "\<forall>r \<in> set L. wf_region r" and len: "length L \<le> 200"
    by (rule table_repE)
  let ?r = "move_region (L ! k) e"
  let ?t = "t\<lparr>tbl_entry := (tbl_entry t)(k := ?r), md_regions := Some (regs(k + 1 := ss_of ?r))\<rparr>"
  from e obtain j where j: "j < length L" "mdr_name (L ! j) = mdr_name e"
    by (auto simp: in_set_conv_nth)
  have "md_entry_num e s = Some (int j)"
    by (rule md_entry_num_found [OF t ent n _ j(1)])
      (use len j distinct_names_inj [OF d, of _ j] in \<open>auto simp: md_consts\<close>)
  then have "md_update_ss_toc (int k) e s = Some (0, s\<lparr>minidump_table := Some ?t\<rparr>)"
    using t rt moved k len reg table_entry_nth [OF ent k]
    by (simp add: md_update_ss_toc_def Let_def md_consts regions_rep_def ss_of_def move_region_def)
  moreover have "table_rep (L[k := ?r]) ?t"
  proof -
    have "wf_region ?r" using wfL k va by (auto simp: wf_region_def)
    moreover have "map mdr_name (L[k := ?r]) = map mdr_name L"
      using k by (simp add: map_update) (metis list_update_id nth_map)
    ultimately show ?thesis
      using toc en cnt ent reg d wfL len k arr_list_upd [OF k, of "tbl_entry t" ?r]
        set_update_subset_insert [of L k ?r]
      by (auto simp: table_rep_def toc_rep_def regions_rep_def md_consts nth_list_update)
  qed
  ultimately show ?thesis by blast
qed

end
