(* ===== verification/Md_Rm.thy ===== *)
theory Md_Rm
  imports Md_Table
begin

text \<open>
  The table of the regions that are registered with the resource manager (RM): the entries, the
  requests that the driver queues with its spin lock held, and the work functions that talk to
  the resource manager.

  A work function releases the lock around each call of the resource manager.  It is modelled as
  the atomic sections between the calls; a section that ends in a call returns the
  continuation (\<open>rm_pc\<close>), and the next section receives the call's result.
  \<^verbatim>\<open>md_rm_add_work\<close>, \<^verbatim>\<open>md_rm_remove_work\<close> and \<^verbatim>\<open>md_rm_update_work\<close> run the sections of
  one work back to back, with the resource manager's functions as arguments.
\<close>

subsection \<open>Stubs of the resource manager\<close>

text \<open>Without \<^verbatim>\<open>CONFIG_GH_RM_DRV\<close> every call of the resource manager fails.\<close>

definition gh_rm_minidump_get_info_stub :: int where
  "gh_rm_minidump_get_info_stub = - EINVAL"

definition gh_rm_minidump_register_range_stub :: "u64 \<Rightarrow> u64 \<Rightarrow> string \<Rightarrow> nat \<Rightarrow> int" where
  "gh_rm_minidump_register_range_stub base_ipa rsize name name_size = - EINVAL"

definition gh_rm_minidump_deregister_slot_stub :: "nat \<Rightarrow> int" where
  "gh_rm_minidump_deregister_slot_stub slot = - EINVAL"

subsection \<open>Requests\<close>

definition md_rm_entry_num :: "md_region \<Rightarrow> md_globals \<Rightarrow> int option" where
  "md_rm_entry_num entry s = do {
     t \<leftarrow> minidump_rm_table s;
     if num_regions s \<le> MAX_NUM_ENTRIES
     then Some (case find (\<lambda>i. rmr_name (rm_entry t i) = mdr_name entry) [0..<num_regions s] of
                  None \<Rightarrow> - ENOENT | Some i \<Rightarrow> int i)
     else None }"

definition queue_rm_work :: "md_rm_request \<Rightarrow> md_rm_table \<Rightarrow> md_rm_table" where
  "queue_rm_work rq t = t\<lparr>minidump_rm_wq := minidump_rm_wq t @ [rq]\<rparr>"

definition md_rm_add_region :: "bool \<Rightarrow> md_region \<Rightarrow> md_globals \<Rightarrow> (int \<times> md_globals) option" where
  "md_rm_add_region alloc entry s =
     (if \<not> alloc then Some (- ENOMEM, s)
      else do {
        t \<leftarrow> minidump_rm_table s;
        _ \<leftarrow> (if num_regions s < MAX_NUM_ENTRIES then Some () else None);
        let rm_region = \<lparr>rmr_name = strscpy_str (mdr_name entry) (MAX_NAME_LENGTH + 1), slot_num = 0\<rparr>;
        let t = t\<lparr>rm_entry := (rm_entry t)(num_regions s := rm_region)\<rparr>;
        Some (0, s\<lparr>minidump_rm_table :=
           Some (queue_rm_work \<lparr>rq_entry = entry, work_cmd = MINIDUMP_ADD\<rparr> t)\<rparr>) })"

text \<open>
  The request for a region that the table has: the search for its name, and then the
  allocated request is filled in and queued (\<open>queue_request\<close>).  A removal does both under the spin
  lock; an update holds only the read lock, so that the table can change in between.
\<close>

definition queue_request :: "minidump_entry_cmd \<Rightarrow> md_region \<Rightarrow> md_globals \<Rightarrow> md_globals option" where
  "queue_request cmd entry s = do {
     t \<leftarrow> minidump_rm_table s;
     Some (s\<lparr>minidump_rm_table := Some (queue_rm_work \<lparr>rq_entry = entry, work_cmd = cmd\<rparr> t)\<rparr>) }"

definition md_rm_request_existing ::
  "minidump_entry_cmd \<Rightarrow> bool \<Rightarrow> md_region \<Rightarrow> md_globals \<Rightarrow> (int \<times> md_globals) option" where
  "md_rm_request_existing cmd alloc entry s = do {
     entryno \<leftarrow> md_rm_entry_num entry s;
     if entryno < 0 then Some (entryno, s)
     else if \<not> alloc then Some (- ENOMEM, s)
     else do {
       s \<leftarrow> queue_request cmd entry s;
       Some (0, s) }}"

definition md_rm_remove_region :: "bool \<Rightarrow> md_region \<Rightarrow> md_globals \<Rightarrow> (int \<times> md_globals) option" where
  "md_rm_remove_region = md_rm_request_existing MINIDUMP_REMOVE"

definition md_rm_update :: "bool \<Rightarrow> int \<Rightarrow> md_region \<Rightarrow> md_globals \<Rightarrow> (int \<times> md_globals) option" where
  "md_rm_update alloc regno = md_rm_request_existing MINIDUMP_UPDATE alloc"

subsection \<open>The atomic sections of the work functions\<close>

datatype rm_pc =
    Rm_Add_Register md_region nat
  | Rm_Remove_Deregister md_region nat int
  | Rm_Update_Deregister md_region nat int
  | Rm_Update_Register md_region nat

definition put_rm_entry :: "nat \<Rightarrow> md_rm_region \<Rightarrow> md_globals \<Rightarrow> md_globals option" where
  "put_rm_entry i v s = do {
     t \<leftarrow> minidump_rm_table s;
     if i < MAX_NUM_ENTRIES
     then Some (s\<lparr>minidump_rm_table := Some (t\<lparr>rm_entry := (rm_entry t)(i := v)\<rparr>)\<rparr>)
     else None }"

text \<open>Entry \<open>i\<close> is squeezed out of the first \<open>num_regions\<close> entries.\<close>

definition drop_rm_entry :: "nat \<Rightarrow> md_globals \<Rightarrow> md_globals option" where
  "drop_rm_entry i s = do {
     t \<leftarrow> minidump_rm_table s;
     let n = num_regions s;
     if i < n \<and> n \<le> MAX_NUM_ENTRIES
     then Some (s\<lparr>minidump_rm_table := Some (t\<lparr>rm_entry :=
             (memmove (rm_entry t) i (i + 1) (n - i - 1))(n - 1 := zero_rm_region)\<rparr>),
           num_regions := n - 1\<rparr>)
     else None }"

definition md_rm_add_work_start :: "md_region \<Rightarrow> md_globals \<Rightarrow> (rm_pc option \<times> md_globals) option" where
  "md_rm_add_work_start entry s = do {
     entry_num \<leftarrow> md_rm_entry_num entry s;
     if entry_num < 0 then Some (None, s)
     else Some (Some (Rm_Add_Register entry (nat entry_num)), s) }"

text \<open>
  After \<^verbatim>\<open>gh_rm_minidump_register_range\<close> has returned \<open>slot\<close>.  The branch for a changed
  table entry deregisters the slot again; its result is not looked at.
\<close>

definition md_rm_add_work_registered ::
  "md_region \<Rightarrow> nat \<Rightarrow> int \<Rightarrow> md_globals \<Rightarrow> md_globals option" where
  "md_rm_add_work_registered entry entry_num slot s =
     (if slot < 0 then drop_rm_entry entry_num s
      else do {
        t \<leftarrow> minidump_rm_table s;
        s \<leftarrow> (if mdr_name entry \<noteq> rmr_name (rm_entry t entry_num) then Some s
               else put_rm_entry entry_num ((rm_entry t entry_num)\<lparr>slot_num := slot\<rparr>) s);
        eh \<leftarrow> md_add_elf_header entry (minidump_elfheader s);
        Some (s\<lparr>minidump_elfheader := eh\<rparr>) })"

definition md_rm_remove_work_start :: "md_region \<Rightarrow> md_globals \<Rightarrow> (rm_pc option \<times> md_globals) option" where
  "md_rm_remove_work_start entry s = do {
     ret \<leftarrow> md_rm_entry_num entry s;
     if ret < 0 then Some (None, s)
     else do {
       t \<leftarrow> minidump_rm_table s;
       let entryno = nat ret;
       let slot = slot_num (rm_entry t entryno);
       if slot = 0 then Some (None, s)
       else do {
         s \<leftarrow> put_rm_entry entryno ((rm_entry t entryno)\<lparr>slot_num := 0\<rparr>) s;
         Some (Some (Rm_Remove_Deregister entry entryno slot), s) }}}"

text \<open>After \<^verbatim>\<open>gh_rm_minidump_deregister_slot\<close> has returned \<open>ret\<close>.\<close>

definition md_rm_remove_work_deregistered ::
  "md_region \<Rightarrow> nat \<Rightarrow> int \<Rightarrow> md_globals \<Rightarrow> md_globals option" where
  "md_rm_remove_work_deregistered entry entryno ret s =
     (if ret < 0 then Some s
      else do {
        t \<leftarrow> minidump_rm_table s;
        if mdr_name entry \<noteq> rmr_name (rm_entry t entryno) then Some s
        else do {
          (ret, eh) \<leftarrow> msm_minidump_clear_headers entry (minidump_elfheader s);
          let s = s\<lparr>minidump_elfheader := eh\<rparr>;
          if ret \<noteq> 0 then Some s else drop_rm_entry entryno s }})"

definition md_rm_update_work_start :: "md_region \<Rightarrow> md_globals \<Rightarrow> (rm_pc option \<times> md_globals) option" where
  "md_rm_update_work_start entry s = do {
     entryno \<leftarrow> md_rm_entry_num entry s;
     if entryno < 0 then Some (None, s)
     else do {
       t \<leftarrow> minidump_rm_table s;
       let i = nat entryno;
       s \<leftarrow> put_rm_entry i ((rm_entry t i)\<lparr>slot_num := 0\<rparr>) s;
       Some (Some (Rm_Update_Deregister entry i (slot_num (rm_entry t i))), s) }}"

definition md_rm_update_work_deregistered :: "md_region \<Rightarrow> nat \<Rightarrow> int \<Rightarrow> rm_pc option" where
  "md_rm_update_work_deregistered entry entryno ret =
     (if ret < 0 then None else Some (Rm_Update_Register entry entryno))"

definition md_rm_update_work_registered ::
  "md_region \<Rightarrow> nat \<Rightarrow> int \<Rightarrow> md_globals \<Rightarrow> md_globals option" where
  "md_rm_update_work_registered entry entryno slot s =
     (if slot < 0 then Some s
      else do {
        t \<leftarrow> minidump_rm_table s;
        if mdr_name entry \<noteq> rmr_name (rm_entry t entryno) then Some s
        else do {
          s \<leftarrow> put_rm_entry entryno ((rm_entry t entryno)\<lparr>slot_num := slot\<rparr>) s;
          eh \<leftarrow> md_update_elf_header (int entryno) entry (minidump_elfheader s);
          Some (s\<lparr>minidump_elfheader := eh\<rparr>) }})"

subsection \<open>The work functions\<close>

text \<open>
  \<open>register\<close> and \<open>deregister\<close> are the resource manager's functions.  A slot number is passed to
  \<open>deregister\<close> as a 16-bit value.
\<close>

definition md_rm_add_work ::
  "(u64 \<Rightarrow> u64 \<Rightarrow> string \<Rightarrow> nat \<Rightarrow> int) \<Rightarrow> md_region \<Rightarrow> md_globals \<Rightarrow> md_globals option" where
  "md_rm_add_work register entry s = do {
     (pc, s) \<leftarrow> md_rm_add_work_start entry s;
     (case pc of
        Some (Rm_Add_Register e n) \<Rightarrow>
          md_rm_add_work_registered e n
            (register (phys_addr e) (mdr_size e) (mdr_name e) (length (mdr_name e))) s
      | _ \<Rightarrow> Some s) }"

definition md_rm_remove_work :: "(nat \<Rightarrow> int) \<Rightarrow> md_region \<Rightarrow> md_globals \<Rightarrow> md_globals option" where
  "md_rm_remove_work deregister entry s = do {
     (pc, s) \<leftarrow> md_rm_remove_work_start entry s;
     (case pc of
        Some (Rm_Remove_Deregister e n slot) \<Rightarrow>
          md_rm_remove_work_deregistered e n (deregister (nat (slot mod 2 ^ 16))) s
      | _ \<Rightarrow> Some s) }"

definition md_rm_update_work ::
  "(u64 \<Rightarrow> u64 \<Rightarrow> string \<Rightarrow> nat \<Rightarrow> int) \<Rightarrow> (nat \<Rightarrow> int) \<Rightarrow> md_region \<Rightarrow> md_globals \<Rightarrow> md_globals option" where
  "md_rm_update_work register deregister entry s = do {
     (pc, s) \<leftarrow> md_rm_update_work_start entry s;
     (case pc of
        Some (Rm_Update_Deregister e n slot) \<Rightarrow>
          (case md_rm_update_work_deregistered e n (deregister (nat (slot mod 2 ^ 16))) of
             Some (Rm_Update_Register e n) \<Rightarrow>
               md_rm_update_work_registered e n
                 (register (phys_addr e) (mdr_size e) (mdr_name e) (length (mdr_name e))) s
           | _ \<Rightarrow> Some s)
      | _ \<Rightarrow> Some s) }"

definition minidump_rm_work ::
  "(u64 \<Rightarrow> u64 \<Rightarrow> string \<Rightarrow> nat \<Rightarrow> int) \<Rightarrow> (nat \<Rightarrow> int) \<Rightarrow> md_rm_request \<Rightarrow> md_globals \<Rightarrow> md_globals option" where
  "minidump_rm_work register deregister rq s =
     (case work_cmd rq of
        MINIDUMP_ADD \<Rightarrow> md_rm_add_work register (rq_entry rq) s
      | MINIDUMP_REMOVE \<Rightarrow> md_rm_remove_work deregister (rq_entry rq) s
      | MINIDUMP_UPDATE \<Rightarrow> md_rm_update_work register deregister (rq_entry rq) s
      | MINIDUMP_NO_CMD \<Rightarrow> Some s)"

end
