(* ===== verification/Md_Api.thy ===== *)
theory Md_Api
  imports Md_Rm
begin

unbundle bit_operations_syntax

text \<open>
  The interface of the minidump driver that other modules call: \<^verbatim>\<open>msm_minidump_add_region\<close>,
  \<^verbatim>\<open>msm_minidump_remove_region\<close>, \<^verbatim>\<open>msm_minidump_update_region\<close>, \<^verbatim>\<open>md_get_region\<close> and the two
  queries.  A registration or removal is one atomic step: it holds the driver's spin lock for
  its whole effect.  An update holds the read lock only, which excludes removals from the SMEM table; what
  happens between its search and its request when there is a resource manager is the subject
  of \<open>Rm_Machine\<close>.
\<close>

subsection \<open>Definitions\<close>

definition validate_region :: "md_region option \<Rightarrow> int" where
  "validate_region entry =
     (case entry of
        None \<Rightarrow> - EINVAL
      | Some e \<Rightarrow>
          if MAX_NAME_LENGTH < length (mdr_name e) \<or> virt_addr e = 0 \<or> mdr_size e AND 3 \<noteq> 0
          then - EINVAL else 0)"

definition toc_enabled :: "md_globals \<Rightarrow> md_ss_toc option" where
  "toc_enabled s = do {
     t \<leftarrow> minidump_table s;
     toc \<leftarrow> tbl_ss_toc t;
     if md_ss_enable_status toc = MD_SS_ENABLED then Some toc else None }"

text \<open>The common end of a successful registration: the region number, and one more region.\<close>

definition region_added :: "md_globals \<Rightarrow> int \<times> md_globals" where
  "region_added s = (int (num_regions s), s\<lparr>num_regions := num_regions s + 1\<rparr>)"

definition msm_minidump_add_region ::
  "bool \<Rightarrow> md_region option \<Rightarrow> md_globals \<Rightarrow> (int \<times> md_globals) option" where
  "msm_minidump_add_region alloc entry s =
     (if validate_region entry \<noteq> 0 then Some (- EINVAL, s)
      else case entry of None \<Rightarrow> Some (- EINVAL, s) | Some e \<Rightarrow>
      if MAX_NUM_ENTRIES \<le> num_regions s then Some (- ENOMEM, s)
      else case (if is_rm_minidump s then None else toc_enabled s) of
        Some toc \<Rightarrow>
          if MAX_NUM_ENTRIES \<le> ss_region_count toc then Some (- ENOMEM, s)
          else do {
            n \<leftarrow> md_entry_num e s;
            if 0 \<le> n then Some (- EEXIST, s)
            else do {
              s \<leftarrow> md_add_ss_toc e s;
              eh \<leftarrow> md_add_elf_header e (minidump_elfheader s);
              Some (region_added (s\<lparr>minidump_elfheader := eh\<rparr>)) }}
      | None \<Rightarrow>
          if is_rm_minidump s \<and> md_init_done s
          then do {
            n \<leftarrow> md_rm_entry_num e s;
            if 0 \<le> n then Some (- EEXIST, s)
            else do {
              (ret, s) \<leftarrow> md_rm_add_region alloc e s;
              if ret \<noteq> 0 then Some (ret, s) else Some (region_added s) }}
          else if \<not> alloc then Some (- ENOMEM, s)
          else Some (region_added (s\<lparr>pending_list := pending_list s @ [e]\<rparr>)))"

definition msm_minidump_remove_region ::
  "bool \<Rightarrow> md_region option \<Rightarrow> md_globals \<Rightarrow> (int \<times> md_globals) option" where
  "msm_minidump_remove_region alloc entry s =
     (case entry of
        None \<Rightarrow> Some (- EINVAL, s)
      | Some e \<Rightarrow>
          if \<not> md_init_done s then Some (- EINVAL, s)
          else if is_rm_minidump s then md_rm_remove_region alloc e s
          else do {
            t \<leftarrow> minidump_table s;
            if (case tbl_ss_toc t of None \<Rightarrow> True
                | Some toc \<Rightarrow> md_ss_enable_status toc \<noteq> MD_SS_ENABLED)
            then Some (- EINVAL, s)
            else md_remove_ss_toc e s })"

definition msm_minidump_update_region ::
  "bool \<Rightarrow> int \<Rightarrow> md_region option \<Rightarrow> md_globals \<Rightarrow> (int \<times> md_globals) option" where
  "msm_minidump_update_region alloc regno entry s =
     (if \<not> md_init_done s then Some (- EINVAL, s)
      else if validate_region entry \<noteq> 0 \<or> int MAX_NUM_ENTRIES \<le> regno then Some (- EINVAL, s)
      else case entry of None \<Rightarrow> Some (- EINVAL, s) | Some e \<Rightarrow>
      if is_rm_minidump s then md_rm_update alloc regno e s
      else do {
        (ret, s) \<leftarrow> md_update_ss_toc regno e s;
        eh \<leftarrow> md_update_elf_header regno e (minidump_elfheader s);
        Some (ret, s\<lparr>minidump_elfheader := eh\<rparr>) })"

definition msm_minidump_enabled :: "md_globals \<Rightarrow> bool" where
  "msm_minidump_enabled s =
     (if is_rm_minidump s then md_init_done s else toc_enabled s \<noteq> None)"

text \<open>\<open>info\<close> is the result of the resource manager's \<^verbatim>\<open>gh_rm_minidump_get_info\<close>.\<close>

definition msm_minidump_get_available_region :: "int \<Rightarrow> md_globals \<Rightarrow> int" where
  "msm_minidump_get_available_region info s =
     (if is_rm_minidump s then info else int MAX_NUM_ENTRIES - int (num_regions s))"

definition md_get_region :: "string \<Rightarrow> md_globals \<Rightarrow> md_region option" where
  "md_get_region name s =
     (if MAX_NUM_ENTRIES < num_regions s then None
      else if is_rm_minidump s
      then (case minidump_rm_table s of
              None \<Rightarrow> Some zero_region
            | Some t \<Rightarrow>
                (case find (\<lambda>i. rmr_name (rm_entry t i) = name) [0..<num_regions s] of
                   None \<Rightarrow> Some zero_region
                 | Some i \<Rightarrow> do {
                     hdr \<leftarrow> ehdr (minidump_elfheader s);
                     let ph = phdrs hdr (i + 1);
                     Some (zero_region\<lparr>
                       mdr_name := strscpy_str (rmr_name (rm_entry t i)) (MAX_NAME_LENGTH + 1),
                       phys_addr := p_vaddr ph, virt_addr := p_paddr ph,
                       mdr_size := p_filesz ph\<rparr>) }))
      else (case minidump_table s of
              None \<Rightarrow> Some zero_region
            | Some t \<Rightarrow>
                (case find (\<lambda>i. mdr_name (tbl_entry t i) = name) [0..<num_regions s] of
                   None \<Rightarrow> Some zero_region
                 | Some i \<Rightarrow> Some (tbl_entry t i))))"

subsection \<open>Validation\<close>

lemma size_aligned: "(z :: u64) AND 3 = 0 \<longleftrightarrow> 4 dvd unat z"
proof -
  have "z AND 3 = take_bit 2 z"
    by (simp add: take_bit_eq_mask mask_eq_exp_minus_1)
  moreover have "unat (take_bit 2 z) = unat z mod 4"
    by (simp add: take_bit_eq_mod unat_mod)
  ultimately show ?thesis by (metis dvd_eq_mod_eq_0 unat_eq_zero)
qed

lemma validate_region_ok:
  "cstring (mdr_name e) \<Longrightarrow> validate_region (Some e) = 0 \<longleftrightarrow> wf_region e"
  by (auto simp: validate_region_def wf_region_def size_aligned errno_defs)

lemma validate_region_cases: "validate_region e = 0 \<or> validate_region e = - EINVAL"
  by (auto simp: validate_region_def split: option.splits)

subsection \<open>The driver on a represented state\<close>

text \<open>
  \<open>drv_rep bs p L s\<close>: the driver runs on the SMEM table, has registered the regions \<open>L\<close> and
  its ELF header describes all of them but the first \<open>p\<close> (regions that were pending when the
  driver was probed).
\<close>

definition drv_rep :: "elf_base \<Rightarrow> nat \<Rightarrow> md_region list \<Rightarrow> md_globals \<Rightarrow> bool" where
  "drv_rep bs p L s \<longleftrightarrow> smem_rep L s \<and> p \<le> length L \<and>
     elf_rep bs (drop p L) (minidump_elfheader s) \<and> \<not> is_rm_minidump s \<and> md_init_done s"

lemma toc_enabled_rep:
  assumes "smem_rep L s"
  shows "\<exists>toc. toc_enabled s = Some toc \<and> ss_region_count toc = 1 + length L"
  using assms by (auto simp: smem_rep_def table_rep_def toc_rep_def toc_enabled_def)

lemma smem_repE:
  assumes "smem_rep L s"
  obtains t where "minidump_table s = Some t" and "table_rep L t" and "num_regions s = length L"
    and "arr_list (tbl_entry t) (length L) = L" and "distinct (map mdr_name L)"
    and "length L \<le> MAX_NUM_ENTRIES" and "\<forall>r \<in> set L. wf_region r"
  using assms by (auto simp: smem_rep_def table_rep_def md_consts)

lemma add_region_ok:
  assumes rep: "drv_rep bs p L s" and wf: "wf_region e" and fresh: "mdr_name e \<notin> set (map mdr_name L)"
    and room: "length L < CONFIG_MINIDUMP_MAX_ENTRIES" "length L - p + 5 \<le> MAX_NUM_ENTRIES"
  shows "\<exists>s'. msm_minidump_add_region alloc (Some e) s = Some (int (length L), s') \<and>
              drv_rep bs p (L @ [e]) s' \<and> first_removed_entry s' = first_removed_entry s"
proof -
  from rep have smem: "smem_rep L s" and p: "p \<le> length L"
    and elf: "elf_rep bs (drop p L) (minidump_elfheader s)" and m: "\<not> is_rm_minidump s" "md_init_done s"
    by (auto simp: drv_rep_def)
  from smem obtain t where t: "minidump_table s = Some t" "num_regions s = length L"
    "arr_list (tbl_entry t) (length L) = L" and len: "length L \<le> MAX_NUM_ENTRIES" by (rule smem_repE)
  obtain toc where toc: "toc_enabled s = Some toc" "ss_region_count toc = 1 + length L"
    using toc_enabled_rep [OF smem] by blast
  obtain t' where t': "md_add_ss_toc e s = Some (s\<lparr>minidump_table := Some t'\<rparr>)" "table_rep (L @ [e]) t'"
    using md_add_ss_toc_rep [OF smem room(1) wf fresh] by blast
  obtain eh' where eh': "md_add_elf_header e (minidump_elfheader s) = Some eh'"
    "elf_rep bs (drop p L @ [e]) eh'"
    using md_add_elf_header_rep [OF elf wf] room(2) by auto
  have "validate_region (Some e) = 0" using validate_region_ok wf by (simp add: wf_region_def)
  moreover have "md_entry_num e s = Some (- ENOENT)"
    by (rule md_entry_num_missing [OF t(1,3,2) len fresh])
  ultimately have "msm_minidump_add_region alloc (Some e) s = Some (int (length L),
      s\<lparr>minidump_table := Some t', minidump_elfheader := eh', num_regions := length L + 1\<rparr>)"
    using room toc m t' eh' t(2)
    by (simp add: msm_minidump_add_region_def region_added_def md_consts)
  then show ?thesis
    using t'(2) eh'(2) p m by (simp add: drv_rep_def smem_rep_def)
qed

lemma add_region_invalid:
  "validate_region e \<noteq> 0 \<Longrightarrow> msm_minidump_add_region alloc e s = Some (- EINVAL, s)"
  by (simp add: msm_minidump_add_region_def)

lemma add_region_exists:
  assumes rep: "drv_rep bs p L s" and wf: "wf_region e" and dup: "mdr_name e \<in> set (map mdr_name L)"
    and room: "length L < CONFIG_MINIDUMP_MAX_ENTRIES"
  shows "msm_minidump_add_region alloc (Some e) s = Some (- EEXIST, s)"
proof -
  from rep have smem: "smem_rep L s" and m: "\<not> is_rm_minidump s" by (auto simp: drv_rep_def)
  from smem obtain t where t: "minidump_table s = Some t" "num_regions s = length L"
    "arr_list (tbl_entry t) (length L) = L" and d: "distinct (map mdr_name L)"
    and len: "length L \<le> MAX_NUM_ENTRIES" by (rule smem_repE)
  obtain toc where toc: "toc_enabled s = Some toc" "ss_region_count toc = 1 + length L"
    using toc_enabled_rep [OF smem] by blast
  from dup obtain k where k: "k < length L" "mdr_name (L ! k) = mdr_name e"
    by (auto simp: in_set_conv_nth)
  have "md_entry_num e s = Some (int k)"
    by (rule md_entry_num_found [OF t(1,3,2) len k]) (use k distinct_names_inj [OF d, of _ k] in auto)
  moreover have "validate_region (Some e) = 0" using validate_region_ok wf by (simp add: wf_region_def)
  ultimately show ?thesis
    using room toc m t(2) by (simp add: msm_minidump_add_region_def md_consts)
qed

text \<open>
  The entry passed to a removal must name region \<open>k\<close> and repeat its addresses and size, and no
  earlier region that the ELF header describes may share its physical address and size.
\<close>

definition removable :: "md_region list \<Rightarrow> nat \<Rightarrow> md_region \<Rightarrow> bool" where
  "removable L k e \<longleftrightarrow> wf_region e \<and> mdr_name e = mdr_name (L ! k) \<and>
     virt_addr e = virt_addr (L ! k) \<and> phys_addr e = phys_addr (L ! k) \<and>
     mdr_size e = mdr_size (L ! k) \<and>
     (\<forall>j < k. \<not> (phys_addr (L ! j) = phys_addr e \<and> mdr_size (L ! j) = mdr_size e))"

lemma drop_remove_nth:
  "p \<le> k \<Longrightarrow> k < length L \<Longrightarrow> drop p (remove_nth k L) = remove_nth (k - p) (drop p L)"
  by (simp add: remove_nth_def drop_take)

lemma remove_region_ok:
  assumes rep: "drv_rep bs p L s" and k: "k < length L" "p \<le> k" and rm: "removable L k e"
  shows "\<exists>s'. msm_minidump_remove_region alloc (Some e) s = Some (0, s') \<and>
              drv_rep bs p (remove_nth k L) s' \<and>
              first_removed_entry s' = min (int k) (first_removed_entry s)"
proof -
  from rep have smem: "smem_rep L s" and p: "p \<le> length L"
    and elf: "elf_rep bs (drop p L) (minidump_elfheader s)" and m: "\<not> is_rm_minidump s" "md_init_done s"
    by (auto simp: drv_rep_def)
  from smem obtain t where t: "minidump_table s = Some t" "table_rep L t"
    and d: "distinct (map mdr_name L)" by (rule smem_repE)
  from t(2) obtain toc where toc: "tbl_ss_toc t = Some toc" "md_ss_enable_status toc = MD_SS_ENABLED"
    by (rule table_repE)
  have "\<exists>eh'. msm_minidump_clear_headers e (minidump_elfheader s) = Some (0, eh') \<and>
      elf_rep bs (remove_nth (k - p) (drop p L)) eh'"
    by (rule clear_headers_rep [OF elf])
      (use k rm distinct_names_inj [OF d, of _ k] in \<open>auto simp: removable_def\<close>)
  then obtain eh' where eh': "msm_minidump_clear_headers e (minidump_elfheader s) = Some (0, eh')"
    "elf_rep bs (drop p (remove_nth k L)) eh'"
    using drop_remove_nth [OF k(2,1)] by auto
  from md_remove_ss_toc_rep [OF smem k(1) _ eh'(1)] rm obtain t' where
    "md_remove_ss_toc e s = Some (0, s\<lparr>minidump_table := Some t', minidump_elfheader := eh',
       num_regions := length L - 1, first_removed_entry := min (int k) (first_removed_entry s)\<rparr>)"
    and "table_rep (remove_nth k L) t'"
    by (auto simp: removable_def)
  then show ?thesis
    using m t(1) toc k eh'(2) by (simp add: msm_minidump_remove_region_def drv_rep_def smem_rep_def)
qed

lemma remove_region_missing:
  assumes rep: "drv_rep bs p L s" and fresh: "mdr_name e \<notin> set (map mdr_name L)"
  shows "msm_minidump_remove_region alloc (Some e) s = Some (- ENOENT, s)"
proof -
  from rep have smem: "smem_rep L s" and m: "\<not> is_rm_minidump s" "md_init_done s"
    by (auto simp: drv_rep_def)
  from smem obtain t where t: "minidump_table s = Some t" "table_rep L t" "num_regions s = length L"
    "arr_list (tbl_entry t) (length L) = L" and len: "length L \<le> MAX_NUM_ENTRIES" by (rule smem_repE)
  from t(2) obtain toc where toc: "tbl_ss_toc t = Some toc" "md_ss_enable_status toc = MD_SS_ENABLED"
    by (rule table_repE)
  have "md_entry_num e s = Some (- ENOENT)"
    by (rule md_entry_num_missing [OF t(1,4,3) len fresh])
  then show ?thesis
    using m t(1) toc
    by (simp add: msm_minidump_remove_region_def md_remove_ss_toc_def ENOENT_def)
qed

lemma update_region_ok:
  assumes rep: "drv_rep bs 0 L s" and k: "k < length L" and wf: "wf_region e"
    and e: "mdr_name e \<in> set (map mdr_name L)" and moved: "int k < first_removed_entry s"
  shows "\<exists>s'. msm_minidump_update_region alloc (int k) (Some e) s = Some (0, s') \<and>
              drv_rep bs 0 (L[k := move_region (L ! k) e]) s' \<and>
              first_removed_entry s' = first_removed_entry s"
proof -
  from rep have smem: "smem_rep L s" and elf: "elf_rep bs L (minidump_elfheader s)"
    and m: "\<not> is_rm_minidump s" "md_init_done s" by (auto simp: drv_rep_def)
  from smem have len: "length L \<le> 200" and n: "num_regions s = length L"
    by (auto simp: smem_rep_def table_rep_def md_consts)
  have va: "virt_addr e \<noteq> 0" using wf by (rule wf_regionD)
  obtain t' where t': "md_update_ss_toc (int k) e s = Some (0, s\<lparr>minidump_table := Some t'\<rparr>)"
    "table_rep (L[k := move_region (L ! k) e]) t'"
    using md_update_ss_toc_rep [OF smem k e va moved] by blast
  obtain eh' where eh': "md_update_elf_header (int k) e (minidump_elfheader s) = Some eh'"
    "elf_rep bs (L[k := move_region (L ! k) e]) eh'"
    using md_update_elf_header_rep [OF elf k va] by blast
  have "validate_region (Some e) = 0" using validate_region_ok wf by (simp add: wf_region_def)
  then have "msm_minidump_update_region alloc (int k) (Some e) s =
      Some (0, s\<lparr>minidump_table := Some t', minidump_elfheader := eh'\<rparr>)"
    using m t'(1) eh'(1) k len by (simp add: msm_minidump_update_region_def md_consts)
  then show ?thesis using t'(2) eh'(2) m n by (simp add: drv_rep_def smem_rep_def)
qed

subsection \<open>Several registrations in a row\<close>

text \<open>The ELF header has room for four regions fewer than the table.  Below, registrations whose results
  the caller ignores.\<close>

definition MAX_ELF_REGIONS :: nat where "MAX_ELF_REGIONS = MAX_NUM_ENTRIES - 4"

fun add_regions :: "bool \<Rightarrow> md_region list \<Rightarrow> md_globals \<Rightarrow> md_globals option" where
  "add_regions alloc [] s = Some s"
| "add_regions alloc (e # es) s = do {
     (_, s) \<leftarrow> msm_minidump_add_region alloc (Some e) s;
     add_regions alloc es s }"

lemma add_regions_append:
  "add_regions alloc (A @ B) s = add_regions alloc A s \<bind> add_regions alloc B"
  by (induction A arbitrary: s) (auto simp: Option.bind_assoc intro!: Option.bind_cong split: bind_splits)

lemma add_regions_ok:
  assumes "drv_rep bs p L s" and "\<forall>e \<in> set M. wf_region e" and "distinct (map mdr_name (L @ M))"
    and "length (L @ M) \<le> MAX_ELF_REGIONS"
  shows "\<exists>s'. add_regions alloc M s = Some s' \<and> drv_rep bs p (L @ M) s' \<and>
              first_removed_entry s' = first_removed_entry s"
  using assms
proof (induction M arbitrary: L s)
  case (Cons e M)
  have "\<exists>s'. msm_minidump_add_region alloc (Some e) s = Some (int (length L), s') \<and>
      drv_rep bs p (L @ [e]) s' \<and> first_removed_entry s' = first_removed_entry s"
    by (rule add_region_ok [OF Cons.prems(1)])
      (use Cons.prems in \<open>auto simp: MAX_ELF_REGIONS_def md_consts\<close>)
  then obtain s1 where s1: "msm_minidump_add_region alloc (Some e) s = Some (int (length L), s1)"
    "drv_rep bs p (L @ [e]) s1" "first_removed_entry s1 = first_removed_entry s" by blast
  have "\<exists>s'. add_regions alloc M s1 = Some s' \<and> drv_rep bs p ((L @ [e]) @ M) s' \<and>
      first_removed_entry s' = first_removed_entry s1"
    by (rule Cons.IH [OF s1(2)]) (use Cons.prems in auto)
  with s1 show ?case by simp
qed simp

subsection \<open>The registry: what the driver promises\<close>

text \<open>
  The specification keeps the list of registered regions and the number from which on region
  numbers are no longer valid because an earlier region was removed.  An operation has no
  specified result (\<open>None\<close>) where the driver's own tables do not support it.
\<close>

record registry =
  reg_list :: "md_region list"
  reg_stable :: int

datatype md_op = Op_Add md_region | Op_Remove md_region | Op_Update nat md_region

definition name_index :: "md_region list \<Rightarrow> string \<Rightarrow> nat option" where
  "name_index L nm = find (\<lambda>k. mdr_name (L ! k) = nm) [0..<length L]"

definition registry_add :: "md_region \<Rightarrow> registry \<Rightarrow> (int \<times> registry) option" where
  "registry_add e g =
     (if \<not> cstring (mdr_name e) then None
      else if \<not> wf_region e then Some (- EINVAL, g)
      else if name_index (reg_list g) (mdr_name e) \<noteq> None then Some (- EEXIST, g)
      else if length (reg_list g) < MAX_ELF_REGIONS
      then Some (int (length (reg_list g)), g\<lparr>reg_list := reg_list g @ [e]\<rparr>)
      else None)"

definition registry_remove :: "md_region \<Rightarrow> registry \<Rightarrow> (int \<times> registry) option" where
  "registry_remove e g =
     (case name_index (reg_list g) (mdr_name e) of
        None \<Rightarrow> Some (- ENOENT, g)
      | Some k \<Rightarrow>
          if removable (reg_list g) k e
          then Some (0, g\<lparr>reg_list := remove_nth k (reg_list g), reg_stable := min (int k) (reg_stable g)\<rparr>)
          else None)"

definition registry_update :: "nat \<Rightarrow> md_region \<Rightarrow> registry \<Rightarrow> (int \<times> registry) option" where
  "registry_update k e g =
     (if k < length (reg_list g) \<and> wf_region e \<and> mdr_name e = mdr_name (reg_list g ! k) \<and>
         int k < reg_stable g
      then Some (0, g\<lparr>reg_list := (reg_list g)[k := move_region (reg_list g ! k) e]\<rparr>)
      else None)"

fun registry_step :: "md_op \<Rightarrow> registry \<Rightarrow> (int \<times> registry) option" where
  "registry_step (Op_Add e) g = registry_add e g"
| "registry_step (Op_Remove e) g = registry_remove e g"
| "registry_step (Op_Update k e) g = registry_update k e g"

fun md_step :: "md_op \<Rightarrow> md_globals \<Rightarrow> (int \<times> md_globals) option" where
  "md_step (Op_Add e) s = msm_minidump_add_region True (Some e) s"
| "md_step (Op_Remove e) s = msm_minidump_remove_region True (Some e) s"
| "md_step (Op_Update k e) s = msm_minidump_update_region True (int k) (Some e) s"

definition reg_rep :: "elf_base \<Rightarrow> registry \<Rightarrow> md_globals \<Rightarrow> bool" where
  "reg_rep bs g s \<longleftrightarrow> drv_rep bs 0 (reg_list g) s \<and> first_removed_entry s = reg_stable g"

lemma name_index_None: "name_index L nm = None \<longleftrightarrow> nm \<notin> set (map mdr_name L)"
proof -
  have "name_index L nm = None \<longleftrightarrow> (\<forall>r \<in> set L. mdr_name r \<noteq> nm)"
    by (simp add: name_index_def find_upt_None all_set_conv_all_nth)
  then show ?thesis by auto
qed

lemma name_index_Some: "name_index L nm = Some k \<Longrightarrow> k < length L \<and> mdr_name (L ! k) = nm"
  unfolding name_index_def by (auto dest: find_upt_Some)

lemma drv_rep_length: "drv_rep bs 0 L s \<Longrightarrow> length L \<le> MAX_ELF_REGIONS"
  by (auto simp: drv_rep_def elf_rep_def MAX_ELF_REGIONS_def)

lemma registry_add_sim:
  assumes rep: "reg_rep bs g s" and spec: "registry_add e g = Some (r, g')"
  shows "\<exists>s'. msm_minidump_add_region alloc (Some e) s = Some (r, s') \<and> reg_rep bs g' s'"
proof -
  let ?L = "reg_list g"
  from rep have d: "drv_rep bs 0 ?L s" and st: "first_removed_entry s = reg_stable g"
    by (auto simp: reg_rep_def)
  from spec have cs: "cstring (mdr_name e)" by (auto simp: registry_add_def split: if_splits)
  have len: "length ?L < CONFIG_MINIDUMP_MAX_ENTRIES"
    using drv_rep_length [OF d] by (simp add: MAX_ELF_REGIONS_def md_consts)
  consider (bad) "\<not> wf_region e" "r = - EINVAL" "g' = g"
    | (dup) "wf_region e" "mdr_name e \<in> set (map mdr_name ?L)" "r = - EEXIST" "g' = g"
    | (ok) "wf_region e" "mdr_name e \<notin> set (map mdr_name ?L)" "length ?L < MAX_ELF_REGIONS"
        "r = int (length ?L)" "g' = g\<lparr>reg_list := ?L @ [e]\<rparr>"
    using spec cs by (auto simp: registry_add_def name_index_None split: if_splits)
  then show ?thesis
  proof cases
    case bad
    then show ?thesis using validate_region_ok [OF cs] add_region_invalid rep by auto
  next
    case dup
    then show ?thesis using add_region_exists [OF d dup(1,2) len] rep by auto
  next
    case ok
    then show ?thesis using add_region_ok [OF d ok(1,2) len, of alloc] st
      by (auto simp: reg_rep_def MAX_ELF_REGIONS_def md_consts)
  qed
qed

lemma registry_remove_sim:
  assumes rep: "reg_rep bs g s" and spec: "registry_remove e g = Some (r, g')"
  shows "\<exists>s'. msm_minidump_remove_region alloc (Some e) s = Some (r, s') \<and> reg_rep bs g' s'"
proof (cases "name_index (reg_list g) (mdr_name e)")
  case None
  with rep spec show ?thesis
    using remove_region_missing [of bs 0 "reg_list g" s e alloc]
    by (auto simp: reg_rep_def registry_remove_def name_index_None)
next
  case (Some k)
  with rep spec name_index_Some [OF Some] show ?thesis
    using remove_region_ok [of bs 0 "reg_list g" s k e alloc]
    by (auto simp: reg_rep_def registry_remove_def split: if_splits)
qed

lemma registry_update_sim:
  assumes rep: "reg_rep bs g s" and spec: "registry_update k e g = Some (r, g')"
  shows "\<exists>s'. msm_minidump_update_region alloc (int k) (Some e) s = Some (r, s') \<and> reg_rep bs g' s'"
  using assms update_region_ok [of bs "reg_list g" s k e alloc]
  by (auto simp: reg_rep_def registry_update_def split: if_splits)

interpretation drv: simulation "reg_rep bs" registry_step md_step for bs
proof
  fix g s x r g'
  assume "reg_rep bs g s" and "registry_step x g = Some (r, g')"
  then show "\<exists>s'. md_step x s = Some (r, s') \<and> reg_rep bs g' s'"
    by (cases x) (auto dest: registry_add_sim registry_remove_sim registry_update_sim)
qed

subsection \<open>Facts that hold in every mode\<close>

lemma add_ss_toc_frame:
  "md_add_ss_toc e s = Some s' \<Longrightarrow> num_regions s' = num_regions s"
  by (auto simp: md_add_ss_toc_def Let_def bind_eq_Some_conv split: if_splits)

lemma rm_add_region_cases:
  "md_rm_add_region alloc e s = Some (r, s') \<Longrightarrow>
   r = - ENOMEM \<and> s' = s \<or> r = 0 \<and> num_regions s' = num_regions s"
  by (auto simp: md_rm_add_region_def Let_def bind_eq_Some_conv split: if_splits)

text \<open>
  A registration that is refused changes nothing; one that succeeds returns the number of
  regions before it.
\<close>

lemma add_region_cases:
  assumes "msm_minidump_add_region alloc entry s = Some (r, s')"
  shows "r < 0 \<and> s' = s \<or>
    r = int (num_regions s) \<and> num_regions s' = num_regions s + 1 \<and> num_regions s < MAX_NUM_ENTRIES"
  using assms unfolding msm_minidump_add_region_def
  by (auto simp: region_added_def errno_defs elim!: bind_SomeE
      dest!: add_ss_toc_frame rm_add_region_cases split: if_split_asm option.split_asm)

lemma add_region_bound:
  "msm_minidump_add_region alloc entry s = Some (r, s') \<Longrightarrow> num_regions s \<le> MAX_NUM_ENTRIES \<Longrightarrow>
   num_regions s' \<le> MAX_NUM_ENTRIES"
  by (drule add_region_cases) auto

lemma request_num_regions:
  "md_rm_request_existing cmd alloc e s = Some (r, s') \<Longrightarrow> num_regions s' = num_regions s"
  by (auto simp: md_rm_request_existing_def queue_request_def bind_eq_Some_conv split: if_splits)

lemma remove_ss_toc_num_regions:
  "md_remove_ss_toc e s = Some (r, s') \<Longrightarrow> num_regions s' \<le> num_regions s"
  unfolding md_remove_ss_toc_def Let_def
  by (auto elim!: bind_SomeE split: if_split_asm option.split_asm)

lemma remove_region_num_regions:
  "msm_minidump_remove_region alloc e s = Some (r, s') \<Longrightarrow> num_regions s' \<le> num_regions s"
  by (auto simp: msm_minidump_remove_region_def md_rm_remove_region_def bind_eq_Some_conv
      dest: request_num_regions remove_ss_toc_num_regions split: if_splits option.splits)

lemma update_region_num_regions:
  "msm_minidump_update_region alloc n e s = Some (r, s') \<Longrightarrow> num_regions s' = num_regions s"
  by (auto simp: msm_minidump_update_region_def md_rm_update_def md_update_ss_toc_def Let_def
      bind_eq_Some_conv dest: request_num_regions split: if_splits option.splits)

interpretation cap: step_invariant "\<lambda>s. num_regions s \<le> MAX_NUM_ENTRIES" md_step
proof
  fix s x r s'
  assume "num_regions s \<le> MAX_NUM_ENTRIES" and "md_step x s = Some (r, s')"
  then show "num_regions s' \<le> MAX_NUM_ENTRIES"
    by (cases x) (auto dest: add_region_bound remove_region_num_regions update_region_num_regions)
qed

subsection \<open>Lookups\<close>

lemma get_region_found:
  assumes rep: "drv_rep bs p L s" and k: "k < length L"
  shows "md_get_region (mdr_name (L ! k)) s = Some (L ! k)"
proof -
  from rep have smem: "smem_rep L s" and m: "\<not> is_rm_minidump s" by (auto simp: drv_rep_def)
  from smem obtain t where t: "minidump_table s = Some t" "num_regions s = length L"
    "arr_list (tbl_entry t) (length L) = L" and d: "distinct (map mdr_name L)"
    and len: "length L \<le> MAX_NUM_ENTRIES" by (rule smem_repE)
  have "find (\<lambda>i. mdr_name (tbl_entry t i) = mdr_name (L ! k)) [0..<length L] = Some k"
    by (rule find_upt_first)
      (use k table_entry_nth [OF t(3)] distinct_names_inj [OF d, of _ k] in auto)
  with m t len table_entry_nth [OF t(3) k] show ?thesis by (simp add: md_get_region_def)
qed

lemma get_region_missing:
  assumes rep: "drv_rep bs p L s" and fresh: "nm \<notin> set (map mdr_name L)"
  shows "md_get_region nm s = Some zero_region"
proof -
  from rep have smem: "smem_rep L s" and m: "\<not> is_rm_minidump s" by (auto simp: drv_rep_def)
  from smem obtain t where t: "minidump_table s = Some t" "num_regions s = length L"
    "arr_list (tbl_entry t) (length L) = L" and len: "length L \<le> MAX_NUM_ENTRIES" by (rule smem_repE)
  have "find (\<lambda>i. mdr_name (tbl_entry t i) = nm) [0..<length L] = None"
    unfolding find_upt_None using fresh table_entry_nth [OF t(3)] by (metis image_eqI nth_mem set_map)
  with m t len show ?thesis by (simp add: md_get_region_def)
qed

subsection \<open>Limits of the tables\<close>

text \<open>
  The driver's own limit admits more regions than its section header table has room for: the
  section header of region 198 would lie on the first program header.
\<close>

lemma add_elf_header_full:
  assumes "elf_rep bs L eh" and "length L = MAX_ELF_REGIONS"
  shows "md_add_elf_header e eh = None"
proof -
  from assms(1) obtain hdr where "ehdr eh = Some hdr" "hdr_rep bs L hdr" by (rule elf_repE)
  then show ?thesis
    using assms(2)
    by (auto simp: md_add_elf_header_def set_section_name_def hdr_rep_def Let_def upd_shdr_def
        elf_section_def elf_sheader_def elf_pheader_def MAX_ELF_REGIONS_def md_consts
        split: option.splits bind_splits)
qed

lemma add_region_198:
  assumes rep: "drv_rep bs 0 L s" and full: "length L = MAX_ELF_REGIONS" and wf: "wf_region e"
    and fresh: "mdr_name e \<notin> set (map mdr_name L)"
  shows "msm_minidump_add_region alloc (Some e) s = None"
proof -
  from rep have smem: "smem_rep L s" and elf: "elf_rep bs L (minidump_elfheader s)"
    and m: "\<not> is_rm_minidump s" "md_init_done s" by (auto simp: drv_rep_def)
  from smem obtain t where t: "minidump_table s = Some t" "num_regions s = length L"
    "arr_list (tbl_entry t) (length L) = L" and len: "length L \<le> MAX_NUM_ENTRIES" by (rule smem_repE)
  obtain toc where toc: "toc_enabled s = Some toc" "ss_region_count toc = 1 + length L"
    using toc_enabled_rep [OF smem] by blast
  obtain t' where t': "md_add_ss_toc e s = Some (s\<lparr>minidump_table := Some t'\<rparr>)"
    using md_add_ss_toc_rep [OF smem _ wf fresh] full by (auto simp: MAX_ELF_REGIONS_def md_consts)
  have "md_add_elf_header e (minidump_elfheader s) = None" by (rule add_elf_header_full [OF elf full])
  moreover have "validate_region (Some e) = 0" using wf by (simp add: validate_region_ok wf_region_def)
  moreover have "md_entry_num e s = Some (- ENOENT)"
    by (rule md_entry_num_missing [OF t(1,3,2) len fresh])
  ultimately show ?thesis
    using m toc t t' full
    by (simp add: msm_minidump_add_region_def MAX_ELF_REGIONS_def md_consts)
qed

text \<open>
  A region that was pending when the driver was probed has no header in the ELF file.  Its
  removal fails, but only after the region has left the tables, whose counters stay as they were.
\<close>

lemma remove_pending_region:
  assumes rep: "drv_rep bs p L s" and k: "k < length L" and e: "e = L ! k"
    and none: "\<forall>r \<in> set (drop p L). \<not> (phys_addr r = phys_addr e \<and> mdr_size r = mdr_size e)"
  shows "\<exists>s' t toc. msm_minidump_remove_region alloc (Some e) s = Some (- EINVAL, s') \<and>
     num_regions s' = length L \<and> minidump_table s' = Some t \<and>
     arr_list (tbl_entry t) (length L) = remove_nth k L @ [zero_region] \<and>
     tbl_ss_toc t = Some toc \<and> md_ss_toc_init toc = 0 \<and> ss_region_count toc = 1 + length L"
proof -
  from rep have smem: "smem_rep L s" and elf: "elf_rep bs (drop p L) (minidump_elfheader s)"
    and m: "\<not> is_rm_minidump s" "md_init_done s" by (auto simp: drv_rep_def)
  from smem obtain t where t: "minidump_table s = Some t" "table_rep L t" "num_regions s = length L"
    and wfL: "\<forall>r \<in> set L. wf_region r" by (rule smem_repE)
  from t(2) obtain toc regs where toc: "tbl_ss_toc t = Some toc" "md_ss_enable_status toc = MD_SS_ENABLED"
    and cnt: "ss_region_count toc = 1 + length L" and ent: "arr_list (tbl_entry t) (length L) = L"
    and rt: "md_regions t = Some regs" and reg: "regions_rep L regs" and d: "distinct (map mdr_name L)"
    and len: "length L \<le> 200" by (rule table_repE)
  have "msm_minidump_clear_headers e (minidump_elfheader s) = Some (- EINVAL, minidump_elfheader s)"
    by (rule clear_headers_no_phdr [OF elf]) (use wfL k e none in auto)
  moreover have "md_entry_num e s = Some (int k)"
    by (rule md_entry_num_found [OF t(1) ent t(3)])
      (use len k e distinct_names_inj [OF d] in \<open>auto simp: md_consts\<close>)
  moreover obtain seq where "md_region_num (mdr_name e) 0 s = Some (int (1 + k), seq)"
    using md_region_num_found [OF t(1) toc(1) rt cnt len reg d k] e by blast
  moreover have "arr_list ((memmove (tbl_entry t) k (Suc k) (length L - Suc k))(length L - Suc 0 := zero_region))
      (length L) = remove_nth k L @ [zero_region]"
    using entries_remove [OF ent k] k by (cases "length L") (auto simp: arr_seg_Suc)
  ultimately show ?thesis
    using m t(1,3) toc rt cnt
    by (simp add: msm_minidump_remove_region_def md_remove_ss_toc_def Let_def nat_add_distrib errno_defs)
qed

text \<open>On the enabled SMEM table no call touches the pending list.\<close>

lemma add_region_pending:
  assumes "msm_minidump_add_region alloc entry s = Some (r, s')" and "drv_rep bs p L s"
  shows "pending_list s' = pending_list s"
proof -
  have m: "\<not> is_rm_minidump s" and "smem_rep L s" using assms(2) by (auto simp: drv_rep_def)
  then obtain toc where "toc_enabled s = Some toc" using toc_enabled_rep by blast
  moreover have "pending_list s2 = pending_list s1" if "md_add_ss_toc e s1 = Some s2" for e s1 s2
    using that by (auto simp: md_add_ss_toc_def Let_def elim!: bind_SomeE split: if_splits)
  ultimately show ?thesis
    using assms(1) m unfolding msm_minidump_add_region_def
    by (auto simp: region_added_def elim!: bind_SomeE split: if_split_asm option.split_asm)
qed

text \<open>
  An update with the number of a region that was moved by a removal is refused, but the ELF
  header is updated nevertheless.
\<close>

lemma update_moved_region:
  assumes rep: "drv_rep bs 0 L s" and k: "k < length L" and wf: "wf_region e"
    and moved: "first_removed_entry s \<le> int k"
  shows "\<exists>s'. msm_minidump_update_region alloc (int k) (Some e) s = Some (- EINVAL, s') \<and>
    minidump_table s' = minidump_table s \<and>
    elf_rep bs (L[k := move_region (L ! k) e]) (minidump_elfheader s')"
proof -
  from rep have smem: "smem_rep L s" and elf: "elf_rep bs L (minidump_elfheader s)"
    and m: "\<not> is_rm_minidump s" "md_init_done s" by (auto simp: drv_rep_def)
  from smem have len: "length L \<le> 200" by (auto simp: smem_rep_def table_rep_def md_consts)
  have va: "virt_addr e \<noteq> 0" using wf by (rule wf_regionD)
  obtain eh' where "md_update_elf_header (int k) e (minidump_elfheader s) = Some eh'"
    "elf_rep bs (L[k := move_region (L ! k) e]) eh'"
    using md_update_elf_header_rep [OF elf k va] by blast
  moreover have "validate_region (Some e) = 0" using validate_region_ok wf by (simp add: wf_region_def)
  ultimately show ?thesis
    using m moved k len by (simp add: msm_minidump_update_region_def md_update_ss_toc_def md_consts)
qed

end
