(* ===== verification/C_Text.thy ===== *)
theory C_Text
  imports Md_Prelude
begin

text \<open>
  Printing as the kernel's library does it: numbers, padded fields, the bounded string functions
  \<^verbatim>\<open>snprintf\<close>, \<^verbatim>\<open>scnprintf\<close> and \<^verbatim>\<open>strlcat\<close>, writes of characters into a buffer of known capacity,
  and \<^verbatim>\<open>seq_buf\<close>.
\<close>

definition PAGE_SIZE :: nat where "PAGE_SIZE = 4096"

subsection \<open>Numbers and fields\<close>

definition hex_digit :: "nat \<Rightarrow> char" where
  "hex_digit n = ''0123456789abcdef'' ! n"

fun hex_str :: "nat \<Rightarrow> string" where
  "hex_str n = (if n < 16 then [hex_digit n] else hex_str (n div 16) @ [hex_digit (n mod 16)])"

fun dec_str :: "nat \<Rightarrow> string" where
  "dec_str n = (if n < 10 then [hex_digit n] else dec_str (n div 10) @ [hex_digit (n mod 10)])"

declare hex_str.simps [simp del] dec_str.simps [simp del]

definition int_str :: "int \<Rightarrow> string" where
  "int_str i = (if i < 0 then CHR ''-'' # dec_str (nat (- i)) else dec_str (nat i))"

definition LF :: char where "LF = CHR 0x0A"
definition TAB :: char where "TAB = CHR 0x09"

text \<open>The fields of a format: \<open>%ns\<close>, \<open>%-ns\<close> and \<open>%0n\<close>.\<close>

definition pad_left :: "nat \<Rightarrow> string \<Rightarrow> string" where
  "pad_left n s = replicate (n - length s) CHR '' '' @ s"

definition pad_right :: "nat \<Rightarrow> string \<Rightarrow> string" where
  "pad_right n s = s @ replicate (n - length s) CHR '' ''"

definition pad_zero :: "nat \<Rightarrow> string \<Rightarrow> string" where
  "pad_zero n s = replicate (n - length s) CHR ''0'' @ s"

lemma length_hex_str: "n < 16 ^ k \<Longrightarrow> 0 < k \<Longrightarrow> length (hex_str n) \<le> k"
proof (induction k arbitrary: n)
  case (Suc k)
  show ?case
  proof (cases "n < 16")
    case False
    with Suc.prems have "n div 16 < 16 ^ k" "0 < k"
      by (auto simp: div_less_iff_less_mult mult.commute intro: gr0I)
    with Suc.IH [of "n div 16"] False show ?thesis by (subst hex_str.simps) simp
  qed (subst hex_str.simps, simp)
qed simp

lemma dec_str_small: "n < 10 \<Longrightarrow> dec_str n = [hex_digit n]"
  by (subst dec_str.simps) simp

lemma length_dec_str: "n < 10 ^ k \<Longrightarrow> 0 < k \<Longrightarrow> length (dec_str n) \<le> k"
proof (induction k arbitrary: n)
  case (Suc k)
  show ?case
  proof (cases "n < 10")
    case False
    with Suc.prems have "n div 10 < 10 ^ k" "0 < k"
      by (auto simp: div_less_iff_less_mult mult.commute intro: gr0I)
    with Suc.IH [of "n div 10"] False show ?thesis by (subst dec_str.simps) simp
  qed (subst dec_str.simps, simp)
qed simp

text \<open>Decimal numerals are not empty, hold no terminator and are read back unambiguously.\<close>

lemma hex_digit_cases: "n < 16 \<Longrightarrow> hex_digit n \<in> set ''0123456789abcdef''"
  unfolding hex_digit_def by (rule nth_mem) simp

lemma hex_digit_not_NUL: "n < 16 \<Longrightarrow> hex_digit n \<noteq> NUL"
  using hex_digit_cases [of n] by (auto simp: NUL_def)

lemma dec_str_not_Nil [simp]: "dec_str n \<noteq> []"
  by (subst dec_str.simps) simp

lemma cstring_Cons: "cstring (c # s) \<longleftrightarrow> c \<noteq> NUL \<and> cstring s"
  by (auto simp: cstring_def)

lemma cstring_dec_str [simp]: "cstring (dec_str n)"
proof (induction n rule: dec_str.induct)
  case (1 n)
  have "hex_digit (n mod 10) \<noteq> NUL" "n < 10 \<Longrightarrow> hex_digit n \<noteq> NUL"
    using hex_digit_not_NUL [of "n mod 10"] hex_digit_not_NUL [of n] by simp_all
  with 1 show ?case by (subst dec_str.simps) (auto simp: cstring_def)
qed

lemma hex_digit_inj: "i < 10 \<Longrightarrow> j < 10 \<Longrightarrow> hex_digit i = hex_digit j \<Longrightarrow> i = j"
proof -
  assume ij: "i < 10" "j < 10" "hex_digit i = hex_digit j"
  have "distinct ''0123456789abcdef''" by simp
  from nth_eq_iff_index_eq [OF this, of i j] ij show "i = j" by (simp add: hex_digit_def)
qed

lemma dec_str_no_underscore: "CHR ''_'' \<notin> set (dec_str n)"
proof (induction n rule: dec_str.induct)
  case (1 n)
  have "hex_digit i \<noteq> CHR ''_''" if "i < 10" for i using hex_digit_cases [of i] that by auto
  from this [of "n mod 10"] this [of n] 1 show ?case by (subst dec_str.simps) auto
qed

lemma dec_str_inj: "dec_str m = dec_str n \<longleftrightarrow> m = n"
proof
  assume "dec_str m = dec_str n"
  then show "m = n"
  proof (induction m arbitrary: n rule: dec_str.induct)
    case (1 m)
    show ?case
    proof (cases "m < 10 \<or> n < 10")
      case True
      have "last (dec_str m) = last (dec_str n)" "length (dec_str m) = length (dec_str n)" using 1 by simp_all
      with True show ?thesis
        by (cases "m < 10"; cases "n < 10")
          (auto simp: dec_str.simps [of m] dec_str.simps [of n] intro: hex_digit_inj)
    next
      case False
      then have "dec_str (m div 10) = dec_str (n div 10)" "hex_digit (m mod 10) = hex_digit (n mod 10)"
        using 1(2) by (simp_all add: dec_str.simps [of m] dec_str.simps [of n])
      then have "m div 10 = n div 10" "m mod 10 = n mod 10"
        using 1(1) False hex_digit_inj by simp_all
      then show ?thesis by (metis div_mult_mod_eq)
    qed
  qed
qed simp

subsection \<open>Bounded printing\<close>

definition scnprintf_str :: "nat \<Rightarrow> string \<Rightarrow> string" where
  "scnprintf_str sz s = take (sz - 1) s"

definition strlcat_str :: "string \<Rightarrow> string \<Rightarrow> nat \<Rightarrow> string" where
  "strlcat_str dst src sz = (if length dst < sz then take (sz - 1) (dst @ src) else dst)"

text \<open>
  \<^verbatim>\<open>snprintf\<close> writes at most \<open>sz - 1\<close> characters and a terminator.  \<open>put_chars\<close> writes characters
  into a buffer of capacity \<open>cap\<close>; a write beyond it is a fault.
\<close>

definition snprintf_str :: "nat \<Rightarrow> string \<Rightarrow> string" where
  "snprintf_str sz out = (if sz = 0 then [] else take (sz - 1) out @ [NUL])"

definition put_chars :: "nat \<Rightarrow> nat \<Rightarrow> string \<Rightarrow> char arr \<Rightarrow> char arr option" where
  "put_chars cap off xs b =
     (if xs = [] then Some b else if off + length xs \<le> cap then Some (arr_write b off xs) else None)"

lemma put_chars_Some:
  "put_chars cap off xs b = Some b' \<Longrightarrow> b' = arr_write b off xs"
  by (auto simp: put_chars_def arr_write_def fun_eq_iff split: if_splits)

lemma put_chars_frame:
  "put_chars cap off xs b = Some b' \<Longrightarrow> i < off \<or> cap \<le> i \<Longrightarrow> b' i = b i"
  by (auto simp: put_chars_def arr_write_def split: if_splits)

text \<open>\<^verbatim>\<open>scnprintf\<close> at an offset of a buffer: the buffer afterwards and the number of characters.\<close>

definition scnprintf_at :: "nat \<Rightarrow> nat \<Rightarrow> nat \<Rightarrow> string \<Rightarrow> char arr \<Rightarrow> (nat \<times> char arr) option" where
  "scnprintf_at cap off sz out b = do {
     b \<leftarrow> put_chars cap off (snprintf_str sz out) b;
     Some (length (scnprintf_str sz out), b) }"

lemma length_snprintf_str: "length (snprintf_str sz out) \<le> sz"
  by (auto simp: snprintf_str_def)

lemma length_scnprintf_str: "length (scnprintf_str sz out) \<le> sz - 1"
  by (simp add: scnprintf_str_def)

text \<open>As long as the size is what is left of the buffer, \<^verbatim>\<open>scnprintf\<close> stays inside it.\<close>

lemma scnprintf_at_fits:
  assumes "off + sz \<le> cap"
  shows "\<exists>b'. scnprintf_at cap off sz out b = Some (length (scnprintf_str sz out), b') \<and>
    (\<forall>i. i < off \<or> cap \<le> i \<longrightarrow> b' i = b i)"
proof -
  have "off + length (snprintf_str sz out) \<le> cap" using assms length_snprintf_str [of sz out] by simp
  then have "put_chars cap off (snprintf_str sz out) b \<noteq> None" by (simp add: put_chars_def)
  then obtain b' where b': "put_chars cap off (snprintf_str sz out) b = Some b'" by blast
  then show ?thesis using put_chars_frame [OF b'] by (simp add: scnprintf_at_def)
qed

subsection \<open>Sequence buffers\<close>

text \<open>
  \<^verbatim>\<open>seq_buf\<close> of the kernel: the characters written so far, and the length, which is set beyond the
  size when an output did not fit; what fits of that output has been written, and all later ones
  are dropped.
\<close>

record seq_buf =
  sb_size :: nat
  sb_len :: nat
  sb_chars :: string

definition seq_buf_init :: "nat \<Rightarrow> seq_buf" where
  "seq_buf_init n = \<lparr>sb_size = n, sb_len = 0, sb_chars = ''''\<rparr>"

definition seq_buf_printf :: "string \<Rightarrow> seq_buf \<Rightarrow> seq_buf" where
  "seq_buf_printf out m =
     (if sb_len m < sb_size m
      then if sb_len m + length out < sb_size m
           then m\<lparr>sb_len := sb_len m + length out, sb_chars := sb_chars m @ out\<rparr>
           else m\<lparr>sb_len := sb_size m + 1, sb_chars := take (sb_size m - 1) (sb_chars m @ out)\<rparr>
      else m)"

definition seq_wf :: "seq_buf \<Rightarrow> bool" where
  "seq_wf m \<longleftrightarrow> (if sb_len m < sb_size m then sb_len m = length (sb_chars m)
      else length (sb_chars m) = sb_size m - 1 \<and> sb_len m = sb_size m + 1 \<or> sb_size m = 0)"

lemma seq_wf_init [simp]: "seq_wf (seq_buf_init n)"
  by (simp add: seq_wf_def seq_buf_init_def)

lemma seq_wf_printf [simp]: "seq_wf m \<Longrightarrow> seq_wf (seq_buf_printf out m)"
  by (auto simp: seq_wf_def seq_buf_printf_def)

lemma seq_size_printf [simp]: "sb_size (seq_buf_printf out m) = sb_size m"
  by (simp add: seq_buf_printf_def)

text \<open>Two outputs one after the other are one output.\<close>

lemma seq_buf_printf_append:
  "seq_wf m \<Longrightarrow> seq_buf_printf b (seq_buf_printf a m) = seq_buf_printf (a @ b) m"
  by (auto simp: seq_wf_def seq_buf_printf_def)

lemma seq_buf_printf_Nil [simp]: "seq_wf m \<Longrightarrow> seq_buf_printf [] m = m"
  by (auto simp: seq_wf_def seq_buf_printf_def)

end
