(* ===== verification/Md_Log.thy ===== *)
theory Md_Log
  imports Md_Api C_Text
begin

text \<open>
  The kernel log in the minidump, from \<^verbatim>\<open>minidump/minidump_log.c\<close>: the buffer for the kernel
  messages, its registration as a region, the callback that fills it when the kernel dies, and
  \<^verbatim>\<open>msm_minidump_log_init\<close> in a build without the optional dump features.
\<close>

subsection \<open>State and environment\<close>

record md_log =
  kmsg_buf :: "u64 option"
  kmsg_dump_sz :: nat
  kmsg_registered :: bool
  is_vmap_stack :: bool

definition init_log :: md_log where
  "init_log = \<lparr>kmsg_buf = None, kmsg_dump_sz = 128 * 1024, kmsg_registered = False,
     is_vmap_stack = False\<rparr>"

text \<open>
  What the kernel contributes: the buffer that \<^verbatim>\<open>kzalloc\<close> returns, the result of
  \<^verbatim>\<open>kmsg_dump_register\<close>, the linear address translation, the build's setting of
  \<^verbatim>\<open>CONFIG_VMAP_STACK\<close>, and the outcome of the allocation in \<^verbatim>\<open>msm_minidump_add_region\<close>.
\<close>

record log_env =
  kmsg_alloc :: "u64 option"
  kmsg_dump_register :: int
  log_virt_to_phys :: "u64 \<Rightarrow> u64"
  config_vmap_stack :: bool
  log_alloc :: bool

subsection \<open>Registration\<close>

definition kmsg_region :: "log_env \<Rightarrow> md_log \<Rightarrow> u64 \<Rightarrow> md_region" where
  "kmsg_region env lg p = \<lparr>mdr_name = strscpy_str ''KMSG'' (MAX_NAME_LENGTH + 1), mdr_id = 0,
     virt_addr = p, phys_addr = log_virt_to_phys env p, mdr_size = of_nat (kmsg_dump_sz lg)\<rparr>"

text \<open>The entry is a local variable whose \<open>id\<close> the code leaves unset; the model uses 0.\<close>

definition md_kmsg_dump_register ::
  "log_env \<Rightarrow> u64 \<Rightarrow> md_log \<times> md_globals \<Rightarrow> (int \<times> md_log \<times> md_globals) option" where
  "md_kmsg_dump_register env p st =
     (let (lg, s) = st; ret = kmsg_dump_register env
      in if ret < 0 then Some (ret, lg, s)
         else do {
           let lg = lg\<lparr>kmsg_registered := True\<rparr>;
           (ret, s) \<leftarrow> msm_minidump_add_region (log_alloc env) (Some (kmsg_region env lg p)) s;
           if ret < 0 then Some (ret, lg\<lparr>kmsg_registered := False\<rparr>, s)
           else Some (ret, lg, s) })"

definition msm_minidump_log_init ::
  "log_env \<Rightarrow> md_log \<times> md_globals \<Rightarrow> (int \<times> md_log \<times> md_globals) option" where
  "msm_minidump_log_init env st =
     (let (lg, s) = st
      in case kmsg_alloc env of
           None \<Rightarrow> Some (- ENOMEM, lg\<lparr>kmsg_buf := None\<rparr>, s)
         | Some p \<Rightarrow> do {
             (ret, lg, s) \<leftarrow> md_kmsg_dump_register env p (lg\<lparr>kmsg_buf := Some p\<rparr>, s);
             if ret < 0 then Some (ret, lg, s)
             else Some (0, lg\<lparr>is_vmap_stack := config_vmap_stack env\<rparr>, s) })"

subsection \<open>Filling the buffer\<close>

text \<open>
  \<^verbatim>\<open>snprintf\<close> writes at most \<open>sz - 1\<close> characters and a terminator, and returns the length of
  the whole output.  \<open>cap\<close> is the size with which the buffer was allocated; a write beyond it is
  a fault.  \<open>get_buffer\<close> stands for \<^verbatim>\<open>kmsg_dump_get_buffer\<close>: the characters it stores when it
  may use \<open>n\<close> bytes, or \<open>None\<close> when it has no record.
\<close>

definition kmsg_header :: "string \<Rightarrow> string" where
  "kmsg_header why = ''MiniDump: '' @ why @ [CHR 0x0A]"

definition md_kmsg_dump ::
  "nat \<Rightarrow> nat \<Rightarrow> string \<Rightarrow> (nat \<Rightarrow> string option) \<Rightarrow> char arr \<Rightarrow> char arr option" where
  "md_kmsg_dump cap dump_sz why get_buffer b = do {
     let hd = kmsg_header why;
     b \<leftarrow> put_chars cap 0 (snprintf_str dump_sz hd) b;
     let header_size = length hd;
     let dst_size = u64_of_int (int dump_sz - int header_size);
     (case get_buffer dst_size of
        None \<Rightarrow> Some b
      | Some txt \<Rightarrow> put_chars cap header_size txt b) }"

subsection \<open>Properties of the dump buffer\<close>

text \<open>
  With a buffer of the size that the dump uses, and a log reader that respects the size it is
  given, the header and the log end up in the buffer and nothing behind it is touched.
\<close>

lemma md_kmsg_dump_ok:
  assumes hd: "length (kmsg_header why) < dump_sz" and cap: "dump_sz \<le> cap" "cap < 2 ^ 64"
    and get: "\<And>n log. get_buffer n = Some log \<Longrightarrow> length log \<le> n"
  defines "h \<equiv> length (kmsg_header why)"
  shows "\<exists>b'. md_kmsg_dump cap dump_sz why get_buffer b = Some b' \<and> (\<forall>i \<ge> cap. b' i = b i) \<and>
    arr_list b' h = kmsg_header why \<and>
    (\<forall>log. get_buffer (dump_sz - h) = Some log \<longrightarrow> arr_seg b' h (length log) = log)"
proof -
  let ?H = "kmsg_header why @ [NUL]"
  have sn: "snprintf_str dump_sz (kmsg_header why) = ?H" using hd by (simp add: snprintf_str_def)
  have p1: "put_chars cap 0 ?H b = Some (arr_write b 0 ?H)" using hd cap by (simp add: put_chars_def)
  have "int dump_sz - int h = int (dump_sz - h)" using hd by (simp add: h_def of_nat_diff)
  moreover have "dump_sz - h < 2 ^ 64" using cap by linarith
  ultimately have dst: "u64_of_int (int dump_sz - int h) = dump_sz - h" by (simp only: u64_of_nat)
  have seg1: "arr_list (arr_write b 0 ?H) h = kmsg_header why"
    by (simp add: list_eq_iff_nth_eq arr_write_def h_def nth_append)
  show ?thesis
  proof (cases "get_buffer (dump_sz - h)")
    case None
    then have "md_kmsg_dump cap dump_sz why get_buffer b = Some (arr_write b 0 ?H)"
      using p1 dst by (simp add: md_kmsg_dump_def sn Let_def h_def)
    with None seg1 hd cap show ?thesis by (auto simp: arr_write_def)
  next
    case (Some log)
    let ?b = "arr_write (arr_write b 0 ?H) h log"
    have l: "length log \<le> dump_sz - h" by (rule get [OF Some])
    have "put_chars cap h log (arr_write b 0 ?H) = Some ?b"
      using l cap hd by (auto simp: put_chars_def h_def)
    then have "md_kmsg_dump cap dump_sz why get_buffer b = Some ?b"
      using p1 dst Some by (simp add: md_kmsg_dump_def sn Let_def h_def)
    moreover have "\<forall>i \<ge> cap. ?b i = b i" using l hd cap by (auto simp: arr_write_def h_def)
    moreover have "arr_list ?b h = kmsg_header why" using seg1 by simp
    moreover have "arr_seg ?b h (length log) = log" by (simp add: list_eq_iff_nth_eq arr_write_def)
    ultimately show ?thesis using Some by auto
  qed
qed

text \<open>
  The size is a module parameter that can be changed after the buffer was allocated: a log that
  fills the larger size is written beyond the buffer.
\<close>

lemma md_kmsg_dump_overrun:
  assumes hd: "length (kmsg_header why) < cap" and big: "cap < dump_sz" "dump_sz < 2 ^ 64"
    and get: "get_buffer (dump_sz - length (kmsg_header why)) = Some log"
      "length log = dump_sz - length (kmsg_header why)"
  shows "md_kmsg_dump cap dump_sz why get_buffer b = None"
proof -
  let ?h = "length (kmsg_header why)"
  have "snprintf_str dump_sz (kmsg_header why) = kmsg_header why @ [NUL]"
    using hd big by (simp add: snprintf_str_def)
  moreover have "int dump_sz - int ?h = int (dump_sz - ?h)" using hd big by (simp add: of_nat_diff)
  moreover have "dump_sz - ?h < 2 ^ 64" using big by linarith
  ultimately have "u64_of_int (int dump_sz - int ?h) = dump_sz - ?h" by (simp only: u64_of_nat)
  moreover have "snprintf_str dump_sz (kmsg_header why) = kmsg_header why @ [NUL]" by fact
  ultimately show ?thesis using hd big get by (auto simp: md_kmsg_dump_def put_chars_def Let_def)
qed

end
