(* ===== verification/Md_Probe.thy ===== *)
theory Md_Probe
  imports Md_Log
begin

text \<open>
  Starting the minidump driver: \<^verbatim>\<open>msm_minidump_add_header\<close> and \<^verbatim>\<open>msm_minidump_driver_probe\<close>
  of \<^verbatim>\<open>minidump/msm_minidump.c\<close>.  Regions that were registered before the driver was probed
  wait in the pending list; the probe moves them into its table.
\<close>

subsection \<open>Environment\<close>

text \<open>
  What the kernel contributes to a probe: the device's compatible string, the resource manager,
  the SMEM item, the outcome of each allocation and the addresses of what was allocated.
\<close>

datatype smem_item = Smem_Err int | Smem_Null | Smem_Item md_global_toc nat

record probe_env =
  of_compatible_rm :: bool
  rm_get_info :: int
  rm_register :: "u64 \<Rightarrow> u64 \<Rightarrow> string \<Rightarrow> nat \<Rightarrow> int"
  smem_get :: smem_item
  alloc_table :: bool
  alloc_wq :: bool
  alloc_regions :: bool
  alloc_header :: bool
  alloc_request :: "nat \<Rightarrow> bool"
  table_addr :: u64
  regions_addr :: u64
  header_addr :: u64
  banner_addr :: u64
  virt_to_phys :: "u64 \<Rightarrow> u64"
  probe_log :: log_env

definition sizeof_global_toc :: nat where "sizeof_global_toc = 336"

subsection \<open>The header region\<close>

definition msm_minidump_add_header :: "probe_env \<Rightarrow> md_globals \<Rightarrow> (int \<times> md_globals) option" where
  "msm_minidump_add_header env s =
     (if \<not> alloc_header env
      then Some (- ENOMEM, s\<lparr>minidump_elfheader := (minidump_elfheader s)\<lparr>ehdr := None\<rparr>\<rparr>)
      else if is_rm_minidump s
      then (if rm_register env (virt_to_phys env (header_addr env)) (of_nat elfh_size) KELF_HDR
                (length KELF_HDR) < 0
            then Some (- EBUSY, s\<lparr>minidump_elfheader := (minidump_elfheader s)\<lparr>ehdr := Some zero_elfhdr\<rparr>\<rparr>)
            else do {
              eh \<leftarrow> fill_elf_header (table_addr env) (banner_addr env) (virt_to_phys env (banner_addr env));
              Some (0, s\<lparr>minidump_elfheader := eh\<rparr>) })
      else do {
        t \<leftarrow> minidump_table s;
        regs \<leftarrow> md_regions t;
        let mdreg = (regs 0)\<lparr>ssr_name := strscpy_str KELF_HDR MAX_REGION_NAME_LENGTH,
           region_base_address := virt_to_phys env (header_addr env),
           region_size := of_nat elfh_size\<rparr>;
        eh \<leftarrow> fill_elf_header (table_addr env) (banner_addr env) (virt_to_phys env (banner_addr env));
        let mdreg = mdreg\<lparr>md_valid := MD_REGION_VALID\<rparr>;
        Some (0, s\<lparr>minidump_table := Some (t\<lparr>md_regions := Some (regs(0 := mdreg))\<rparr>),
                   minidump_elfheader := eh\<rparr>) })"

subsection \<open>Moving the pending regions into the table\<close>

fun add_pending :: "(nat \<Rightarrow> bool) \<Rightarrow> nat \<Rightarrow> md_region list \<Rightarrow> md_globals \<Rightarrow> (int \<times> md_globals) option" where
  "add_pending alloc n [] s = Some (0, s)"
| "add_pending alloc n (r # rs) s =
     (if is_rm_minidump s
      then if \<not> alloc n then Some (- ENOMEM, s)
           else do {
             t \<leftarrow> minidump_rm_table s;
             _ \<leftarrow> (if n < MAX_NUM_ENTRIES then Some () else None);
             let e = (rm_entry t n)\<lparr>rmr_name := strscpy_str (mdr_name r) (MAX_NAME_LENGTH + 1)\<rparr>;
             let t = queue_rm_work \<lparr>rq_entry = r, work_cmd = MINIDUMP_ADD\<rparr>
                (t\<lparr>rm_entry := (rm_entry t)(n := e)\<rparr>);
             add_pending alloc (Suc n) rs (s\<lparr>minidump_rm_table := Some t, pending_list := rs\<rparr>) }
      else do {
        t \<leftarrow> minidump_table s;
        _ \<leftarrow> (if n < MAX_NUM_ENTRIES then Some () else None);
        s \<leftarrow> md_add_ss_toc r (s\<lparr>minidump_table := Some (t\<lparr>tbl_entry := (tbl_entry t)(n := r)\<rparr>)\<rparr>);
        add_pending alloc (Suc n) rs (s\<lparr>pending_list := rs\<rparr>) })"

subsection \<open>The probe\<close>

text \<open>
  The table that the probe allocates and publishes, before the header is added: \<open>Inl\<close> with the
  return value and the state where the probe gives up.  The release of device-managed memory
  after a failed probe is the driver core's and is not part of the model.
\<close>

definition probe_rm_table :: "probe_env \<Rightarrow> md_globals \<Rightarrow> (int \<times> md_globals) + md_globals" where
  "probe_rm_table env s =
     (if rm_get_info env < 0 then Inl (rm_get_info env, s)
      else if \<not> alloc_table env then Inl (- ENOMEM, s\<lparr>minidump_rm_table := None\<rparr>)
      else let s = s\<lparr>minidump_rm_table := Some \<lparr>minidump_rm_wq = [], rm_entry = (\<lambda>_. zero_rm_region)\<rparr>\<rparr>
           in if \<not> alloc_wq env then Inl (- EINVAL, s) else Inr s)"

definition probe_smem_table :: "probe_env \<Rightarrow> md_globals \<Rightarrow> (int \<times> md_globals) + md_globals" where
  "probe_smem_table env s =
     (case smem_get env of
        Smem_Err e \<Rightarrow> Inl (e, s)
      | Smem_Null \<Rightarrow> Inl (0, s)
      | Smem_Item toc sz \<Rightarrow>
          if sz < sizeof_global_toc \<or> md_toc_init toc = 0 then Inl (- ENODEV, s)
          else if \<not> alloc_table env then Inl (- ENOMEM, s\<lparr>minidump_table := None\<rparr>)
          else
            let ss_toc = (gbl_ss_toc toc ! MD_SS_HLOS_ID)\<lparr>encryption_status := MD_SS_ENCR_DONE,
                  encryption_required := MD_SS_ENCR_NOTREQ\<rparr>;
                t = \<lparr>tbl_revision = md_revision toc, tbl_ss_toc = Some ss_toc, md_gbl_toc = toc,
                  md_regions = None, tbl_entry = (\<lambda>_. zero_region)\<rparr>
            in if \<not> alloc_regions env then Inl (- ENOMEM, s\<lparr>minidump_table := Some t\<rparr>)
               else Inr (s\<lparr>minidump_table := Some (t\<lparr>md_regions := Some (\<lambda>_. zero_ss_region),
                  tbl_ss_toc := Some (ss_toc\<lparr>
                    md_ss_smem_regions_baseptr := virt_to_phys env (regions_addr env),
                    ss_region_count := 1\<rparr>)\<rparr>)\<rparr>))"

definition probe_table :: "probe_env \<Rightarrow> md_globals \<Rightarrow> (int \<times> md_globals) + md_globals" where
  "probe_table env s = (if is_rm_minidump s then probe_rm_table env s else probe_smem_table env s)"

definition enable_toc :: "md_globals \<Rightarrow> md_globals option" where
  "enable_toc s =
     (if is_rm_minidump s then Some s
      else do {
        t \<leftarrow> minidump_table s;
        toc \<leftarrow> tbl_ss_toc t;
        Some (s\<lparr>minidump_table := Some (t\<lparr>tbl_ss_toc :=
                 Some (toc\<lparr>md_ss_toc_init := 1, md_ss_enable_status := MD_SS_ENABLED\<rparr>)\<rparr>)\<rparr>) })"

definition msm_minidump_driver_probe ::
  "probe_env \<Rightarrow> md_log \<times> md_globals \<Rightarrow> (int \<times> md_log \<times> md_globals) option" where
  "msm_minidump_driver_probe env st =
     (let (lg, s) = st; s = s\<lparr>is_rm_minidump := of_compatible_rm env\<rparr>
      in case probe_table env s of
           Inl (e, s) \<Rightarrow> Some (e, lg, s)
         | Inr s \<Rightarrow> do {
             (_, s) \<leftarrow> msm_minidump_add_header env s;
             s \<leftarrow> enable_toc s;
             (ret, s) \<leftarrow> add_pending (alloc_request env) 0 (pending_list s) s;
             if ret \<noteq> 0 then Some (ret, lg, s)
             else do {
               let s = s\<lparr>md_init_done := True\<rparr>;
               (_, lg, s) \<leftarrow> msm_minidump_log_init (probe_log env) (lg, s);
               Some (0, lg, s) }})"

definition msm_minidump_driver_remove :: "md_globals \<Rightarrow> int \<times> md_globals" where
  "msm_minidump_driver_remove s = (0, s)"

subsection \<open>The pending regions end up in the table\<close>

text \<open>
  While the loop runs, \<open>num_regions\<close> already counts all pending regions; the first \<open>length D\<close> of
  them are in the table.
\<close>

definition pend_rep :: "md_region list \<Rightarrow> md_globals \<Rightarrow> bool" where
  "pend_rep D s \<longleftrightarrow> (\<exists>t toc regs. minidump_table s = Some t \<and> tbl_ss_toc t = Some toc \<and>
     md_regions t = Some regs \<and> toc_rep (length D) toc \<and> regions_rep D regs \<and>
     arr_list (tbl_entry t) (length D) = D)"

lemma add_pending_rep:
  assumes "pend_rep D s" and "\<not> is_rm_minidump s" and "num_regions s = length D + length P"
    and "length D + length P \<le> CONFIG_MINIDUMP_MAX_ENTRIES"
    and "distinct (map mdr_name (D @ P))" and "\<forall>r \<in> set P. wf_region r"
    and "pending_list s = P"
  shows "\<exists>t'. add_pending alloc (length D) P s = Some (0, s\<lparr>minidump_table := t', pending_list := []\<rparr>) \<and>
              pend_rep (D @ P) (s\<lparr>minidump_table := t', pending_list := []\<rparr>)"
  using assms
proof (induction P arbitrary: D s)
  case Nil
  then show ?case by (intro exI [of _ "minidump_table s"]) (simp add: pend_rep_def)
next
  case (Cons r P)
  from Cons.prems(1) obtain t toc regs where t: "minidump_table s = Some t" "tbl_ss_toc t = Some toc"
    "md_regions t = Some regs" and toc: "toc_rep (length D) toc" and reg: "regions_rep D regs"
    and ent: "arr_list (tbl_entry t) (length D) = D" by (auto simp: pend_rep_def)
  let ?t1 = "t\<lparr>tbl_entry := (tbl_entry t)(length D := r)\<rparr>"
  let ?s1 = "s\<lparr>minidump_table := Some ?t1\<rparr>"
  let ?t2 = "?t1\<lparr>tbl_entry := (tbl_entry ?t1)(num_regions s := r),
     md_regions := Some (regs(1 + length D := ss_of r)),
     tbl_ss_toc := Some (toc\<lparr>ss_region_count := 2 + length D\<rparr>)\<rparr>"
  have wf: "wf_region r" and fresh: "mdr_name r \<notin> set (map mdr_name D)"
    using Cons.prems(5,6) by auto
  have "md_add_ss_toc r ?s1 = Some (?s1\<lparr>minidump_table := Some ?t2\<rparr>)"
    using md_add_ss_toc_eq [of ?s1 ?t1 toc regs D r] t toc reg wf fresh Cons.prems(3,4)
    by (simp add: toc_rep_def md_consts)
  then have step: "add_pending alloc (length D) (r # P) s =
      add_pending alloc (length (D @ [r])) P (s\<lparr>minidump_table := Some ?t2, pending_list := P\<rparr>)"
    using Cons.prems(2,4) t by (simp add: md_consts)
  have "pend_rep (D @ [r]) (s\<lparr>minidump_table := Some ?t2, pending_list := P\<rparr>)"
    using toc regions_rep_snoc [OF reg, of r] ent Cons.prems(3)
    by (simp add: pend_rep_def toc_rep_def arr_list_snoc_upd arr_seg_Suc)
  from Cons.IH [OF this] Cons.prems step show ?case by (simp add: fun_upd_def)
qed

subsection \<open>A successful probe\<close>

definition probe_base :: "probe_env \<Rightarrow> elf_base" where
  "probe_base env = \<lparr>table_va = table_addr env, banner_va = banner_addr env,
     banner_pa = virt_to_phys env (banner_addr env)\<rparr>"

text \<open>The environment lets a probe on the SMEM table get through.\<close>

definition smem_ready :: "probe_env \<Rightarrow> bool" where
  "smem_ready env \<longleftrightarrow> \<not> of_compatible_rm env \<and> alloc_table env \<and> alloc_regions env \<and> alloc_header env \<and>
     (case smem_get env of Smem_Item toc sz \<Rightarrow> sizeof_global_toc \<le> sz \<and> md_toc_init toc \<noteq> 0 | _ \<Rightarrow> False)"

text \<open>The driver before the probe: only the pending list and its count matter.\<close>

definition unprobed :: "md_region list \<Rightarrow> md_globals \<Rightarrow> bool" where
  "unprobed P s \<longleftrightarrow> pending_list s = P \<and> num_regions s = length P \<and> distinct (map mdr_name P) \<and>
     (\<forall>r \<in> set P. wf_region r) \<and> length P \<le> CONFIG_MINIDUMP_MAX_ENTRIES"

lemma probe_table_smem:
  assumes "smem_ready env" and "\<not> is_rm_minidump s"
  shows "\<exists>t toc. probe_table env s = Inr (s\<lparr>minidump_table := Some t\<rparr>) \<and> tbl_ss_toc t = Some toc \<and>
     md_regions t = Some (\<lambda>_. zero_ss_region) \<and> ss_region_count toc = 1"
  using assms
  by (auto simp: smem_ready_def probe_table_def probe_smem_table_def Let_def split: smem_item.splits)

lemma add_header_smem:
  assumes "alloc_header env" and "\<not> is_rm_minidump s" and "minidump_table s = Some t"
    and "tbl_ss_toc t = Some toc" and "md_regions t = Some (\<lambda>_. zero_ss_region)"
    and "ss_region_count toc = 1"
  shows "\<exists>t' eh. (msm_minidump_add_header env s \<bind> (\<lambda>(_, s). enable_toc s)) =
       Some (s\<lparr>minidump_table := Some t', minidump_elfheader := eh\<rparr>) \<and>
     elf_rep (probe_base env) [] eh \<and> pend_rep [] (s\<lparr>minidump_table := Some t', minidump_elfheader := eh\<rparr>)"
proof -
  obtain eh where "fill_elf_header (table_addr env) (banner_addr env) (virt_to_phys env (banner_addr env))
      = Some eh" "elf_rep (probe_base env) [] eh"
    using fill_elf_header_rep unfolding probe_base_def by blast
  moreover define t' where "t' = t\<lparr>md_regions := Some ((\<lambda>_. zero_ss_region)(0 := zero_ss_region\<lparr>
      ssr_name := KELF_HDR, region_base_address := virt_to_phys env (header_addr env),
      region_size := of_nat elfh_size, md_valid := MD_REGION_VALID\<rparr>)),
    tbl_ss_toc := Some (toc\<lparr>md_ss_toc_init := 1, md_ss_enable_status := MD_SS_ENABLED\<rparr>)\<rparr>"
  moreover have "pend_rep [] (s\<lparr>minidump_table := Some t', minidump_elfheader := eh\<rparr>)" for eh
    using assms(6)
    by (simp add: t'_def pend_rep_def toc_rep_def regions_rep_def zero_ss_region_def)
  ultimately show ?thesis using assms
    by (intro exI [of _ t'] exI [of _ eh])
      (simp add: msm_minidump_add_header_def enable_toc_def Let_def KELF_HDR_def md_consts)
qed

text \<open>Before the kernel log is registered, the driver holds the pending regions and no other.\<close>

lemma probe_smem_table_ready:
  assumes env: "smem_ready env" and s: "unprobed P s"
  shows "\<exists>s'. drv_rep (probe_base env) (length P) P s' \<and> pending_list s' = [] \<and>
     first_removed_entry s' = first_removed_entry s \<and>
     msm_minidump_driver_probe env (lg, s) =
       (msm_minidump_log_init (probe_log env) (lg, s') \<bind> (\<lambda>(_, lg, s). Some (0, lg, s)))"
proof -
  let ?s0 = "s\<lparr>is_rm_minidump := False\<rparr>"
  have rm: "of_compatible_rm env = False" and al: "alloc_header env"
    using env by (auto simp: smem_ready_def)
  obtain t toc where t: "probe_table env ?s0 = Inr (?s0\<lparr>minidump_table := Some t\<rparr>)"
    "tbl_ss_toc t = Some toc" "md_regions t = Some (\<lambda>_. zero_ss_region)" "ss_region_count toc = 1"
    using probe_table_smem [OF env, of ?s0] by auto
  obtain t1 eh where h: "(msm_minidump_add_header env (?s0\<lparr>minidump_table := Some t\<rparr>) \<bind>
        (\<lambda>(_, s). enable_toc s)) = Some (?s0\<lparr>minidump_table := Some t1, minidump_elfheader := eh\<rparr>)"
    and eh: "elf_rep (probe_base env) [] eh"
    and pr: "pend_rep [] (?s0\<lparr>minidump_table := Some t1, minidump_elfheader := eh\<rparr>)"
    using add_header_smem [OF al, of "?s0\<lparr>minidump_table := Some t\<rparr>" t toc] t by auto
  from add_pending_rep [OF pr, of P "alloc_request env"] s obtain t2 where
    p: "add_pending (alloc_request env) 0 P (?s0\<lparr>minidump_table := Some t1, minidump_elfheader := eh\<rparr>) =
      Some (0, ?s0\<lparr>minidump_elfheader := eh, minidump_table := t2, pending_list := []\<rparr>)"
    and pr2: "pend_rep P (?s0\<lparr>minidump_elfheader := eh, minidump_table := t2, pending_list := []\<rparr>)"
    by (auto simp: unprobed_def)
  let ?s' = "?s0\<lparr>minidump_elfheader := eh, minidump_table := t2, pending_list := [], md_init_done := True\<rparr>"
  have "msm_minidump_driver_probe env (lg, s) =
      (msm_minidump_log_init (probe_log env) (lg, ?s') \<bind> (\<lambda>(_, lg, s). Some (0, lg, s)))"
    using t(1) h p s rm
    by (auto simp: msm_minidump_driver_probe_def Let_def unprobed_def bind_eq_Some_conv)
  moreover have "drv_rep (probe_base env) (length P) P ?s'"
    using pr2 eh s by (auto simp: drv_rep_def smem_rep_def table_rep_def pend_rep_def unprobed_def)
  ultimately show ?thesis by (intro exI [of _ ?s']) simp
qed

text \<open>The environment lets the kernel log be registered.\<close>

definition log_ready :: "log_env \<Rightarrow> u64 \<Rightarrow> bool" where
  "log_ready env p \<longleftrightarrow> kmsg_alloc env = Some p \<and> 0 \<le> kmsg_dump_register env"

lemma log_init_add:
  assumes "log_ready env p"
  shows "msm_minidump_log_init env (lg, s) = do {
     (ret, s) \<leftarrow> msm_minidump_add_region (log_alloc env)
        (Some (kmsg_region env (lg\<lparr>kmsg_buf := Some p, kmsg_registered := True\<rparr>) p)) s;
     if ret < 0 then Some (ret, lg\<lparr>kmsg_buf := Some p, kmsg_registered := False\<rparr>, s)
     else Some (0, lg\<lparr>kmsg_buf := Some p, kmsg_registered := True, is_vmap_stack := config_vmap_stack env\<rparr>, s) }"
  using assms
  by (cases "msm_minidump_add_region (log_alloc env)
        (Some (kmsg_region env (lg\<lparr>kmsg_buf := Some p, kmsg_registered := True\<rparr>) p)) s")
    (auto simp: log_ready_def msm_minidump_log_init_def md_kmsg_dump_register_def Let_def)

lemma kmsg_region_simps [simp]:
  "mdr_name (kmsg_region env lg p) = ''KMSG''" "virt_addr (kmsg_region env lg p) = p"
  "mdr_size (kmsg_region env lg p) = of_nat (kmsg_dump_sz lg)"
  by (simp_all add: kmsg_region_def md_consts)

lemma kmsg_region_log [simp]:
  "kmsg_region env (lg\<lparr>kmsg_buf := a\<rparr>) p = kmsg_region env lg p"
  "kmsg_region env (lg\<lparr>kmsg_registered := b\<rparr>) p = kmsg_region env lg p"
  by (simp_all add: kmsg_region_def)

lemma probe_smem_ok:
  assumes env: "smem_ready env" and log: "log_ready (probe_log env) p" and s: "unprobed P s"
    and room: "length P < CONFIG_MINIDUMP_MAX_ENTRIES"
    and fresh: "''KMSG'' \<notin> set (map mdr_name P)" and wf: "wf_region (kmsg_region (probe_log env) lg p)"
  shows "\<exists>lg' s'. msm_minidump_driver_probe env (lg, s) = Some (0, lg', s') \<and>
    drv_rep (probe_base env) (length P) (P @ [kmsg_region (probe_log env) lg p]) s' \<and>
    first_removed_entry s' = first_removed_entry s \<and> pending_list s' = []"
proof -
  let ?k = "kmsg_region (probe_log env) lg p"
  obtain s1 where s1: "drv_rep (probe_base env) (length P) P s1" "pending_list s1 = []"
    "first_removed_entry s1 = first_removed_entry s"
    "msm_minidump_driver_probe env (lg, s) =
       (msm_minidump_log_init (probe_log env) (lg, s1) \<bind> (\<lambda>(_, lg, s). Some (0, lg, s)))"
    using probe_smem_table_ready [OF env s, of lg] by blast
  obtain s' where s': "msm_minidump_add_region (log_alloc (probe_log env)) (Some ?k) s1 = Some (int (length P), s')"
    "drv_rep (probe_base env) (length P) (P @ [?k]) s'" "first_removed_entry s' = first_removed_entry s1"
    using add_region_ok [OF s1(1) wf _ room, of "log_alloc (probe_log env)"] fresh by (auto simp: md_consts)
  have "pending_list s' = pending_list s1"
    using s'(1) by (rule add_region_pending) (use s1(1) in auto)
  with s1 s' log show ?thesis by (simp add: log_init_add)
qed

end
