(* ===== verification/Rm_Machine.thy ===== *)
theory Rm_Machine
  imports Md_Probe
begin

text \<open>
  The resource manager's work queue at work.  One work function runs at a time (the queue is
  created with one active work), and it releases the driver's lock around each call of the
  resource manager.  A step of the machine is a call of the driver's interface, the start of the
  oldest queued work, or the continuation of the running work after the resource manager has
  answered, with any answer.  Registrations and removals hold the spin lock that the sections of
  the work functions hold, and are one step.  An update does not: the table can change while it
  searches for the name, so that its search may have any result.  It fails, which changes nothing,
  or it goes on to queue its request in whatever state the machine is in then (\<open>late_update\<close>).
\<close>

subsection \<open>The machine\<close>

type_synonym rm_state = "md_globals \<times> rm_pc option"

definition rm_start :: "md_rm_request \<Rightarrow> md_globals \<Rightarrow> (rm_pc option \<times> md_globals) option" where
  "rm_start rq s =
     (case work_cmd rq of
        MINIDUMP_ADD \<Rightarrow> md_rm_add_work_start (rq_entry rq) s
      | MINIDUMP_REMOVE \<Rightarrow> md_rm_remove_work_start (rq_entry rq) s
      | MINIDUMP_UPDATE \<Rightarrow> md_rm_update_work_start (rq_entry rq) s
      | MINIDUMP_NO_CMD \<Rightarrow> Some (None, s))"

fun rm_resume :: "rm_pc \<Rightarrow> int \<Rightarrow> md_globals \<Rightarrow> (rm_pc option \<times> md_globals) option" where
  "rm_resume (Rm_Add_Register e n) ret s = map_option (Pair None) (md_rm_add_work_registered e n ret s)"
| "rm_resume (Rm_Remove_Deregister e n slot) ret s =
     map_option (Pair None) (md_rm_remove_work_deregistered e n ret s)"
| "rm_resume (Rm_Update_Deregister e n slot) ret s = Some (md_rm_update_work_deregistered e n ret, s)"
| "rm_resume (Rm_Update_Register e n) ret s =
     map_option (Pair None) (md_rm_update_work_registered e n ret s)"

definition rm_pop :: "md_globals \<Rightarrow> (md_rm_request \<times> md_globals) option" where
  "rm_pop s = (case minidump_rm_table s of
     None \<Rightarrow> None
   | Some t \<Rightarrow> (case minidump_rm_wq t of
        [] \<Rightarrow> None
      | rq # rqs \<Rightarrow> Some (rq, s\<lparr>minidump_rm_table := Some (t\<lparr>minidump_rm_wq := rqs\<rparr>)\<rparr>)))"

text \<open>A call of the interface; \<open>alloc\<close> says whether the request can be allocated.\<close>

fun md_call :: "bool \<Rightarrow> md_op \<Rightarrow> md_globals \<Rightarrow> (int \<times> md_globals) option" where
  "md_call alloc (Op_Add e) s = msm_minidump_add_region alloc (Some e) s"
| "md_call alloc (Op_Remove e) s = msm_minidump_remove_region alloc (Some e) s"
| "md_call alloc (Op_Update k e) s = msm_minidump_update_region alloc (int k) (Some e) s"

text \<open>
  What the callers keep to.  Names are C strings.  A region to add that passes the driver's
  validation has a positive size below \<open>2 ^ 52\<close>, and no such region is added once
  \<^const>\<open>MAX_ELF_REGIONS\<close> (197) are in the table: the driver admits up to 201, but the
  section header of region 198 lies outside its table (\<open>rm_add_198\<close>).  A region to remove, which
  the driver does not validate, is valid.
\<close>

fun client_ok :: "md_op \<Rightarrow> md_globals \<Rightarrow> bool" where
  "client_ok (Op_Add e) s \<longleftrightarrow> cstring (mdr_name e) \<and>
     (validate_region (Some e) = 0 \<longrightarrow> sized e \<and> num_regions s < MAX_ELF_REGIONS)"
| "client_ok (Op_Remove e) s \<longleftrightarrow> wf_region e"
| "client_ok (Op_Update k e) s \<longleftrightarrow> cstring (mdr_name e)"

inductive rm_step :: "rm_state \<Rightarrow> rm_state \<Rightarrow> bool" where
  client: "client_ok op s \<Longrightarrow> md_call alloc op s = Some (r, s') \<Longrightarrow> rm_step (s, run) (s', run)"
| late_update: "cstring (mdr_name e) \<Longrightarrow> validate_region (Some e) = 0 \<Longrightarrow>
    queue_request MINIDUMP_UPDATE e s = Some s' \<Longrightarrow> rm_step (s, run) (s', run)"
| start: "rm_pop s = Some (rq, s1) \<Longrightarrow> rm_start rq s1 = Some (run, s') \<Longrightarrow> rm_step (s, None) (s', run)"
| resume: "rm_resume pc ret s = Some (run, s') \<Longrightarrow> rm_step (s, Some pc) (s', run)"

inductive rm_reach :: "rm_state \<Rightarrow> rm_state \<Rightarrow> bool" for st0 where
  init: "rm_reach st0 st0"
| step: "rm_reach st0 st \<Longrightarrow> rm_step st st' \<Longrightarrow> rm_reach st0 st'"

inductive_cases rm_stepE: "rm_step (s, run) st'"

subsection \<open>The invariant\<close>

text \<open>
  The regions whose registration is still to come: the running one and the queued ones, oldest
  first.
\<close>

definition add_of :: "md_rm_request \<Rightarrow> md_region list" where
  "add_of rq = (if work_cmd rq = MINIDUMP_ADD then [rq_entry rq] else [])"

fun running_add :: "rm_pc option \<Rightarrow> md_region list" where
  "running_add (Some (Rm_Add_Register e n)) = [e]"
| "running_add _ = []"

definition to_come :: "rm_pc option \<Rightarrow> md_rm_table \<Rightarrow> md_region list" where
  "to_come run t = running_add run @ concat (map add_of (minidump_rm_wq t))"

text \<open>The running work remembers the index of the entry that it works on.\<close>

fun pc_at :: "string list \<Rightarrow> nat \<Rightarrow> rm_pc \<Rightarrow> bool" where
  "pc_at names live (Rm_Add_Register e n) \<longleftrightarrow> n = live"
| "pc_at names live (Rm_Remove_Deregister e n slot) \<longleftrightarrow>
     n < length names \<and> names ! n = mdr_name e \<and> wf_region e"
| "pc_at names live (Rm_Update_Deregister e n slot) \<longleftrightarrow>
     n < length names \<and> names ! n = mdr_name e \<and> wf_region e"
| "pc_at names live (Rm_Update_Register e n) \<longleftrightarrow>
     n < length names \<and> names ! n = mdr_name e \<and> wf_region e"

definition rm_names :: "md_globals \<Rightarrow> md_rm_table \<Rightarrow> string list" where
  "rm_names s t = map rmr_name (arr_list (rm_entry t) (num_regions s))"

definition rm_slots :: "md_globals \<Rightarrow> md_rm_table \<Rightarrow> int list" where
  "rm_slots s t = map slot_num (arr_list (rm_entry t) (num_regions s))"

definition rm_rep :: "elf_base \<Rightarrow> md_region list \<Rightarrow> md_region list \<Rightarrow> md_rm_table \<Rightarrow> md_globals \<Rightarrow> bool" where
  "rm_rep bs L A t s \<longleftrightarrow> is_rm_minidump s \<and> md_init_done s \<and> minidump_rm_table s = Some t \<and>
     elf_rep bs L (minidump_elfheader s) \<and> rm_names s t = map mdr_name (L @ A) \<and>
     distinct (map mdr_name (L @ A)) \<and> (\<forall>r \<in> set (L @ A). wf_region r \<and> sized r) \<and>
     length (L @ A) \<le> MAX_ELF_REGIONS"

definition rm_inv :: "elf_base \<Rightarrow> rm_state \<Rightarrow> bool" where
  "rm_inv bs st \<longleftrightarrow> (\<exists>t L. rm_rep bs L (to_come (snd st) t) t (fst st) \<and>
     (\<forall>rq \<in> set (minidump_rm_wq t). wf_region (rq_entry rq)) \<and>
     (case snd st of None \<Rightarrow> True | Some pc \<Rightarrow> pc_at (map mdr_name (L @ to_come (snd st) t)) (length L) pc))"

lemma rm_names_length [simp]: "length (rm_names s t) = num_regions s"
  by (simp add: rm_names_def)

lemma rm_rep_num: "rm_rep bs L A t s \<Longrightarrow> num_regions s = length L + length A"
  unfolding rm_rep_def by (metis length_append length_map rm_names_length)

lemma rm_names_nth: "i < num_regions s \<Longrightarrow> rm_names s t ! i = rmr_name (rm_entry t i)"
  by (simp add: rm_names_def)

lemma rm_rep_entry:
  "rm_rep bs L A t s \<Longrightarrow> i < num_regions s \<Longrightarrow> rmr_name (rm_entry t i) = mdr_name ((L @ A) ! i)"
  using rm_names_nth [of i s t] rm_rep_num [of bs L A t s] nth_map [of i "L @ A" mdr_name]
  by (simp add: rm_rep_def del: map_append)

lemma rm_entry_num_index:
  assumes rep: "rm_rep bs L A t s"
  shows "md_rm_entry_num e s =
    Some (case name_index (L @ A) (mdr_name e) of None \<Rightarrow> - ENOENT | Some k \<Rightarrow> int k)"
proof -
  have "find (\<lambda>i. rmr_name (rm_entry t i) = mdr_name e) [0..<num_regions s] =
      name_index (L @ A) (mdr_name e)"
    unfolding name_index_def rm_rep_num [OF rep] length_append
    by (rule find_upt_cong) (use rm_rep_entry [OF rep] rm_rep_num [OF rep] in auto)
  moreover have "num_regions s \<le> MAX_NUM_ENTRIES"
    using rep rm_rep_num [OF rep] by (simp add: rm_rep_def MAX_ELF_REGIONS_def md_consts)
  ultimately show ?thesis using rep by (simp add: md_rm_entry_num_def rm_rep_def)
qed

lemma name_index_distinct:
  assumes "distinct (map mdr_name L)" and "k < length L"
  shows "name_index L (mdr_name (L ! k)) = Some k"
  unfolding name_index_def
  by (rule find_upt_first) (use assms distinct_names_inj [OF assms(1), of _ k] in auto)

subsection \<open>The table's entries\<close>

lemma put_rm_entry_rep:
  assumes rep: "rm_rep bs L A t s" and i: "i < num_regions s" and v: "rmr_name v = rmr_name (rm_entry t i)"
  shows "put_rm_entry i v s = Some (s\<lparr>minidump_rm_table := Some (t\<lparr>rm_entry := (rm_entry t)(i := v)\<rparr>)\<rparr>)"
    and "rm_rep bs L A (t\<lparr>rm_entry := (rm_entry t)(i := v)\<rparr>)
      (s\<lparr>minidump_rm_table := Some (t\<lparr>rm_entry := (rm_entry t)(i := v)\<rparr>)\<rparr>)"
proof -
  show "put_rm_entry i v s = Some (s\<lparr>minidump_rm_table := Some (t\<lparr>rm_entry := (rm_entry t)(i := v)\<rparr>)\<rparr>)"
    using rep i rm_rep_num [OF rep]
    by (simp add: put_rm_entry_def rm_rep_def MAX_ELF_REGIONS_def md_consts)
  have "map rmr_name (arr_list ((rm_entry t)(i := v)) (num_regions s)) = rm_names s t"
    using v i by (auto simp: list_eq_iff_nth_eq rm_names_def)
  then show "rm_rep bs L A (t\<lparr>rm_entry := (rm_entry t)(i := v)\<rparr>)
      (s\<lparr>minidump_rm_table := Some (t\<lparr>rm_entry := (rm_entry t)(i := v)\<rparr>)\<rparr>)"
    using rep by (simp add: rm_rep_def rm_names_def)
qed

lemma remove_nth_left: "k < length L \<Longrightarrow> remove_nth k (L @ A) = remove_nth k L @ A"
  by (simp add: remove_nth_def)

lemma remove_nth_mid [simp]: "remove_nth (length L) (L @ a # A) = L @ A"
  by (simp add: remove_nth_def)

lemma rm_rep_dropI:
  assumes rep: "rm_rep bs L A t s" and i: "i < num_regions s" and LA: "L' @ A' = remove_nth i (L @ A)"
    and elf: "elf_rep bs L' eh" and s': "s' = s\<lparr>minidump_elfheader := eh\<rparr>"
  shows "\<exists>t'' s''. drop_rm_entry i s' = Some s'' \<and> minidump_rm_wq t'' = minidump_rm_wq t \<and>
    rm_rep bs L' A' t'' s'' \<and> rm_slots s'' t'' = remove_nth i (rm_slots s t)"
proof -
  have i': "i < length (L @ A)" using i rm_rep_num [OF rep] by simp
  let ?f = "memmove (rm_entry t) i (i + 1) (num_regions s - i - 1)"
  let ?t = "t\<lparr>rm_entry := ?f(num_regions s - 1 := zero_rm_region)\<rparr>"
  let ?s = "s'\<lparr>minidump_rm_table := Some ?t, num_regions := num_regions s - 1\<rparr>"
  have "drop_rm_entry i s' = Some ?s"
    using rep i rm_rep_num [OF rep]
    by (simp add: drop_rm_entry_def rm_rep_def Let_def MAX_ELF_REGIONS_def md_consts s')
  moreover have "map rmr_name (arr_list ?f (num_regions s - 1)) = remove_nth i (rm_names s t)"
    and "map slot_num (arr_list ?f (num_regions s - 1)) = remove_nth i (rm_slots s t)"
    using arr_list_memmove_gap [OF i, of "rm_entry t"]
    by (simp_all add: rm_names_def rm_slots_def remove_nth_def take_map drop_map)
  then have "rm_names ?s ?t = map mdr_name (L' @ A')" and "rm_slots ?s ?t = remove_nth i (rm_slots s t)"
    using rep unfolding LA by (simp_all add: rm_rep_def rm_names_def rm_slots_def map_remove_nth del: map_append)
  moreover have "distinct (map mdr_name (L' @ A'))"
    using rep unfolding LA map_remove_nth by (intro distinct_remove_nth) (simp add: rm_rep_def)
  moreover have "\<forall>r \<in> set (L' @ A'). wf_region r \<and> sized r"
    using rep set_remove_nth_subset [of i "L @ A"] unfolding LA rm_rep_def by blast
  moreover have "length (L' @ A') \<le> MAX_ELF_REGIONS"
    using rep i' unfolding LA by (simp add: rm_rep_def) linarith
  ultimately show ?thesis
    using rep elf s' by (intro exI [of _ ?t] exI [of _ ?s]) (simp add: rm_rep_def del: map_append)
qed

subsection \<open>Every section keeps the invariant\<close>

lemma rm_invI:
  assumes "rm_rep bs L (to_come run t) t s" and "\<forall>rq \<in> set (minidump_rm_wq t). wf_region (rq_entry rq)"
    and "\<And>pc. run = Some pc \<Longrightarrow> pc_at (map mdr_name (L @ to_come run t)) (length L) pc"
  shows "rm_inv bs (s, run)"
  unfolding rm_inv_def
  using assms by (intro exI [of _ t] exI [of _ L]) (auto split: option.splits)

lemma rm_invE:
  assumes "rm_inv bs (s, run)"
  obtains t L where "rm_rep bs L (to_come run t) t s"
    and "\<forall>rq \<in> set (minidump_rm_wq t). wf_region (rq_entry rq)"
    and "\<And>pc. run = Some pc \<Longrightarrow> pc_at (map mdr_name (L @ to_come run t)) (length L) pc"
  using assms unfolding rm_inv_def by (auto split: option.splits)

lemma to_come_entry [simp]: "to_come run (t\<lparr>rm_entry := f\<rparr>) = to_come run t"
  by (simp add: to_come_def)

text \<open>The oldest request is taken off the queue; its own registration, if any, comes next.\<close>

lemma rm_popE:
  assumes inv: "rm_inv bs (s, None)" and pop: "rm_pop s = Some (rq, s1)"
  obtains t L where "rm_rep bs L (add_of rq @ to_come None t) t s1"
    and "\<forall>rq \<in> set (minidump_rm_wq t). wf_region (rq_entry rq)" and "wf_region (rq_entry rq)"
proof -
  from inv obtain t L where rep: "rm_rep bs L (to_come None t) t s"
    and wq: "\<forall>rq \<in> set (minidump_rm_wq t). wf_region (rq_entry rq)" by (rule rm_invE) auto
  from pop rep obtain rqs where q: "minidump_rm_wq t = rq # rqs"
    and s1: "s1 = s\<lparr>minidump_rm_table := Some (t\<lparr>minidump_rm_wq := rqs\<rparr>)\<rparr>"
    by (auto simp: rm_pop_def rm_rep_def split: list.splits)
  show ?thesis
    by (rule that [of L "t\<lparr>minidump_rm_wq := rqs\<rparr>"])
      (use rep q wq in \<open>simp_all add: rm_rep_def rm_names_def s1 to_come_def\<close>)
qed

lemma rm_start_add:
  assumes rep: "rm_rep bs L (e # to_come None t) t s"
    and wq: "\<forall>rq \<in> set (minidump_rm_wq t). wf_region (rq_entry rq)"
  shows "\<exists>run. md_rm_add_work_start e s = Some (run, s) \<and> rm_inv bs (s, run)"
proof -
  have "name_index (L @ e # to_come None t) (mdr_name ((L @ e # to_come None t) ! length L)) = Some (length L)"
    by (rule name_index_distinct) (use rep in \<open>simp_all add: rm_rep_def\<close>)
  then have "md_rm_add_work_start e s = Some (Some (Rm_Add_Register e (length L)), s)"
    using rm_entry_num_index [OF rep, of e] by (simp add: md_rm_add_work_start_def)
  moreover have "rm_inv bs (s, Some (Rm_Add_Register e (length L)))"
    by (rule rm_invI [OF _ wq]) (use rep in \<open>simp_all add: to_come_def\<close>)
  ultimately show ?thesis by blast
qed

text \<open>A removal or an update clears the slot number of the entry that it has found.\<close>

lemma rm_put_inv:
  assumes rep: "rm_rep bs L (to_come None t) t s"
    and wq: "\<forall>rq \<in> set (minidump_rm_wq t). wf_region (rq_entry rq)" and wf: "wf_region e"
    and k: "name_index (L @ to_come None t) (mdr_name e) = Some k" and v: "rmr_name v = rmr_name (rm_entry t k)"
    and pc: "pc \<in> {Rm_Remove_Deregister e k slot, Rm_Update_Deregister e k slot}"
  shows "\<exists>s'. put_rm_entry k v s = Some s' \<and> rm_inv bs (s', Some pc)"
proof -
  let ?t = "t\<lparr>rm_entry := (rm_entry t)(k := v)\<rparr>"
  have k': "k < num_regions s" "k < length (L @ to_come None t)"
    using name_index_Some [OF k] rm_rep_num [OF rep] by auto
  have at: "pc_at (map mdr_name (L @ to_come None t)) (length L) pc"
    using name_index_Some [OF k] nth_map [OF k'(2), of mdr_name] pc wf by (auto simp del: map_append)
  have "to_come (Some pc) ?t = to_come None t" using pc by (auto simp: to_come_def)
  then have "rm_inv bs (s\<lparr>minidump_rm_table := Some ?t\<rparr>, Some pc)"
    using put_rm_entry_rep(2) [OF rep k'(1) v] wq at by (intro rm_invI [where t = ?t and L = L]) simp_all
  then show ?thesis using put_rm_entry_rep(1) [OF rep k'(1) v] by blast
qed

lemma rm_start_existing:
  assumes rep: "rm_rep bs L (to_come None t) t s"
    and wq: "\<forall>rq \<in> set (minidump_rm_wq t). wf_region (rq_entry rq)" and wf: "wf_region e"
  shows "\<exists>run s'. md_rm_remove_work_start e s = Some (run, s') \<and> rm_inv bs (s', run)"
    and "\<exists>run s'. md_rm_update_work_start e s = Some (run, s') \<and> rm_inv bs (s', run)"
proof -
  note num = rm_entry_num_index [OF rep, of e]
  have keep: "rm_inv bs (s, None)" by (rule rm_invI [OF rep wq]) simp
  have tb: "minidump_rm_table s = Some t" using rep by (simp add: rm_rep_def)
  have put: "\<exists>s'. put_rm_entry k ((rm_entry t k)\<lparr>slot_num := 0\<rparr>) s = Some s' \<and> rm_inv bs (s', Some pc)"
    if "name_index (L @ to_come None t) (mdr_name e) = Some k"
      and "pc \<in> {Rm_Remove_Deregister e k slot, Rm_Update_Deregister e k slot}" for k pc slot
    by (rule rm_put_inv [OF rep wq wf that(1) _ that(2)]) simp
  show "\<exists>run s'. md_rm_remove_work_start e s = Some (run, s') \<and> rm_inv bs (s', run)"
    using num keep tb put [of _ "Rm_Remove_Deregister e k slot" slot for k slot]
    by (cases "name_index (L @ to_come None t) (mdr_name e)")
      (fastforce simp: md_rm_remove_work_start_def Let_def errno_defs)+
  show "\<exists>run s'. md_rm_update_work_start e s = Some (run, s') \<and> rm_inv bs (s', run)"
    using num keep tb put [of _ "Rm_Update_Deregister e k slot" slot for k slot]
    by (cases "name_index (L @ to_come None t) (mdr_name e)")
      (fastforce simp: md_rm_update_work_start_def Let_def errno_defs)+
qed

lemma rm_start_inv:
  assumes inv: "rm_inv bs (s, None)" and pop: "rm_pop s = Some (rq, s1)"
  shows "\<exists>run s'. rm_start rq s1 = Some (run, s') \<and> rm_inv bs (s', run)"
proof -
  from inv pop obtain t L where rep: "rm_rep bs L (add_of rq @ to_come None t) t s1"
    and wq: "\<forall>rq \<in> set (minidump_rm_wq t). wf_region (rq_entry rq)" and wf: "wf_region (rq_entry rq)"
    by (rule rm_popE)
  show ?thesis
    using rep rm_start_add [of bs L "rq_entry rq" t s1] rm_start_existing [of bs L t s1 "rq_entry rq"]
      rm_invI [of bs L None t s1] wq wf
    by (cases "work_cmd rq") (auto simp: rm_start_def add_of_def)
qed

lemma add_registered_inv:
  assumes inv: "rm_inv bs (s, Some (Rm_Add_Register e n))"
  shows "\<exists>s'. md_rm_add_work_registered e n ret s = Some s' \<and> rm_inv bs (s', None)"
proof -
  from inv obtain t L where rep: "rm_rep bs L (e # to_come None t) t s"
    and wq: "\<forall>rq \<in> set (minidump_rm_wq t). wf_region (rq_entry rq)" and n: "n = length L"
    by (rule rm_invE) (simp add: to_come_def)
  have tb: "minidump_rm_table s = Some t" and elf: "elf_rep bs L (minidump_elfheader s)"
    and wf: "wf_region e" using rep by (auto simp: rm_rep_def)
  have nn: "n < num_regions s" using rm_rep_num [OF rep] n by simp
  show ?thesis
  proof (cases "ret < 0")
    case True
    obtain t' s' where "drop_rm_entry n s = Some s'" "minidump_rm_wq t' = minidump_rm_wq t"
      "rm_rep bs L (to_come None t) t' s'"
      using rm_rep_dropI [OF rep nn, of L "to_come None t" "minidump_elfheader s" s] elf n by auto
    moreover have "to_come None t' = to_come None t" using calculation(2) by (simp add: to_come_def)
    ultimately show ?thesis using True wq
      by (auto simp: md_rm_add_work_registered_def intro!: rm_invI [of bs L None t'])
  next
    case False
    let ?t = "t\<lparr>rm_entry := (rm_entry t)(n := (rm_entry t n)\<lparr>slot_num := ret\<rparr>)\<rparr>"
    let ?s = "s\<lparr>minidump_rm_table := Some ?t\<rparr>"
    note put = put_rm_entry_rep [OF rep nn, of "(rm_entry t n)\<lparr>slot_num := ret\<rparr>"]
    have nm: "mdr_name e = rmr_name (rm_entry t n)" using rm_rep_entry [OF rep nn] n by simp
    have room: "length L + 5 \<le> MAX_NUM_ENTRIES"
      using rep by (simp add: rm_rep_def MAX_ELF_REGIONS_def md_consts)
    obtain eh where eh: "md_add_elf_header e (minidump_elfheader s) = Some eh" "elf_rep bs (L @ [e]) eh"
      using md_add_elf_header_rep [OF elf wf room] by blast
    have "md_rm_add_work_registered e n ret s = Some (?s\<lparr>minidump_elfheader := eh\<rparr>)"
      using False tb nm put(1) eh(1) by (simp add: md_rm_add_work_registered_def)
    moreover have "rm_rep bs (L @ [e]) (to_come None ?t) ?t (?s\<lparr>minidump_elfheader := eh\<rparr>)"
      using put(2) eh(2) by (simp add: rm_rep_def rm_names_def to_come_def)
    then have "rm_inv bs (?s\<lparr>minidump_elfheader := eh\<rparr>, None)"
      by (rule rm_invI) (use wq in simp_all)
    ultimately show ?thesis by blast
  qed
qed

lemma rm_pc_quietE:
  assumes "rm_inv bs (s, Some pc)"
    and "pc \<in> {Rm_Remove_Deregister e n slot, Rm_Update_Deregister e n slot, Rm_Update_Register e n}"
  obtains t L where "rm_rep bs L (to_come None t) t s" and "minidump_rm_table s = Some t"
    and "\<forall>rq \<in> set (minidump_rm_wq t). wf_region (rq_entry rq)" and "n < num_regions s"
    and "mdr_name ((L @ to_come None t) ! n) = mdr_name e" and "rmr_name (rm_entry t n) = mdr_name e"
    and "wf_region e" and "rm_inv bs (s, None)"
proof -
  from assms(1) obtain t L where rep: "rm_rep bs L (to_come (Some pc) t) t s"
    and wq: "\<forall>rq \<in> set (minidump_rm_wq t). wf_region (rq_entry rq)"
    and at: "pc_at (map mdr_name (L @ to_come (Some pc) t)) (length L) pc" by (rule rm_invE) auto
  have tc: "to_come (Some pc) t = to_come None t" using assms(2) by (auto simp: to_come_def)
  note rep = rep [unfolded tc]
  have n: "n < length (L @ to_come None t)" "map mdr_name (L @ to_come None t) ! n = mdr_name e" "wf_region e"
    using at assms(2) by (auto simp: tc)
  then have "n < num_regions s" and "mdr_name ((L @ to_come None t) ! n) = mdr_name e"
    using rm_rep_num [OF rep] by (simp_all del: map_append)
  then show ?thesis
    using that [OF rep _ wq] rm_rep_entry [OF rep, of n] n(3) rep rm_invI [OF rep wq]
    by (auto simp: rm_rep_def)
qed

lemma remove_deregistered_inv:
  assumes inv: "rm_inv bs (s, Some (Rm_Remove_Deregister e n slot))"
  shows "\<exists>s'. md_rm_remove_work_deregistered e n ret s = Some s' \<and> rm_inv bs (s', None)"
proof -
  from inv obtain t L where rep: "rm_rep bs L (to_come None t) t s" and tb: "minidump_rm_table s = Some t"
    and wq: "\<forall>rq \<in> set (minidump_rm_wq t). wf_region (rq_entry rq)" and n: "n < num_regions s"
    and nm: "mdr_name ((L @ to_come None t) ! n) = mdr_name e" "rmr_name (rm_entry t n) = mdr_name e"
    and wf: "wf_region e" and quiet: "rm_inv bs (s, None)" by (rule rm_pc_quietE) auto
  have elf: "elf_rep bs L (minidump_elfheader s)" and d: "distinct (map mdr_name (L @ to_come None t))"
    and sz: "\<forall>r \<in> set L. sized r" using rep by (auto simp: rm_rep_def)
  have "distinct (map mdr_name L)" using d by simp
  from clear_headers_cases [OF elf wf this sz]
  consider (none) "msm_minidump_clear_headers e (minidump_elfheader s) = Some (- EINVAL, minidump_elfheader s)"
    | (removed) k eh where "k < length L" "mdr_name (L ! k) = mdr_name e"
        "msm_minidump_clear_headers e (minidump_elfheader s) = Some (0, eh)" "elf_rep bs (remove_nth k L) eh"
    by blast
  then show ?thesis
  proof cases
    case none
    then show ?thesis using quiet tb nm
      by (auto simp: md_rm_remove_work_deregistered_def errno_defs)
  next
    case (removed k eh)
    have "(L @ to_come None t) ! k = L ! k" using removed(1) by (simp add: nth_append)
    then have k: "k = n"
      using distinct_names_inj [OF d, of k n] nm(1) removed(1,2) n rm_rep_num [OF rep] by auto
    obtain t' s' where *: "drop_rm_entry n (s\<lparr>minidump_elfheader := eh\<rparr>) = Some s'"
      "minidump_rm_wq t' = minidump_rm_wq t" "rm_rep bs (remove_nth k L) (to_come None t) t' s'"
      using rm_rep_dropI [OF rep n _ removed(4) refl, of "to_come None t"] removed(1) k
      by (auto simp: remove_nth_left)
    have "to_come None t' = to_come None t" using *(2) by (simp add: to_come_def)
    with * have "rm_inv bs (s', None)" using wq by (intro rm_invI [of bs "remove_nth k L" None t']) auto
    with * removed(3) tb nm quiet show ?thesis by (simp add: md_rm_remove_work_deregistered_def)
  qed
qed

lemma update_registered_inv:
  assumes inv: "rm_inv bs (s, Some (Rm_Update_Register e n))"
  shows "\<exists>s'. md_rm_update_work_registered e n ret s = Some s' \<and> rm_inv bs (s', None)"
proof -
  from inv obtain t L where rep: "rm_rep bs L (to_come None t) t s" and tb: "minidump_rm_table s = Some t"
    and wq: "\<forall>rq \<in> set (minidump_rm_wq t). wf_region (rq_entry rq)" and n: "n < num_regions s"
    and nm: "mdr_name ((L @ to_come None t) ! n) = mdr_name e" "rmr_name (rm_entry t n) = mdr_name e"
    and wf: "wf_region e" and quiet: "rm_inv bs (s, None)" by (rule rm_pc_quietE) auto
  let ?t = "t\<lparr>rm_entry := (rm_entry t)(n := (rm_entry t n)\<lparr>slot_num := ret\<rparr>)\<rparr>"
  let ?s = "s\<lparr>minidump_rm_table := Some ?t\<rparr>"
  note put = put_rm_entry_rep [OF rep n, of "(rm_entry t n)\<lparr>slot_num := ret\<rparr>"]
  have elf: "elf_rep bs L (minidump_elfheader s)" using rep by (simp add: rm_rep_def)
  have "\<exists>L' eh. md_update_elf_header (int n) e (minidump_elfheader s) = Some eh \<and> elf_rep bs L' eh \<and>
      map mdr_name L' = map mdr_name L \<and> (\<forall>r \<in> set L'. wf_region r \<and> sized r)"
  proof (cases "n < length L")
    case True
    let ?r = "move_region (L ! n) e"
    have old: "\<forall>r \<in> set L. wf_region r \<and> sized r" using rep by (simp add: rm_rep_def)
    then have "wf_region ?r \<and> sized ?r"
      using True wf_regionD(3) [OF wf] by (auto simp: wf_region_def sized_def)
    then have "\<forall>r \<in> set (L[n := ?r]). wf_region r \<and> sized r"
      using old set_update_subset_insert [of L n ?r] by blast
    moreover have "map mdr_name (L[n := ?r]) = map mdr_name L"
      using map_upd_same [OF True, of mdr_name ?r "length L"] by simp
    ultimately show ?thesis
      using md_update_elf_header_rep [OF elf True, of e] wf_regionD(3) [OF wf] by blast
  next
    case False
    have "n + 4 < MAX_NUM_ENTRIES"
      using n rep rm_rep_num [OF rep] by (simp add: rm_rep_def MAX_ELF_REGIONS_def md_consts)
    moreover have "\<forall>r \<in> set L. wf_region r \<and> sized r" using rep by (simp add: rm_rep_def)
    ultimately show ?thesis
      using md_update_elf_header_behind [OF elf, of n e] False leI by blast
  qed
  then obtain L' eh where eh: "md_update_elf_header (int n) e (minidump_elfheader s) = Some eh"
    "elf_rep bs L' eh" "map mdr_name L' = map mdr_name L" "\<forall>r \<in> set L'. wf_region r \<and> sized r" by blast
  have "length L' = length L" using arg_cong [OF eh(3), of length] by simp
  then have "rm_rep bs L' (to_come None ?t) ?t (?s\<lparr>minidump_elfheader := eh\<rparr>)"
    using put(2) eh by (auto simp: rm_rep_def rm_names_def simp flip: set_map)
  then have "rm_inv bs (?s\<lparr>minidump_elfheader := eh\<rparr>, None)"
    by (rule rm_invI) (use wq in simp_all)
  with quiet put(1) eh(1) tb nm show ?thesis by (simp add: md_rm_update_work_registered_def)
qed

lemma rm_resume_inv:
  assumes inv: "rm_inv bs (s, Some pc)"
  shows "\<exists>run s'. rm_resume pc ret s = Some (run, s') \<and> rm_inv bs (s', run)"
proof (cases pc)
  case (Rm_Update_Deregister e n slot)
  from inv [unfolded this] obtain t L where rep: "rm_rep bs L (to_come None t) t s"
    and wq: "\<forall>rq \<in> set (minidump_rm_wq t). wf_region (rq_entry rq)" and n: "n < num_regions s"
    and nm: "mdr_name ((L @ to_come None t) ! n) = mdr_name e" and wf: "wf_region e"
    and quiet: "rm_inv bs (s, None)" by (rule rm_pc_quietE) auto
  have "to_come (Some (Rm_Update_Register e n)) t = to_come None t" by (simp add: to_come_def)
  then have "rm_inv bs (s, Some (Rm_Update_Register e n))"
    using rep wq n nm wf rm_rep_num [OF rep] nth_map [of n "L @ to_come None t" mdr_name]
    by (intro rm_invI [of bs L _ t]) (auto simp del: map_append)
  with quiet show ?thesis by (simp add: Rm_Update_Deregister md_rm_update_work_deregistered_def)
qed (use inv add_registered_inv remove_deregistered_inv update_registered_inv in fastforce)+

subsection \<open>The driver's interface keeps the invariant\<close>

lemma rm_queue_inv:
  assumes inv: "rm_inv bs (s, run)" and cmd: "cmd \<noteq> MINIDUMP_ADD" and wf: "wf_region e"
  shows "\<exists>s'. queue_request cmd e s = Some s' \<and> rm_inv bs (s', run)"
proof -
  from inv obtain t L where rep: "rm_rep bs L (to_come run t) t s"
    and wq: "\<forall>rq \<in> set (minidump_rm_wq t). wf_region (rq_entry rq)"
    and at: "\<And>pc. run = Some pc \<Longrightarrow> pc_at (map mdr_name (L @ to_come run t)) (length L) pc"
    by (rule rm_invE) auto
  let ?t = "queue_rm_work \<lparr>rq_entry = e, work_cmd = cmd\<rparr> t"
  have tb: "minidump_rm_table s = Some t" using rep by (simp add: rm_rep_def)
  have tc: "to_come run ?t = to_come run t" using cmd by (simp add: to_come_def queue_rm_work_def add_of_def)
  have "rm_inv bs (s\<lparr>minidump_rm_table := Some ?t\<rparr>, run)"
    using rep wq wf at unfolding tc [symmetric]
    by (intro rm_invI [of bs L run ?t]) (simp_all add: rm_rep_def rm_names_def queue_rm_work_def)
  then show ?thesis using tb by (simp add: queue_request_def)
qed

lemma rm_request_inv:
  assumes inv: "rm_inv bs (s, run)" and cmd: "cmd \<noteq> MINIDUMP_ADD" and wf: "wf_region e"
  shows "\<exists>r s'. md_rm_request_existing cmd alloc e s = Some (r, s') \<and> rm_inv bs (s', run)"
proof -
  from inv obtain t L where rep: "rm_rep bs L (to_come run t) t s" by (rule rm_invE) auto
  show ?thesis
    using rm_entry_num_index [OF rep, of e] rm_queue_inv [OF assms] inv
    by (auto simp: md_rm_request_existing_def split: option.splits)
qed

lemma rm_add_inv:
  assumes rep: "rm_rep bs L (to_come run t) t s"
    and wq: "\<forall>rq \<in> set (minidump_rm_wq t). wf_region (rq_entry rq)" and wf: "wf_region e" "sized e"
    and room: "num_regions s < MAX_ELF_REGIONS"
    and at: "\<And>pc. run = Some pc \<Longrightarrow> pc_at (map mdr_name (L @ to_come run t)) (length L) pc"
  shows "\<exists>r s'. msm_minidump_add_region alloc (Some e) s = Some (r, s') \<and> rm_inv bs (s', run)"
proof -
  let ?A = "to_come run t" and ?n = "num_regions s"
  have s: "is_rm_minidump s" "md_init_done s" "minidump_rm_table s = Some t" "?n < MAX_NUM_ENTRIES"
    using rep room by (simp_all add: rm_rep_def MAX_ELF_REGIONS_def md_consts)
  have v: "validate_region (Some e) = 0" using wf by (simp add: validate_region_ok wf_region_def)
  note num = rm_entry_num_index [OF rep, of e]
  have keep: "rm_inv bs (s, run)" by (rule rm_invI [OF rep wq at])
  consider (refused) "name_index (L @ ?A) (mdr_name e) \<noteq> None \<or> \<not> alloc"
    | (added) "name_index (L @ ?A) (mdr_name e) = None" "alloc" by blast
  then show ?thesis
  proof cases
    case refused
    with keep num s v show ?thesis
      by (cases "name_index (L @ ?A) (mdr_name e)")
        (auto simp: msm_minidump_add_region_def md_rm_add_region_def errno_defs)
  next
    case added
    note None = added(1)
    define t' where "t' = queue_rm_work \<lparr>rq_entry = e, work_cmd = MINIDUMP_ADD\<rparr>
      (t\<lparr>rm_entry := (rm_entry t)(?n := \<lparr>rmr_name = mdr_name e, slot_num = 0\<rparr>)\<rparr>)"
    let ?s = "s\<lparr>minidump_rm_table := Some t', num_regions := ?n + 1\<rparr>"
    have "md_rm_add_region alloc e s = Some (0, s\<lparr>minidump_rm_table := Some t'\<rparr>)"
      using s added(2) wf_regionD(2) [OF wf(1)] by (simp add: md_rm_add_region_def t'_def Let_def md_consts)
    then have "msm_minidump_add_region alloc (Some e) s = Some (int ?n, ?s)"
      using None num s v by (simp add: msm_minidump_add_region_def region_added_def errno_defs)
    moreover have tc: "to_come run t' = ?A @ [e]"
      by (simp add: to_come_def t'_def queue_rm_work_def add_of_def)
    have "rm_names ?s t' = rm_names s t @ [mdr_name e]"
      by (simp add: rm_names_def t'_def queue_rm_work_def arr_list_snoc_upd)
    then have "rm_rep bs L (to_come run t') t' ?s"
      using rep wf room None rm_rep_num [OF rep] by (auto simp: rm_rep_def tc name_index_None)
    moreover have "pc_at (map mdr_name (L @ to_come run t')) (length L) pc" if "run = Some pc" for pc
      using at [OF that] by (cases pc) (auto simp: tc nth_append simp flip: map_append append_assoc)
    ultimately show ?thesis
      using wq wf by (intro exI conjI rm_invI [of bs L run t']) (auto simp: t'_def queue_rm_work_def)
  qed
qed

lemma rm_client_inv:
  assumes inv: "rm_inv bs (s, run)" and ok: "client_ok op s"
  shows "\<exists>r s'. md_call alloc op s = Some (r, s') \<and> rm_inv bs (s', run)"
proof -
  from inv obtain t L where rep: "rm_rep bs L (to_come run t) t s"
    and wq: "\<forall>rq \<in> set (minidump_rm_wq t). wf_region (rq_entry rq)"
    and at: "\<And>pc. run = Some pc \<Longrightarrow> pc_at (map mdr_name (L @ to_come run t)) (length L) pc"
    by (rule rm_invE) auto
  have m: "is_rm_minidump s" "md_init_done s" using rep by (simp_all add: rm_rep_def)
  show ?thesis
  proof (cases op)
    case (Op_Add e)
    with ok inv show ?thesis
      using rm_add_inv [OF rep wq _ _ _ at, of e alloc] validate_region_ok [of e] add_region_invalid [of "Some e" alloc s]
      by (cases "validate_region (Some e) = 0") auto
  next
    case (Op_Remove e)
    with ok m show ?thesis using rm_request_inv [OF inv, of MINIDUMP_REMOVE e alloc]
      by (simp add: msm_minidump_remove_region_def md_rm_remove_region_def)
  next
    case (Op_Update k e)
    with ok m inv show ?thesis
      using rm_request_inv [OF inv, of MINIDUMP_UPDATE e alloc] validate_region_ok [of e]
      by (auto simp: msm_minidump_update_region_def md_rm_update_def)
  qed
qed

lemma rm_late_update_inv:
  assumes "rm_inv bs (s, run)" and "cstring (mdr_name e)" and "validate_region (Some e) = 0"
  shows "\<exists>s'. queue_request MINIDUMP_UPDATE e s = Some s' \<and> rm_inv bs (s', run)"
  using rm_queue_inv [OF assms(1)] assms(2,3) by (simp add: validate_region_ok)

text \<open>
  Why the callers stop at 197 regions: once the header describes that many, the section that
  follows the registration of the next one writes outside the section header table.
\<close>

lemma rm_add_198:
  assumes elf: "elf_rep bs L (minidump_elfheader s)" "length L = MAX_ELF_REGIONS" and slot: "0 \<le> slot"
  shows "md_rm_add_work_registered e n slot s = None"
proof -
  have "md_add_elf_header e (minidump_elfheader s') = None"
    if "minidump_elfheader s' = minidump_elfheader s" for s'
    using add_elf_header_full [OF elf] that by simp
  then show ?thesis using slot
    by (auto simp: md_rm_add_work_registered_def put_rm_entry_def bind_eq_None_conv split: bind_splits)
qed

subsection \<open>Reachable states\<close>

lemma rm_step_inv: "rm_step st st' \<Longrightarrow> rm_inv bs st \<Longrightarrow> rm_inv bs st'"
proof (induction rule: rm_step.induct)
  case (client op s alloc r s' run)
  then show ?case using rm_client_inv [of bs s run op alloc] by auto
next
  case (late_update e s s' run)
  then show ?case using rm_late_update_inv [of bs s run e] by auto
next
  case (start s rq s1 run s')
  then show ?case using rm_start_inv [of bs s rq s1] by auto
next
  case (resume pc ret s run s')
  then show ?case using rm_resume_inv [of bs s pc ret] by auto
qed

lemma rm_reach_inv: "rm_reach st0 st \<Longrightarrow> rm_inv bs st0 \<Longrightarrow> rm_inv bs st"
  by (induction rule: rm_reach.induct) (auto dest: rm_step_inv)

text \<open>The name check after a call of the resource manager always finds the entry it expects.\<close>

fun pc_entry :: "rm_pc \<Rightarrow> md_region \<times> nat" where
  "pc_entry (Rm_Add_Register e n) = (e, n)"
| "pc_entry (Rm_Remove_Deregister e n slot) = (e, n)"
| "pc_entry (Rm_Update_Deregister e n slot) = (e, n)"
| "pc_entry (Rm_Update_Register e n) = (e, n)"

lemma rm_inv_pc_entry:
  assumes inv: "rm_inv bs (s, Some pc)" and e: "pc_entry pc = (e, n)"
  shows "\<exists>t. minidump_rm_table s = Some t \<and> n < num_regions s \<and> rmr_name (rm_entry t n) = mdr_name e"
proof (cases "\<exists>e n. pc = Rm_Add_Register e n")
  case True
  with e inv have "rm_inv bs (s, Some (Rm_Add_Register e n))" by auto
  then obtain t L where rep: "rm_rep bs L (e # to_come None t) t s" and n: "n = length L"
    by (rule rm_invE) (simp add: to_come_def)
  then show ?thesis
    using rm_rep_num [OF rep] rm_rep_entry [OF rep, of n] by (auto simp: rm_rep_def)
next
  case False
  with e obtain slot where "pc \<in> {Rm_Remove_Deregister e n slot, Rm_Update_Deregister e n slot, Rm_Update_Register e n}"
    by (cases pc) auto
  from inv this show ?thesis by (rule rm_pc_quietE) auto
qed

lemma rm_inv_quiescent:
  assumes "rm_inv bs (s, None)" and "minidump_rm_table s = Some t" and "minidump_rm_wq t = []"
  shows "\<exists>L. elf_rep bs L (minidump_elfheader s) \<and> rm_names s t = map mdr_name L \<and> num_regions s = length L"
proof -
  from assms(1) obtain t' L where rep: "rm_rep bs L (to_come None t') t' s" by (rule rm_invE)
  with assms(2,3) have "t' = t" "to_come None t' = []" by (auto simp: rm_rep_def to_come_def)
  then show ?thesis using rep rm_rep_num [OF rep] by (auto simp: rm_rep_def)
qed

subsection \<open>The queue drains\<close>

text \<open>
  The worker alone: it finishes the running work and then starts the oldest request, one section
  per round; \<open>ans\<close> gives the resource manager's answers.  \<open>work_left\<close> bounds the rounds that are
  needed.
\<close>

fun pc_rank :: "rm_pc option \<Rightarrow> nat" where
  "pc_rank None = 0"
| "pc_rank (Some (Rm_Update_Deregister e n slot)) = 2"
| "pc_rank (Some pc) = 1"

definition rm_queued :: "md_globals \<Rightarrow> md_rm_request list" where
  "rm_queued s = (case minidump_rm_table s of None \<Rightarrow> [] | Some t \<Rightarrow> minidump_rm_wq t)"

definition work_left :: "rm_state \<Rightarrow> nat" where
  "work_left st = pc_rank (snd st) + 3 * length (rm_queued (fst st))"

fun rm_worker :: "nat \<Rightarrow> (nat \<Rightarrow> int) \<Rightarrow> rm_state \<Rightarrow> rm_state option" where
  "rm_worker 0 ans st = Some st"
| "rm_worker (Suc n) ans (s, None) =
     (case rm_pop s of
        None \<Rightarrow> Some (s, None)
      | Some (rq, s1) \<Rightarrow> do { (run, s') \<leftarrow> rm_start rq s1; rm_worker n ans (s', run) })"
| "rm_worker (Suc n) ans (s, Some pc) = do { (run, s') \<leftarrow> rm_resume pc (ans n) s; rm_worker n ans (s', run) }"

lemma rm_pop_queued: "rm_pop s = Some (rq, s1) \<Longrightarrow> rm_queued s = rq # rm_queued s1"
  by (auto simp: rm_pop_def rm_queued_def split: option.splits list.splits)

lemma rm_pop_None: "rm_pop s = None \<longleftrightarrow> rm_queued s = []"
  by (auto simp: rm_pop_def rm_queued_def split: option.splits list.splits)

lemma put_rm_entry_queued: "put_rm_entry i v s = Some s' \<Longrightarrow> rm_queued s' = rm_queued s"
  by (auto simp: put_rm_entry_def rm_queued_def elim!: bind_SomeE split: if_split_asm)

lemma drop_rm_entry_queued: "drop_rm_entry i s = Some s' \<Longrightarrow> rm_queued s' = rm_queued s"
  by (auto simp: drop_rm_entry_def rm_queued_def Let_def elim!: bind_SomeE split: if_split_asm)

lemma rm_queued_elf [simp]: "rm_queued (s\<lparr>minidump_elfheader := eh\<rparr>) = rm_queued s"
  by (simp add: rm_queued_def)

lemma rm_start_queued:
  "rm_start rq s1 = Some (run, s') \<Longrightarrow> rm_queued s' = rm_queued s1 \<and> pc_rank run \<le> 2"
  by (auto simp: rm_start_def md_rm_add_work_start_def md_rm_remove_work_start_def md_rm_update_work_start_def
      Let_def elim!: bind_SomeE dest!: put_rm_entry_queued
      split: minidump_entry_cmd.splits if_split_asm)

lemma rm_resume_queued:
  "rm_resume pc ret s = Some (run, s') \<Longrightarrow> rm_queued s' = rm_queued s \<and> pc_rank run < pc_rank (Some pc)"
  by (cases pc)
    (auto simp: md_rm_add_work_registered_def md_rm_remove_work_deregistered_def
      md_rm_update_work_deregistered_def md_rm_update_work_registered_def Let_def elim!: bind_SomeE
      dest!: put_rm_entry_queued drop_rm_entry_queued split: if_split_asm)

lemma rm_worker_drains:
  assumes "rm_inv bs st" and "work_left st \<le> n"
  shows "\<exists>s'. rm_worker n ans st = Some (s', None) \<and> rm_queued s' = [] \<and> rm_inv bs (s', None)"
  using assms
proof (induction n ans st rule: rm_worker.induct)
  case (1 ans st)
  then have "snd st = None" "rm_queued (fst st) = []"
    by (cases "snd st" rule: pc_rank.cases; simp add: work_left_def)+
  with 1 show ?case by (cases st) auto
next
  case (2 n ans s)
  show ?case
  proof (cases "rm_pop s")
    case None
    then have "rm_queued s = []" by (simp add: rm_pop_None)
    with None "2.prems"(1) show ?thesis by simp
  next
    case (Some q)
    obtain rq s1 where q: "q = (rq, s1)" by (cases q)
    with Some obtain run s' where s': "rm_start rq s1 = Some (run, s')" "rm_inv bs (s', run)"
      using rm_start_inv [OF "2.prems"(1), of rq s1] by auto
    have "work_left (s', run) \<le> n"
      using rm_start_queued [OF s'(1)] rm_pop_queued [OF Some [unfolded q]] "2.prems"(2)
      by (simp add: work_left_def)
    with "2.IH" [OF Some q [symmetric] s'(1) refl s'(2)] s' Some q show ?thesis by simp
  qed
next
  case (3 n ans s pc)
  obtain run s' where s': "rm_resume pc (ans n) s = Some (run, s')" "rm_inv bs (s', run)"
    using rm_resume_inv [OF "3.prems"(1), of "ans n"] by auto
  have "work_left (s', run) \<le> n"
    using rm_resume_queued [OF s'(1)] "3.prems"(2) by (simp add: work_left_def)
  with "3.IH" [OF s'(1) refl] s' show ?case by simp
qed

subsection \<open>Whole works are runs of the machine\<close>

lemma rm_reach_start:
  "rm_pop s = Some (rq, s1) \<Longrightarrow> rm_start rq s1 = Some (run, s') \<Longrightarrow> rm_reach (s, None) (s', run)"
  by (rule rm_reach.step [OF rm_reach.init rm_step.start])

lemma rm_reach_resume:
  "rm_reach st (s, Some pc) \<Longrightarrow> rm_resume pc ret s = Some (run, s') \<Longrightarrow> rm_reach st (s', run)"
  by (rule rm_reach.step [OF _ rm_step.resume])

lemma minidump_rm_work_reach:
  assumes pop: "rm_pop s = Some (rq, s1)" and work: "minidump_rm_work register deregister rq s1 = Some s'"
  shows "rm_reach (s, None) (s', None)"
proof (cases "work_cmd rq")
  case MINIDUMP_ADD
  then obtain run s2 where start: "md_rm_add_work_start (rq_entry rq) s1 = Some (run, s2)"
    using work by (auto simp: minidump_rm_work_def md_rm_add_work_def bind_eq_Some_conv)
  have "rm_reach (s, None) (s2, run)"
    using rm_reach_start [OF pop, of run s2] start MINIDUMP_ADD by (simp add: rm_start_def)
  then show ?thesis
    using start work MINIDUMP_ADD rm_reach_resume [of "(s, None)" s2]
    by (auto simp: minidump_rm_work_def md_rm_add_work_def md_rm_add_work_start_def bind_eq_Some_conv
        split: if_splits)
next
  case MINIDUMP_REMOVE
  then obtain run s2 where start: "md_rm_remove_work_start (rq_entry rq) s1 = Some (run, s2)"
    using work by (auto simp: minidump_rm_work_def md_rm_remove_work_def bind_eq_Some_conv)
  have "rm_reach (s, None) (s2, run)"
    using rm_reach_start [OF pop, of run s2] start MINIDUMP_REMOVE by (simp add: rm_start_def)
  then show ?thesis
    using start work MINIDUMP_REMOVE rm_reach_resume [of "(s, None)" s2]
    by (auto simp: minidump_rm_work_def md_rm_remove_work_def md_rm_remove_work_start_def Let_def
        bind_eq_Some_conv split: if_splits)
next
  case MINIDUMP_UPDATE
  then obtain run s2 where start: "md_rm_update_work_start (rq_entry rq) s1 = Some (run, s2)"
    using work by (auto simp: minidump_rm_work_def md_rm_update_work_def bind_eq_Some_conv)
  have reach: "rm_reach (s, None) (s2, run)"
    using rm_reach_start [OF pop, of run s2] start MINIDUMP_UPDATE by (simp add: rm_start_def)
  consider (idle) "run = None" | (call) e n slot where "run = Some (Rm_Update_Deregister e n slot)"
    using start by (auto simp: md_rm_update_work_start_def Let_def bind_eq_Some_conv split: if_splits)
  then show ?thesis
  proof cases
    case idle
    then show ?thesis using reach start work MINIDUMP_UPDATE
      by (simp add: minidump_rm_work_def md_rm_update_work_def)
  next
    case (call e n slot)
    note step = rm_reach_resume [OF reach [unfolded call], of "deregister (nat (slot mod 2 ^ 16))"]
    show ?thesis using step start work MINIDUMP_UPDATE call rm_reach_resume [of "(s, None)" s2]
      by (auto simp: minidump_rm_work_def md_rm_update_work_def md_rm_update_work_deregistered_def
          split: if_splits)
  qed
next
  case MINIDUMP_NO_CMD
  then show ?thesis using rm_reach_start [OF pop, of None s1] work
    by (simp add: rm_start_def minidump_rm_work_def)
qed

subsection \<open>The probe with a resource manager\<close>

text \<open>
  While the loop over the pending list runs: the first \<open>length D\<close> entries of the table are in
  place and their requests are queued.
\<close>

definition add_request :: "md_region \<Rightarrow> md_rm_request" where
  "add_request r = \<lparr>rq_entry = r, work_cmd = MINIDUMP_ADD\<rparr>"

lemma add_pending_rm:
  assumes "is_rm_minidump s" and "minidump_rm_table s = Some t"
    and "map rmr_name (arr_list (rm_entry t) (length D)) = map mdr_name D"
    and "minidump_rm_wq t = map add_request D"
    and "\<forall>r \<in> set P. wf_region r" and "length D + length P \<le> MAX_NUM_ENTRIES" and "\<forall>n. alloc n"
  shows "\<exists>t'. add_pending alloc (length D) P s =
       Some (0, if P = [] then s else s\<lparr>minidump_rm_table := Some t', pending_list := []\<rparr>) \<and>
     (P = [] \<longrightarrow> t' = t) \<and> map rmr_name (arr_list (rm_entry t') (length (D @ P))) = map mdr_name (D @ P) \<and>
     minidump_rm_wq t' = map add_request (D @ P)"
  using assms
proof (induction P arbitrary: D s t)
  case (Cons r P)
  let ?t = "queue_rm_work \<lparr>rq_entry = r, work_cmd = MINIDUMP_ADD\<rparr>
     (t\<lparr>rm_entry := (rm_entry t)(length D := (rm_entry t (length D))\<lparr>rmr_name := mdr_name r\<rparr>)\<rparr>)"
  let ?s = "s\<lparr>minidump_rm_table := Some ?t, pending_list := P\<rparr>"
  have "length (mdr_name r) \<le> 12" using Cons.prems(5) by (simp add: wf_regionD(2))
  have nm: "map rmr_name (arr_list (rm_entry ?t) (length (D @ [r]))) = map mdr_name (D @ [r])"
    using Cons.prems(3) by (simp add: queue_rm_work_def arr_list_snoc_upd)
  with \<open>length (mdr_name r) \<le> 12\<close> have "add_pending alloc (length D) (r # P) s = add_pending alloc (length (D @ [r])) P ?s"
    using Cons.prems(1,2,6,7) by (simp add: Let_def md_consts)
  moreover have "\<exists>t'. add_pending alloc (length (D @ [r])) P ?s =
       Some (0, if P = [] then ?s else ?s\<lparr>minidump_rm_table := Some t', pending_list := []\<rparr>) \<and>
     (P = [] \<longrightarrow> t' = ?t) \<and>
     map rmr_name (arr_list (rm_entry t') (length ((D @ [r]) @ P))) = map mdr_name ((D @ [r]) @ P) \<and>
     minidump_rm_wq t' = map add_request ((D @ [r]) @ P)"
    by (rule Cons.IH [OF _ _ nm]) (use Cons.prems in \<open>simp_all add: queue_rm_work_def add_request_def\<close>)
  ultimately show ?case by (cases "P = []") auto
qed simp

definition rm_ready :: "probe_env \<Rightarrow> bool" where
  "rm_ready env \<longleftrightarrow> of_compatible_rm env \<and> 0 \<le> rm_get_info env \<and> alloc_table env \<and> alloc_wq env \<and>
     alloc_header env \<and> (\<forall>n. alloc_request env n) \<and>
     0 \<le> rm_register env (virt_to_phys env (header_addr env)) (of_nat elfh_size) KELF_HDR (length KELF_HDR)"

lemma probe_rm_ready:
  assumes env: "rm_ready env" and s: "unprobed P s" and P: "\<forall>r \<in> set P. sized r" "length P \<le> MAX_ELF_REGIONS"
  shows "\<exists>s'. rm_inv (probe_base env) (s', None) \<and> num_regions s' = length P \<and>
     msm_minidump_driver_probe env (lg, s) =
       (msm_minidump_log_init (probe_log env) (lg, s') \<bind> (\<lambda>(_, lg, s). Some (0, lg, s)))"
proof -
  obtain eh where eh: "fill_elf_header (table_addr env) (banner_addr env) (virt_to_phys env (banner_addr env))
      = Some eh" "elf_rep (probe_base env) [] eh"
    using fill_elf_header_rep unfolding probe_base_def by blast
  let ?t0 = "\<lparr>minidump_rm_wq = [], rm_entry = (\<lambda>_. zero_rm_region)\<rparr>"
  let ?s0 = "s\<lparr>is_rm_minidump := True, minidump_rm_table := Some ?t0, minidump_elfheader := eh\<rparr>"
  note pend = add_pending_rm [of ?s0 ?t0 "[]" P "alloc_request env"]
  have "length P \<le> MAX_NUM_ENTRIES" "\<forall>r \<in> set P. wf_region r" "\<forall>n. alloc_request env n"
    using env s P by (simp_all add: rm_ready_def unprobed_def MAX_ELF_REGIONS_def md_consts)
  with pend obtain t' where p: "add_pending (alloc_request env) 0 P ?s0 =
       Some (0, if P = [] then ?s0 else ?s0\<lparr>minidump_rm_table := Some t', pending_list := []\<rparr>)"
    "P = [] \<longrightarrow> t' = ?t0" "map rmr_name (arr_list (rm_entry t') (length P)) = map mdr_name P"
    "minidump_rm_wq t' = map add_request P" by auto
  define s' where "s' = ?s0\<lparr>minidump_rm_table := Some t', pending_list := [], md_init_done := True\<rparr>"
  have "pending_list s = P" using s by (simp add: unprobed_def)
  then have "s' = (if P = [] then ?s0 else ?s0\<lparr>minidump_rm_table := Some t', pending_list := []\<rparr>)\<lparr>md_init_done := True\<rparr>"
    using p(2) by (auto simp: s'_def)
  then have "msm_minidump_driver_probe env (lg, s) =
      (msm_minidump_log_init (probe_log env) (lg, s') \<bind> (\<lambda>(_, lg, s). Some (0, lg, s)))"
    using env p(1) eh(1) \<open>pending_list s = P\<close>
    by (simp add: msm_minidump_driver_probe_def probe_table_def probe_rm_table_def rm_ready_def
        msm_minidump_add_header_def enable_toc_def Let_def)
  moreover have "to_come None t' = P"
    using p(4) by (simp add: to_come_def add_request_def add_of_def o_def)
  then have "rm_inv (probe_base env) (s', None)"
    using s p(3,4) eh(2) P
    by (intro rm_invI [of _ "[]" None t'])
      (auto simp: s'_def rm_rep_def rm_names_def unprobed_def add_request_def)
  ultimately show ?thesis using s by (intro exI [of _ s']) (simp add: s'_def unprobed_def)
qed

lemma probe_rm_ok:
  assumes env: "rm_ready env" and log: "log_ready (probe_log env) p" "log_alloc (probe_log env)"
    and s: "unprobed P s" and P: "\<forall>r \<in> set P. sized r" "length P < MAX_ELF_REGIONS"
    and k: "wf_region (kmsg_region (probe_log env) lg p)" "sized (kmsg_region (probe_log env) lg p)"
  shows "\<exists>lg' s'. msm_minidump_driver_probe env (lg, s) = Some (0, lg', s') \<and>
    rm_inv (probe_base env) (s', None)"
proof -
  let ?k = "kmsg_region (probe_log env) lg p"
  obtain s1 where s1: "rm_inv (probe_base env) (s1, None)" "num_regions s1 = length P"
    "msm_minidump_driver_probe env (lg, s) =
       (msm_minidump_log_init (probe_log env) (lg, s1) \<bind> (\<lambda>(_, lg, s). Some (0, lg, s)))"
    using probe_rm_ready [OF env s P(1), of lg] P(2) by auto
  have "client_ok (Op_Add ?k) s1" using k P(2) s1(2) by (simp add: wf_region_def)
  from rm_client_inv [OF s1(1) this, of True] obtain r s' where
    "msm_minidump_add_region True (Some ?k) s1 = Some (r, s')" "rm_inv (probe_base env) (s', None)" by auto
  with s1(3) log show ?thesis by (auto simp: log_init_add)
qed

end
