(* ===== verification/Md_Samples.thy ===== *)
theory Md_Samples
  imports Rm_Machine
begin

text \<open>
  A concrete platform and concrete regions, on which the general results are evaluated: a device
  with an SMEM table, one with a resource manager, and drivers that hold given regions.
\<close>

subsection \<open>Definitions\<close>

definition demo_toc :: md_ss_toc where
  "demo_toc = \<lparr>md_ss_toc_init = 0, md_ss_enable_status = 0, encryption_status = 0,
     encryption_required = 0, ss_region_count = 0, md_ss_smem_regions_baseptr = 0\<rparr>"

definition demo_global_toc :: md_global_toc where
  "demo_global_toc = \<lparr>md_toc_init = 1, md_revision = 1, md_enable_status = 0,
     gbl_ss_toc = replicate MAX_NUM_OF_SS demo_toc\<rparr>"

definition demo_log :: log_env where
  "demo_log = \<lparr>kmsg_alloc = Some 0x200000, kmsg_dump_register = 0, log_virt_to_phys = (\<lambda>v. v + 0x80000000),
     config_vmap_stack = True, log_alloc = True\<rparr>"

definition demo_env :: probe_env where
  "demo_env = \<lparr>of_compatible_rm = False, rm_get_info = 0, rm_register = (\<lambda>_ _ _ _. 1),
     smem_get = Smem_Item demo_global_toc sizeof_global_toc, alloc_table = True, alloc_wq = True,
     alloc_regions = True, alloc_header = True, alloc_request = (\<lambda>_. True), table_addr = 0x1000,
     regions_addr = 0x9000, header_addr = 0x20000, banner_addr = 0x40000,
     virt_to_phys = (\<lambda>v. v + 0x80000000), probe_log = demo_log\<rparr>"

definition demo_rm_env :: probe_env where
  "demo_rm_env = demo_env\<lparr>of_compatible_rm := True\<rparr>"

definition demo_region :: "string \<Rightarrow> u64 \<Rightarrow> md_region" where
  "demo_region nm a = \<lparr>mdr_name = nm, mdr_id = 0, virt_addr = a, phys_addr = a + 0x80000000, mdr_size = 64\<rparr>"

definition demo_kmsg :: md_region where
  "demo_kmsg = kmsg_region demo_log init_log 0x200000"

definition demo_base :: elf_base where
  "demo_base = probe_base demo_env"

subsection \<open>The platform meets the requirements\<close>

lemma demo_ready: "smem_ready demo_env" "log_ready (probe_log demo_env) 0x200000"
    "rm_ready demo_rm_env" "log_ready (probe_log demo_rm_env) 0x200000"
  by (simp_all add: smem_ready_def rm_ready_def log_ready_def demo_env_def demo_rm_env_def demo_log_def
      demo_global_toc_def)

lemma demo_kmsg_wf: "wf_region demo_kmsg" "sized demo_kmsg" "mdr_name demo_kmsg = ''KMSG''"
  by (simp_all add: demo_kmsg_def wf_region_def sized_def init_log_def cstring_def NUL_def md_consts)

lemma demo_region_wf:
  "cstring nm \<Longrightarrow> length nm \<le> 12 \<Longrightarrow> a \<noteq> 0 \<Longrightarrow> wf_region (demo_region nm a)" "sized (demo_region nm a)"
  by (simp_all add: demo_region_def wf_region_def sized_def md_consts)

lemma demo_region_simps [simp]:
  "mdr_name (demo_region nm a) = nm" "virt_addr (demo_region nm a) = a"
  "phys_addr (demo_region nm a) = a + 0x80000000" "mdr_size (demo_region nm a) = 64"
  by (simp_all add: demo_region_def)

lemma demo_unprobed: "unprobed [] init_globals"
  by (simp add: unprobed_def init_globals_def)

text \<open>A driver that was probed with the pending regions \<open>P\<close>.\<close>

lemma demo_probed:
  assumes "unprobed P s" and "length P < CONFIG_MINIDUMP_MAX_ENTRIES" and "''KMSG'' \<notin> set (map mdr_name P)"
    and "first_removed_entry s = INT_MAX"
  shows "\<exists>s'. drv_rep demo_base (length P) (P @ [demo_kmsg]) s' \<and> first_removed_entry s' = INT_MAX"
  using probe_smem_ok [OF demo_ready(1,2) assms(1-3), of init_log] demo_kmsg_wf(1) assms(4)
  by (auto simp: demo_kmsg_def demo_base_def demo_env_def)

text \<open>A driver that holds the kernel log and any further regions that fit.\<close>

lemma demo_driver:
  assumes "distinct (map mdr_name (demo_kmsg # M))" and "\<forall>r \<in> set M. wf_region r"
    and "length M < MAX_ELF_REGIONS"
  shows "\<exists>s. drv_rep demo_base 0 (demo_kmsg # M) s \<and> first_removed_entry s = INT_MAX"
  using assms
proof (induction M rule: rev_induct)
  case Nil
  then show ?case
    using demo_probed [of "[]" init_globals] demo_unprobed by (simp add: md_consts init_globals_def)
next
  case (snoc r M)
  then obtain s where s: "drv_rep demo_base 0 (demo_kmsg # M) s" "first_removed_entry s = INT_MAX" by auto
  have "wf_region r" "mdr_name r \<notin> set (map mdr_name (demo_kmsg # M))"
    "length (demo_kmsg # M) < CONFIG_MINIDUMP_MAX_ENTRIES" "length (demo_kmsg # M) - 0 + 5 \<le> MAX_NUM_ENTRIES"
    using snoc.prems by (auto simp: MAX_ELF_REGIONS_def md_consts)
  from add_region_ok [OF s(1) this, of True] s(2) show ?case by auto
qed

definition demo_many :: "nat \<Rightarrow> md_region list" where
  "demo_many n = map (\<lambda>i. demo_region [char_of (Suc i)] (of_nat (Suc i))) [0..<n]"

lemma demo_many_ok:
  assumes "n \<le> 196"
  shows "distinct (map mdr_name (demo_kmsg # demo_many n))" and "\<forall>r \<in> set (demo_many n). wf_region r"
proof -
  have inj: "inj_on (\<lambda>i. [char_of (Suc i)]) {0..<n}"
  proof (rule inj_onI)
    fix i j assume "i \<in> {0..<n}" "j \<in> {0..<n}" "[char_of (Suc i)] = [char_of (Suc j) :: char]"
    then have "of_char (char_of (Suc i)) = (of_char (char_of (Suc j)) :: nat)" "i < n" "j < n" by auto
    then show "i = j" using assms by simp
  qed
  have "distinct (map mdr_name (demo_many n))"
    using inj by (simp add: demo_many_def o_def distinct_map)
  moreover have "mdr_name demo_kmsg \<notin> set (map mdr_name (demo_many n))"
    by (auto simp: demo_many_def demo_kmsg_wf)
  ultimately show "distinct (map mdr_name (demo_kmsg # demo_many n))" by simp
  have "wf_region (demo_region [char_of (Suc i)] (of_nat (Suc i)))" if "i < n" for i
  proof (rule demo_region_wf)
    have "of_char (char_of (Suc i) :: char) = (Suc i :: nat)" using that assms by simp
    moreover have "of_char NUL = (0 :: nat)" by (simp add: NUL_def)
    ultimately have "char_of (Suc i) \<noteq> NUL" by (metis Zero_not_Suc)
    then show "cstring [char_of (Suc i)]" by (simp add: cstring_def)
    have "unat (of_nat (Suc i) :: u64) = Suc i"
      using that assms by (subst unat_of_nat) simp
    then show "(of_nat (Suc i) :: u64) \<noteq> 0" by (metis Zero_not_Suc unsigned_0)
  qed simp
  then show "\<forall>r \<in> set (demo_many n). wf_region r" by (auto simp: demo_many_def)
qed

text \<open>A driver with a resource manager.\<close>

lemma demo_rm: "\<exists>s. rm_inv demo_base (s, None)"
proof -
  have "probe_base demo_rm_env = demo_base" by (simp add: probe_base_def demo_rm_env_def demo_base_def)
  moreover have "\<exists>lg' s'. msm_minidump_driver_probe demo_rm_env (init_log, init_globals) = Some (0, lg', s') \<and>
      rm_inv (probe_base demo_rm_env) (s', None)"
    by (rule probe_rm_ok [OF demo_ready(3,4) _ demo_unprobed])
      (use demo_kmsg_wf in \<open>simp_all add: demo_kmsg_def demo_rm_env_def demo_env_def demo_log_def
        MAX_ELF_REGIONS_def md_consts\<close>)
  ultimately show ?thesis by auto
qed

text \<open>A driver with a resource manager and one queued registration.\<close>

definition demo_queue :: "md_elfhdr \<Rightarrow> md_globals" where
  "demo_queue eh = init_globals\<lparr>is_rm_minidump := True, md_init_done := True, num_regions := 1,
     minidump_elfheader := eh, minidump_rm_table := Some \<lparr>minidump_rm_wq = [add_request demo_kmsg],
       rm_entry = (\<lambda>_. zero_rm_region)(0 := \<lparr>rmr_name = ''KMSG'', slot_num = 0\<rparr>)\<rparr>\<rparr>"

definition demo_started :: "md_elfhdr \<Rightarrow> md_globals" where
  "demo_started eh = (demo_queue eh)\<lparr>minidump_rm_table := Some \<lparr>minidump_rm_wq = [],
       rm_entry = (\<lambda>_. zero_rm_region)(0 := \<lparr>rmr_name = ''KMSG'', slot_num = 0\<rparr>)\<rparr>\<rparr>"

lemma demo_empty_header: "\<exists>eh. elf_rep demo_base [] eh"
  using fill_elf_header_rep unfolding demo_base_def probe_base_def by blast

lemma demo_queue_inv:
  assumes "elf_rep demo_base [] eh"
  shows "rm_inv demo_base (demo_queue eh, None)"
  by (rule rm_invI [of _ "[]" None "the (minidump_rm_table (demo_queue eh))"])
    (use assms demo_kmsg_wf in \<open>simp_all add: demo_queue_def rm_rep_def rm_names_def to_come_def add_of_def
      add_request_def MAX_ELF_REGIONS_def md_consts arr_seg_def\<close>)

lemma demo_queue_pop: "rm_pop (demo_queue eh) = Some (add_request demo_kmsg, demo_started eh)"
  by (simp add: rm_pop_def demo_queue_def demo_started_def)

lemma demo_queue_start:
  "rm_start (add_request demo_kmsg) (demo_started eh) = Some (Some (Rm_Add_Register demo_kmsg 0), demo_started eh)"
  by (simp add: rm_start_def add_request_def md_rm_add_work_start_def md_rm_entry_num_def demo_started_def
      demo_queue_def demo_kmsg_wf md_consts)

lemma demo_queue_reach: "rm_reach (demo_queue eh, None) (demo_started eh, Some (Rm_Add_Register demo_kmsg 0))"
  by (rule rm_reach_start [OF demo_queue_pop demo_queue_start])

end
