(* ===== verification/Rm_Effect.thy ===== *)
theory Rm_Effect
  imports Rm_Machine
begin

text \<open>
  What a whole work function of the resource manager's queue does: \<^verbatim>\<open>minidump_rm_work\<close> for each
  command, from start to end with the answers of the resource manager, and the lookup in the table
  (\<^verbatim>\<open>md_get_region\<close>).
\<close>

text \<open>
  What the driver holds: \<open>L\<close> are the regions with a header, \<open>A\<close> those whose registration is still to
  come, \<open>sl\<close> the slot numbers of all of them and \<open>q\<close> the queue.
\<close>

definition rm_view ::
  "elf_base \<Rightarrow> md_region list \<Rightarrow> md_region list \<Rightarrow> int list \<Rightarrow> md_rm_request list \<Rightarrow> md_globals \<Rightarrow> bool" where
  "rm_view bs L A sl q s \<longleftrightarrow> (\<exists>t. rm_rep bs L A t s \<and> rm_slots s t = sl \<and> minidump_rm_wq t = q)"

lemma rm_slots_nth: "i < num_regions s \<Longrightarrow> rm_slots s t ! i = slot_num (rm_entry t i)"
  by (simp add: rm_slots_def)

lemma view_entry_num:
  assumes "rm_view bs L A sl q s"
  shows "md_rm_entry_num e s =
    Some (case name_index (L @ A) (mdr_name e) of None \<Rightarrow> - ENOENT | Some k \<Rightarrow> int k)"
  using assms rm_entry_num_index unfolding rm_view_def by blast

text \<open>Storing a slot number, and squeezing an entry out.\<close>

lemma view_put:
  assumes view: "rm_view bs L A sl q s" and i: "i < length (L @ A)"
  obtains t s' where "minidump_rm_table s = Some t" and "rmr_name (rm_entry t i) = mdr_name ((L @ A) ! i)"
    and "slot_num (rm_entry t i) = sl ! i" and "minidump_elfheader s' = minidump_elfheader s"
    and "put_rm_entry i ((rm_entry t i)\<lparr>slot_num := v\<rparr>) s = Some s'" and "rm_view bs L A (sl[i := v]) q s'"
proof -
  from view obtain t where rep: "rm_rep bs L A t s" and sl: "rm_slots s t = sl" and q: "minidump_rm_wq t = q"
    by (auto simp: rm_view_def)
  have n: "i < num_regions s" using i rm_rep_num [OF rep] by simp
  let ?t = "t\<lparr>rm_entry := (rm_entry t)(i := (rm_entry t i)\<lparr>slot_num := v\<rparr>)\<rparr>"
  let ?s = "s\<lparr>minidump_rm_table := Some ?t\<rparr>"
  note put = put_rm_entry_rep [OF rep n, of "(rm_entry t i)\<lparr>slot_num := v\<rparr>"]
  have "rm_slots ?s ?t = sl[i := v]"
    using sl n by (auto simp: rm_slots_def arr_list_upd map_update)
  then have "rm_view bs L A (sl[i := v]) q ?s" using put(2) q unfolding rm_view_def by force
  then show ?thesis
    using that [of t ?s] rep put(1) rm_rep_entry [OF rep n] rm_slots_nth [OF n, of t] sl by (simp add: rm_rep_def)
qed

lemma view_drop:
  assumes view: "rm_view bs L A sl q s" and i: "i < length (L @ A)" and LA: "L' @ A' = remove_nth i (L @ A)"
    and elf: "elf_rep bs L' eh"
  shows "\<exists>s'. drop_rm_entry i (s\<lparr>minidump_elfheader := eh\<rparr>) = Some s' \<and> rm_view bs L' A' (remove_nth i sl) q s'"
proof -
  from view obtain t where rep: "rm_rep bs L A t s" and "rm_slots s t = sl" "minidump_rm_wq t = q"
    by (auto simp: rm_view_def)
  moreover have "i < num_regions s" using i rm_rep_num [OF rep] by simp
  ultimately show ?thesis using rm_rep_dropI [OF rep _ LA elf refl] unfolding rm_view_def by blast
qed

lemma view_header:
  assumes "rm_view bs L A sl q s"
  shows "elf_rep bs L (minidump_elfheader s)" and "distinct (map mdr_name (L @ A))"
    and "\<forall>r \<in> set (L @ A). wf_region r" and "length (L @ A) \<le> MAX_ELF_REGIONS" and "length sl = length (L @ A)"
proof -
  from assms obtain t where t: "rm_rep bs L A t s" "rm_slots s t = sl" by (auto simp: rm_view_def)
  then show "length sl = length (L @ A)" using rm_rep_num [OF t(1)] by (auto simp: rm_slots_def)
  show "elf_rep bs L (minidump_elfheader s)" "distinct (map mdr_name (L @ A))"
    "\<forall>r \<in> set (L @ A). wf_region r" "length (L @ A) \<le> MAX_ELF_REGIONS"
    using t(1) by (auto simp: rm_rep_def)
qed

lemma view_index:
  assumes "rm_view bs L A sl q s" and "k < length (L @ A)" and "mdr_name e = mdr_name ((L @ A) ! k)"
  shows "md_rm_entry_num e s = Some (int k)"
  using view_entry_num [OF assms(1), of e] name_index_distinct [OF view_header(2) [OF assms(1)] assms(2)] assms(3)
  by simp

text \<open>The registration of the oldest region that is still to be registered.\<close>

lemma add_work_effect:
  assumes view: "rm_view bs L (e # A) sl q s"
    and slot: "slot = register (phys_addr e) (mdr_size e) (mdr_name e) (length (mdr_name e))"
  shows "\<exists>s'. md_rm_add_work register e s = Some s' \<and>
    (if slot < 0 then rm_view bs L A (remove_nth (length L) sl) q s'
     else rm_view bs (L @ [e]) A (sl[length L := slot]) q s')"
proof -
  have k: "length L < length (L @ e # A)" by simp
  have num: "md_rm_entry_num e s = Some (int (length L))" by (rule view_index [OF view k]) simp
  have work: "md_rm_add_work register e s = md_rm_add_work_registered e (length L) slot s"
    using num by (simp add: md_rm_add_work_def md_rm_add_work_start_def slot)
  note elf = view_header(1) [OF view]
  show ?thesis
  proof (cases "slot < 0")
    case True
    then show ?thesis using view_drop [OF view k, of L A "minidump_elfheader s"] elf work
      by (simp add: md_rm_add_work_registered_def)
  next
    case False
    obtain t s' where t: "minidump_rm_table s = Some t" "rmr_name (rm_entry t (length L)) = mdr_name e"
      "minidump_elfheader s' = minidump_elfheader s"
      "put_rm_entry (length L) ((rm_entry t (length L))\<lparr>slot_num := slot\<rparr>) s = Some s'"
      and s': "rm_view bs L (e # A) (sl[length L := slot]) q s'"
      by (rule view_put [OF view k, of slot]) simp
    have "wf_region e" "length L + 5 \<le> MAX_NUM_ENTRIES"
      using view_header [OF view] by (simp_all add: MAX_ELF_REGIONS_def md_consts)
    from md_add_elf_header_rep [OF elf this] obtain eh where
      eh: "md_add_elf_header e (minidump_elfheader s) = Some eh" "elf_rep bs (L @ [e]) eh" by blast
    have "rm_view bs (L @ [e]) A (sl[length L := slot]) q (s'\<lparr>minidump_elfheader := eh\<rparr>)"
      using s' eh(2) by (auto simp: rm_view_def rm_rep_def rm_names_def rm_slots_def)
    then show ?thesis using False t eh(1) work by (simp add: md_rm_add_work_registered_def)
  qed
qed

text \<open>
  The removal of a region whose headers can be found.  The slot number is cleared before the
  resource manager is asked, and stays cleared when it refuses.
\<close>

lemma remove_work_effect:
  assumes view: "rm_view bs L A sl q s" and k: "k < length L" and rem: "removable L k e"
  shows "\<exists>s'. md_rm_remove_work deregister e s = Some s' \<and>
    (if sl ! k = 0 then s' = s
     else if deregister (nat (sl ! k mod 2 ^ 16)) < 0 then rm_view bs L A (sl[k := 0]) q s'
     else rm_view bs (remove_nth k L) A (remove_nth k sl) q s')"
proof -
  have k': "k < length (L @ A)" and nm: "mdr_name e = mdr_name ((L @ A) ! k)"
    using k rem by (auto simp: removable_def nth_append)
  note num = view_index [OF view k' nm]
  obtain t s1 where t: "minidump_rm_table s = Some t" "slot_num (rm_entry t k) = sl ! k"
    "minidump_elfheader s1 = minidump_elfheader s"
    "put_rm_entry k ((rm_entry t k)\<lparr>slot_num := 0\<rparr>) s = Some s1"
    and s1: "rm_view bs L A (sl[k := 0]) q s1" by (rule view_put [OF view k', of 0])
  obtain t1 where t1: "minidump_rm_table s1 = Some t1" "rmr_name (rm_entry t1 k) = mdr_name e"
    using view_put [OF s1 k'] nm by metis
  have d: "distinct (map mdr_name L)" using view_header(2) [OF view] by simp
  have uniq: "mdr_name (L ! j) \<noteq> mdr_name e" if "j < k" for j
    using distinct_names_inj [OF d, of j k] that k rem by (auto simp: removable_def)
  obtain eh where eh: "msm_minidump_clear_headers e (minidump_elfheader s) = Some (0, eh)"
    "elf_rep bs (remove_nth k L) eh"
    using clear_headers_rep [OF view_header(1) [OF view] k] rem uniq unfolding removable_def by blast
  obtain s2 where s2: "drop_rm_entry k (s1\<lparr>minidump_elfheader := eh\<rparr>) = Some s2"
    "rm_view bs (remove_nth k L) A (remove_nth k (sl[k := 0])) q s2"
    using view_drop [OF s1 k' _ eh(2), of A] k by (auto simp: remove_nth_left)
  have "remove_nth k (sl[k := 0]) = remove_nth k sl" by (simp add: remove_nth_def)
  then show ?thesis
    using num t t1 eh(1) s1 s2
    by (auto simp: md_rm_remove_work_def md_rm_remove_work_start_def md_rm_remove_work_deregistered_def)
qed

text \<open>An update: the old slot is given back, a new one is taken, and the headers get the new addresses.\<close>

lemma update_work_effect:
  assumes view: "rm_view bs L A sl q s" and k: "k < length L" and e: "wf_region e" "mdr_name e = mdr_name (L ! k)"
    and slot: "slot = register (phys_addr e) (mdr_size e) (mdr_name e) (length (mdr_name e))"
  shows "\<exists>s'. md_rm_update_work register deregister e s = Some s' \<and>
    (if deregister (nat (sl ! k mod 2 ^ 16)) < 0 \<or> slot < 0 then rm_view bs L A (sl[k := 0]) q s'
     else rm_view bs (L[k := move_region (L ! k) e]) A (sl[k := slot]) q s')"
proof -
  have k': "k < length (L @ A)" and nm: "mdr_name e = mdr_name ((L @ A) ! k)" using k e by (auto simp: nth_append)
  note num = view_index [OF view k' nm]
  obtain t s1 where t: "minidump_rm_table s = Some t" "slot_num (rm_entry t k) = sl ! k"
    "minidump_elfheader s1 = minidump_elfheader s"
    "put_rm_entry k ((rm_entry t k)\<lparr>slot_num := 0\<rparr>) s = Some s1"
    and s1: "rm_view bs L A (sl[k := 0]) q s1" by (rule view_put [OF view k', of 0])
  obtain t1 s2 where t1: "minidump_rm_table s1 = Some t1" "rmr_name (rm_entry t1 k) = mdr_name e"
    "minidump_elfheader s2 = minidump_elfheader s1"
    "put_rm_entry k ((rm_entry t1 k)\<lparr>slot_num := slot\<rparr>) s1 = Some s2"
    and s2: "rm_view bs L A (sl[k := slot]) q s2" using view_put [OF s1 k', of slot] nm by (metis list_update_overwrite)
  let ?r = "move_region (L ! k) e"
  obtain eh where eh: "md_update_elf_header (int k) e (minidump_elfheader s) = Some eh" "elf_rep bs (L[k := ?r]) eh"
    using md_update_elf_header_rep [OF view_header(1) [OF view] k wf_regionD(3) [OF e(1)]] by blast
  have "map mdr_name (L[k := ?r]) = map mdr_name L"
    using map_upd_same [OF k, of mdr_name ?r "length L"] by simp
  moreover have "\<forall>r \<in> set (L[k := ?r] @ A). wf_region r \<and> sized r" if "\<forall>r \<in> set (L @ A). wf_region r \<and> sized r"
    using that e(1) k nth_mem [OF k] set_update_subset_insert [of L k ?r]
    by (auto simp: wf_region_def sized_def dest!: subsetD)
  ultimately have "rm_view bs (L[k := ?r]) A (sl[k := slot]) q (s2\<lparr>minidump_elfheader := eh\<rparr>)"
    using s2 eh(2) unfolding rm_view_def rm_rep_def by (fastforce simp: rm_names_def rm_slots_def)
  then show ?thesis
    using num t t1 eh(1) s1 slot
    by (auto simp: md_rm_update_work_def md_rm_update_work_start_def md_rm_update_work_deregistered_def
        md_rm_update_work_registered_def)
qed

lemma work_missing:
  assumes "rm_view bs L A sl q s" and "mdr_name (rq_entry rq) \<notin> set (map mdr_name (L @ A))"
  shows "minidump_rm_work register deregister rq s = Some s"
  using view_entry_num [OF assms(1), of "rq_entry rq"] assms(2) name_index_None [of "L @ A" "mdr_name (rq_entry rq)"]
  by (cases "work_cmd rq")
    (auto simp: minidump_rm_work_def md_rm_add_work_def md_rm_add_work_start_def md_rm_remove_work_def
      md_rm_remove_work_start_def md_rm_update_work_def md_rm_update_work_start_def errno_defs)

subsection \<open>Lookups\<close>

text \<open>The lookup in the resource manager's table reads the program header, with the addresses exchanged.\<close>

definition swapped_region :: "md_region \<Rightarrow> md_region" where
  "swapped_region r = zero_region\<lparr>mdr_name := mdr_name r, phys_addr := virt_addr r, virt_addr := phys_addr r,
     mdr_size := mdr_size r\<rparr>"

lemma rm_get_region_found:
  assumes rep: "rm_rep bs L A t s" and k: "k < length L"
  shows "md_get_region (mdr_name (L ! k)) s = Some (swapped_region (L ! k))"
proof -
  have n: "k < num_regions s" "num_regions s = length (L @ A)" using k rm_rep_num [OF rep] by auto
  have d: "distinct (map mdr_name (L @ A))" and s: "is_rm_minidump s" "minidump_rm_table s = Some t"
    and elf: "elf_rep bs L (minidump_elfheader s)" and len: "length (L @ A) \<le> MAX_ELF_REGIONS"
    and wf: "wf_region (L ! k)"
    using rep k by (auto simp: rm_rep_def)
  from elf obtain hdr where hdr: "ehdr (minidump_elfheader s) = Some hdr" "hdr_rep bs L hdr" by (rule elf_repE)
  have "phdrs hdr (k + 1) = region_phdr L k" using hdr(2) k by (simp add: hdr_rep_def)
  moreover have "rmr_name (rm_entry t k) = mdr_name (L ! k)"
    using rm_rep_entry [OF rep n(1)] k by (simp add: nth_append)
  moreover have "mdr_name (L ! j) \<noteq> mdr_name (L ! k)" if "j < k" for j
    using d distinct_names_inj [of L j k] k that by simp
  then have "find (\<lambda>i. rmr_name (rm_entry t i) = mdr_name (L ! k)) [0..<num_regions s] = Some k"
    by (intro find_upt_first) (use n rm_rep_entry [OF rep] k in \<open>auto simp: nth_append\<close>)
  ultimately show ?thesis
    using s hdr(1) n len wf_regionD(2) [OF wf]
    by (simp add: md_get_region_def swapped_region_def region_phdr_def MAX_ELF_REGIONS_def md_consts)
qed

lemma rm_get_region_missing:
  assumes rep: "rm_rep bs L A t s" and fresh: "nm \<notin> set (map mdr_name (L @ A))"
  shows "md_get_region nm s = Some zero_region"
proof -
  have "find (\<lambda>i. rmr_name (rm_entry t i) = nm) [0..<num_regions s] = None"
    unfolding find_upt_None using fresh rm_rep_entry [OF rep] rm_rep_num [OF rep]
    by (metis image_eqI length_append nth_mem set_map)
  then show ?thesis
    using rep rm_rep_num [OF rep] by (simp add: md_get_region_def rm_rep_def MAX_ELF_REGIONS_def md_consts)
qed

end
