(* ===== verification/Md_Stack.thy ===== *)
theory Md_Stack
  imports Md_Log
begin

unbundle bit_operations_syntax

text \<open>
  The kernel stacks in the minidump, from \<^verbatim>\<open>minidump/minidump_log.c\<close>: the stack of a dying task
  (\<^verbatim>\<open>dump_stack_minidump\<close>), and, in a build with \<^verbatim>\<open>CONFIG_QCOM_DYN_MINIDUMP_STACK\<close>, one set of regions
  per CPU that follows the running task, and one for the task that suspends the system.

  What the kernel knows about the current task and its stack is a record (\<open>task_ctx\<close>); the address
  translations and the build's constants are fields of \<open>stack_env\<close>.
\<close>

subsection \<open>Environment and state\<close>

definition PAGE_BYTES :: u64 where "PAGE_BYTES = of_nat PAGE_SIZE"

record stack_env =
  dyn_minidump_stack :: bool
  vmap_stack :: bool
  thread_size :: u64
  kimage_vaddr :: u64
  sizeof_task_struct :: u64
  vmalloc_phys :: "u64 \<Rightarrow> u64"
  linear_phys :: "u64 \<Rightarrow> u64"
  stack_alloc :: bool

record task_ctx =
  ctx_cpu :: nat
  ctx_idle :: bool
  ctx_task :: u64
  ctx_sp :: u64
  area_addr :: u64
  area_size :: u64

definition STACK_NUM_PAGES :: "stack_env \<Rightarrow> nat" where
  "STACK_NUM_PAGES env = (if vmap_stack env then unat (thread_size env) div PAGE_SIZE else 1)"

record md_stack_cpu_data =
  stack_mdidx :: "int list"
  stack_mdr :: "md_region list"

record md_suspend_context_data =
  task_mdno :: int
  susp_stack :: md_stack_cpu_data
  task_mdr :: md_region
  susp_init :: bool

record stack_state =
  md_current_stack_init :: bool
  md_stack_data :: "nat \<Rightarrow> md_stack_cpu_data"
  md_suspend_context :: md_suspend_context_data
  sched_switch_hooked :: bool
  pm_hooked :: bool
  stack_md :: md_globals

definition zero_stack_data :: "stack_env \<Rightarrow> md_stack_cpu_data" where
  "zero_stack_data env = \<lparr>stack_mdidx = replicate (STACK_NUM_PAGES env) 0,
     stack_mdr = replicate (STACK_NUM_PAGES env) zero_region\<rparr>"

subsection \<open>The stack of a dying task\<close>

text \<open>The entry is filled in place; the caller gets it back together with the result.\<close>

definition stack_phys :: "stack_env \<Rightarrow> bool \<Rightarrow> u64 \<Rightarrow> u64" where
  "stack_phys env vmap sp = (if vmap then vmalloc_phys env sp else linear_phys env sp)"

definition register_stack_entry ::
  "stack_env \<Rightarrow> bool \<Rightarrow> md_region \<Rightarrow> u64 \<Rightarrow> u64 \<Rightarrow> md_globals \<Rightarrow> (int \<times> md_region \<times> md_globals) option" where
  "register_stack_entry env vmap ksp_entry sp sz s = do {
     let e = ksp_entry\<lparr>virt_addr := sp, mdr_size := sz, phys_addr := stack_phys env vmap sp\<rparr>;
     (entry, s) \<leftarrow> msm_minidump_add_region (stack_alloc env) (Some e) s;
     Some (entry, e, s) }"

definition in_stack_range :: "u64 \<Rightarrow> u64 \<Rightarrow> u32 \<Rightarrow> bool" where
  "in_stack_range sp base_addr stack_size = (base_addr \<le> sp \<and> sp < base_addr + ucast stack_size)"

definition calculate_copy_pages :: "u64 \<Rightarrow> u64 \<Rightarrow> u64 \<Rightarrow> u32" where
  "calculate_copy_pages sp base area_sz =
     (if in_stack_range sp base (ucast area_sz)
      then let offset = sp - base;
               stack_pages = (ucast (area_sz div PAGE_BYTES) :: u32)
           in ucast (ucast stack_pages - offset div PAGE_BYTES)
      else 0)"

definition kstack_page_name :: "nat \<Rightarrow> nat \<Rightarrow> string" where
  "kstack_page_name cpu i =
     scnprintf_str (MAX_NAME_LENGTH + 1) (''KSTACK'' @ dec_str cpu @ ''_'' @ dec_str i)"

definition kstack_name :: "nat \<Rightarrow> string" where
  "kstack_name cpu = scnprintf_str (MAX_NAME_LENGTH + 1) (''KSTACK'' @ dec_str cpu)"

definition ktask_region :: "stack_env \<Rightarrow> task_ctx \<Rightarrow> md_region" where
  "ktask_region env ctx = zero_region\<lparr>
     mdr_name := scnprintf_str (MAX_NAME_LENGTH + 1) (''KTASK'' @ dec_str (ctx_cpu ctx)),
     virt_addr := ctx_task ctx, phys_addr := linear_phys env (ctx_task ctx),
     mdr_size := sizeof_task_struct env\<rparr>"

text \<open>The loop over the pages, \<open>n\<close> rounds from page \<open>i\<close>.  The entry's unset id is 0.\<close>

fun dump_stack_pages :: "stack_env \<Rightarrow> nat \<Rightarrow> nat \<Rightarrow> nat \<Rightarrow> u64 \<Rightarrow> md_globals \<Rightarrow> md_globals option" where
  "dump_stack_pages env cpu i 0 sp s = Some s"
| "dump_stack_pages env cpu i (Suc n) sp s = do {
     (_, _, s) \<leftarrow> register_stack_entry env True (zero_region\<lparr>mdr_name := kstack_page_name cpu i\<rparr>) sp PAGE_BYTES s;
     dump_stack_pages env cpu (i + 1) n (sp + PAGE_BYTES) s }"

definition dump_stack_minidump ::
  "stack_env \<Rightarrow> task_ctx \<Rightarrow> u64 \<Rightarrow> md_log \<times> md_globals \<Rightarrow> (md_log \<times> md_globals) option" where
  "dump_stack_minidump env ctx sp st =
     (let (lg, s) = st
      in if dyn_minidump_stack env then Some st
         else if ctx_idle ctx then Some st
         else do {
           let lg = lg\<lparr>is_vmap_stack := vmap_stack env\<rparr>;
           let sp = (if sp < kimage_vaddr env \<or> - 256 < sp then ctx_sp ctx else sp);
           s \<leftarrow> (if is_vmap_stack lg
                  then (let sp = sp AND NOT (PAGE_BYTES - 1)
                        in dump_stack_pages env (ctx_cpu ctx) 0
                             (unat (calculate_copy_pages sp (area_addr ctx) (area_size ctx))) sp s)
                  else do {
                    (_, _, s) \<leftarrow> register_stack_entry env False (zero_region\<lparr>mdr_name := kstack_name (ctx_cpu ctx)\<rparr>)
                       (sp AND NOT (thread_size env - 1)) (thread_size env) s;
                    Some s });
           (_, s) \<leftarrow> msm_minidump_add_region (stack_alloc env) (Some (ktask_region env ctx)) s;
           Some (lg, s) })"

subsection \<open>Stacks that follow the running task\<close>

definition update_stack_entry ::
  "stack_env \<Rightarrow> bool \<Rightarrow> md_region \<Rightarrow> u64 \<Rightarrow> int \<Rightarrow> md_globals \<Rightarrow> (md_region \<times> md_globals) option" where
  "update_stack_entry env vmap ksp_entry sp mdno s = do {
     let e = ksp_entry\<lparr>virt_addr := sp, phys_addr := stack_phys env vmap sp\<rparr>;
     (_, s) \<leftarrow> msm_minidump_update_region (stack_alloc env) mdno (Some e) s;
     Some (e, s) }"

text \<open>The name is \<open>None\<close> in an update.\<close>

definition stack_slot ::
  "stack_env \<Rightarrow> bool \<Rightarrow> string option \<Rightarrow> u64 \<Rightarrow> u64 \<Rightarrow> nat \<Rightarrow> md_stack_cpu_data \<times> md_globals \<Rightarrow>
     (md_stack_cpu_data \<times> md_globals) option" where
  "stack_slot env vmap name sp sz i st =
     (let (d, s) = st
      in if length (stack_mdr d) \<le> i \<or> length (stack_mdidx d) \<le> i then None
         else case name of
           Some nm \<Rightarrow> do {
             (r, e, s) \<leftarrow> register_stack_entry env vmap ((stack_mdr d ! i)\<lparr>mdr_name := nm\<rparr>) sp sz s;
             Some (d\<lparr>stack_mdr := (stack_mdr d)[i := e], stack_mdidx := (stack_mdidx d)[i := r]\<rparr>, s) }
         | None \<Rightarrow> do {
             (e, s) \<leftarrow> update_stack_entry env vmap (stack_mdr d ! i) sp (stack_mdidx d ! i) s;
             Some (d\<lparr>stack_mdr := (stack_mdr d)[i := e]\<rparr>, s) })"

fun vmapped_stack_loop ::
  "stack_env \<Rightarrow> bool \<Rightarrow> string option \<Rightarrow> u64 \<Rightarrow> nat \<Rightarrow> nat \<Rightarrow> md_stack_cpu_data \<times> md_globals \<Rightarrow>
     (md_stack_cpu_data \<times> md_globals) option" where
  "vmapped_stack_loop env vmap name sp i 0 st = Some st"
| "vmapped_stack_loop env vmap name sp i (Suc n) st = do {
     st \<leftarrow> stack_slot env vmap
        (map_option (\<lambda>nm. scnprintf_str (MAX_NAME_LENGTH + 1) (nm @ ''_'' @ dec_str i)) name) sp PAGE_BYTES i st;
     vmapped_stack_loop env vmap name (sp + PAGE_BYTES) (i + 1) n st }"

definition register_vmapped_stack ::
  "stack_env \<Rightarrow> bool \<Rightarrow> u64 \<Rightarrow> string option \<Rightarrow> md_stack_cpu_data \<times> md_globals \<Rightarrow>
     (md_stack_cpu_data \<times> md_globals) option" where
  "register_vmapped_stack env vmap sp name st =
     vmapped_stack_loop env vmap name (sp AND NOT (PAGE_BYTES - 1)) 0 (STACK_NUM_PAGES env) st"

definition register_normal_stack ::
  "stack_env \<Rightarrow> bool \<Rightarrow> u64 \<Rightarrow> string option \<Rightarrow> md_stack_cpu_data \<times> md_globals \<Rightarrow>
     (md_stack_cpu_data \<times> md_globals) option" where
  "register_normal_stack env vmap sp name st =
     stack_slot env vmap (map_option (scnprintf_str (MAX_NAME_LENGTH + 1)) name)
       (sp AND NOT (thread_size env - 1)) (thread_size env) 0 st"

definition update_md_stack ::
  "stack_env \<Rightarrow> bool \<Rightarrow> u64 \<Rightarrow> md_stack_cpu_data \<times> md_globals \<Rightarrow> (md_stack_cpu_data \<times> md_globals) option" where
  "update_md_stack env vmap sp st =
     (if vmap
      then if \<exists>i \<in> set [0..<STACK_NUM_PAGES env]. stack_mdidx (fst st) ! i < 0 then Some st
           else register_vmapped_stack env vmap sp None st
      else if stack_mdidx (fst st) ! 0 < 0 then Some st
           else register_normal_stack env vmap sp None st)"

definition update_md_cpu_stack :: "stack_env \<Rightarrow> bool \<Rightarrow> bool \<Rightarrow> nat \<Rightarrow> u64 \<Rightarrow> stack_state \<Rightarrow> stack_state option" where
  "update_md_cpu_stack env vmap idle cpu sp st =
     (if idle \<or> \<not> md_current_stack_init st then Some st
      else do {
        (d, s) \<leftarrow> update_md_stack env vmap sp (md_stack_data st cpu, stack_md st);
        Some (st\<lparr>md_stack_data := (md_stack_data st)(cpu := d), stack_md := s\<rparr>) })"

text \<open>The next task: whether it is the idle task, its CPU and its stack.\<close>

definition md_current_stack_notifer ::
  "stack_env \<Rightarrow> bool \<Rightarrow> bool \<Rightarrow> nat \<Rightarrow> u64 \<Rightarrow> stack_state \<Rightarrow> stack_state option" where
  "md_current_stack_notifer env vmap next_idle next_cpu next_stack st =
     update_md_cpu_stack env vmap next_idle next_cpu next_stack st"

definition current_stack :: "bool \<Rightarrow> task_ctx \<Rightarrow> u64" where
  "current_stack vmap ctx = (if vmap then area_addr ctx else ctx_sp ctx)"

definition md_current_stack_ipi_handler ::
  "stack_env \<Rightarrow> bool \<Rightarrow> task_ctx \<Rightarrow> stack_state \<Rightarrow> stack_state option" where
  "md_current_stack_ipi_handler env vmap ctx st =
     (if ctx_idle ctx then Some st
      else update_md_cpu_stack env vmap (ctx_idle ctx) (ctx_cpu ctx) (current_stack vmap ctx) st)"

subsection \<open>The suspending task\<close>

definition update_md_current_task ::
  "stack_env \<Rightarrow> task_ctx \<Rightarrow> md_region \<Rightarrow> int \<Rightarrow> md_globals \<Rightarrow> (md_region \<times> md_globals) option" where
  "update_md_current_task env ctx mdr mdno s = do {
     let e = mdr\<lparr>virt_addr := ctx_task ctx, phys_addr := linear_phys env (ctx_task ctx)\<rparr>;
     (_, s) \<leftarrow> msm_minidump_update_region (stack_alloc env) mdno (Some e) s;
     Some (e, s) }"

definition update_md_suspend_current_stack ::
  "stack_env \<Rightarrow> bool \<Rightarrow> task_ctx \<Rightarrow> stack_state \<Rightarrow> stack_state option" where
  "update_md_suspend_current_stack env vmap ctx st = do {
     (d, s) \<leftarrow> update_md_stack env vmap (current_stack vmap ctx) (susp_stack (md_suspend_context st), stack_md st);
     Some (st\<lparr>md_suspend_context := (md_suspend_context st)\<lparr>susp_stack := d\<rparr>, stack_md := s\<rparr>) }"

definition update_md_suspend_current_task ::
  "stack_env \<Rightarrow> task_ctx \<Rightarrow> stack_state \<Rightarrow> stack_state option" where
  "update_md_suspend_current_task env ctx st =
     (let c = md_suspend_context st
      in if task_mdno c < 0 then Some st
         else do {
           (e, s) \<leftarrow> update_md_current_task env ctx (task_mdr c) (task_mdno c) (stack_md st);
           Some (st\<lparr>md_suspend_context := c\<lparr>task_mdr := e\<rparr>, stack_md := s\<rparr>) })"

definition update_md_suspend_currents ::
  "stack_env \<Rightarrow> bool \<Rightarrow> task_ctx \<Rightarrow> stack_state \<Rightarrow> stack_state option" where
  "update_md_suspend_currents env vmap ctx st =
     (if \<not> susp_init (md_suspend_context st) then Some st
      else do {
        st \<leftarrow> update_md_suspend_current_stack env vmap ctx st;
        update_md_suspend_current_task env ctx st })"

datatype pm_event = PM_SUSPEND_PREPARE | PM_OTHER_EVENT

definition NOTIFY_DONE :: int where "NOTIFY_DONE = 0"

definition minidump_pm_notifier ::
  "stack_env \<Rightarrow> bool \<Rightarrow> task_ctx \<Rightarrow> pm_event \<Rightarrow> stack_state \<Rightarrow> (int \<times> stack_state) option" where
  "minidump_pm_notifier env vmap ctx event st = do {
     st \<leftarrow> (case event of
        PM_SUSPEND_PREPARE \<Rightarrow> update_md_suspend_currents env vmap ctx st
      | PM_OTHER_EVENT \<Rightarrow> Some st);
     Some (NOTIFY_DONE, st) }"

subsection \<open>Registration of the dummies\<close>

definition register_stack_named ::
  "stack_env \<Rightarrow> bool \<Rightarrow> u64 \<Rightarrow> string \<Rightarrow> md_stack_cpu_data \<times> md_globals \<Rightarrow>
     (md_stack_cpu_data \<times> md_globals) option" where
  "register_stack_named env vmap sp name st =
     (let nm = scnprintf_str MAX_NAME_LENGTH name
      in if vmap then register_vmapped_stack env vmap sp (Some nm) st
         else register_normal_stack env vmap sp (Some nm) st)"

fun register_cpu_stacks ::
  "stack_env \<Rightarrow> bool \<Rightarrow> u64 \<Rightarrow> nat list \<Rightarrow> stack_state \<Rightarrow> stack_state option" where
  "register_cpu_stacks env vmap sp [] st = Some st"
| "register_cpu_stacks env vmap sp (cpu # cpus) st = do {
     (d, s) \<leftarrow> register_stack_named env vmap sp (''KSTACK'' @ dec_str cpu) (md_stack_data st cpu, stack_md st);
     register_cpu_stacks env vmap sp cpus
       (st\<lparr>md_stack_data := (md_stack_data st)(cpu := d), stack_md := s\<rparr>) }"

fun run_ipi_handlers ::
  "stack_env \<Rightarrow> bool \<Rightarrow> task_ctx list \<Rightarrow> stack_state \<Rightarrow> stack_state option" where
  "run_ipi_handlers env vmap [] st = Some st"
| "run_ipi_handlers env vmap (c # cs) st = do {
     st \<leftarrow> md_current_stack_ipi_handler env vmap c st;
     run_ipi_handlers env vmap cs st }"

text \<open>\<open>cpus\<close> are the possible CPUs, \<open>others\<close> what runs on the other CPUs when they are interrupted.\<close>

definition register_current_stack ::
  "stack_env \<Rightarrow> bool \<Rightarrow> task_ctx \<Rightarrow> nat list \<Rightarrow> task_ctx list \<Rightarrow> stack_state \<Rightarrow> stack_state option" where
  "register_current_stack env vmap ctx cpus others st = do {
     st \<leftarrow> register_cpu_stacks env vmap (current_stack vmap ctx) cpus st;
     let st = st\<lparr>sched_switch_hooked := True, md_current_stack_init := True\<rparr>;
     run_ipi_handlers env vmap others st }"

definition register_suspend_stack ::
  "stack_env \<Rightarrow> bool \<Rightarrow> task_ctx \<Rightarrow> stack_state \<Rightarrow> stack_state option" where
  "register_suspend_stack env vmap ctx st = do {
     (d, s) \<leftarrow> register_stack_named env vmap (current_stack vmap ctx) ''KSUSPSTK''
        (susp_stack (md_suspend_context st), stack_md st);
     Some (st\<lparr>md_suspend_context := (md_suspend_context st)\<lparr>susp_stack := d\<rparr>, stack_md := s\<rparr>) }"

definition register_current_task ::
  "stack_env \<Rightarrow> task_ctx \<Rightarrow> string \<Rightarrow> md_region \<Rightarrow> md_globals \<Rightarrow> (int \<times> md_region \<times> md_globals) option" where
  "register_current_task env ctx name_str mdr s = do {
     let e = mdr\<lparr>mdr_name := scnprintf_str (MAX_NAME_LENGTH + 1) name_str, virt_addr := ctx_task ctx,
        phys_addr := linear_phys env (ctx_task ctx), mdr_size := sizeof_task_struct env\<rparr>;
     (r, s) \<leftarrow> msm_minidump_add_region (stack_alloc env) (Some e) s;
     Some (r, e, s) }"

definition register_suspend_current_task ::
  "stack_env \<Rightarrow> task_ctx \<Rightarrow> stack_state \<Rightarrow> stack_state option" where
  "register_suspend_current_task env ctx st = do {
     let c = md_suspend_context st;
     (r, e, s) \<leftarrow> register_current_task env ctx (scnprintf_str MAX_NAME_LENGTH ''KSUSPTASK'') (task_mdr c) (stack_md st);
     Some (st\<lparr>md_suspend_context := c\<lparr>task_mdno := r, task_mdr := e\<rparr>, stack_md := s\<rparr>) }"

definition register_suspend_context ::
  "stack_env \<Rightarrow> bool \<Rightarrow> task_ctx \<Rightarrow> stack_state \<Rightarrow> stack_state option" where
  "register_suspend_context env vmap ctx st = do {
     st \<leftarrow> register_suspend_stack env vmap ctx st;
     st \<leftarrow> register_suspend_current_task env ctx st;
     let st = st\<lparr>pm_hooked := True\<rparr>;
     Some (st\<lparr>md_suspend_context := (md_suspend_context st)\<lparr>susp_init := True\<rparr>\<rparr>) }"

subsection \<open>Pages\<close>

lemma page_mask: "(x :: u64) AND NOT (PAGE_BYTES - 1) = x div 4096 * 4096"
proof -
  have m: "PAGE_BYTES - 1 = mask 12" by (simp add: PAGE_BYTES_def PAGE_SIZE_def mask_eq_exp_minus_1)
  have "x AND NOT (mask 12) = push_bit 12 (drop_bit 12 x)"
    by (rule bit_word_eqI) (auto simp: bit_simps)
  then show ?thesis unfolding m by (simp add: push_bit_eq_mult drop_bit_eq_div)
qed

lemma unat_page_mask: "unat ((x :: u64) AND NOT (PAGE_BYTES - 1)) = unat x div 4096 * 4096"
proof -
  have "unat x div 4096 * 4096 \<le> unat x" by (rule div_times_less_eq_dividend)
  also have "unat x < 2 ^ 64" using unsigned_less [of x] by simp
  finally have "unat x div 4096 * 4096 < 2 ^ 64" .
  then show ?thesis unfolding page_mask
   by (subst unat_mult_lem [THEN iffD1]) (simp_all add: unat_div)
qed

subsection \<open>The pages of a stack as regions\<close>

definition stack_page :: "stack_env \<Rightarrow> string \<Rightarrow> u64 \<Rightarrow> md_region" where
  "stack_page env nm sp = zero_region\<lparr>mdr_name := nm, virt_addr := sp,
     phys_addr := stack_phys env True sp, mdr_size := PAGE_BYTES\<rparr>"

definition stack_pages :: "stack_env \<Rightarrow> string \<Rightarrow> nat \<Rightarrow> nat \<Rightarrow> u64 \<Rightarrow> md_region list" where
  "stack_pages env nm i n sp =
     map (\<lambda>j. stack_page env (nm @ ''_'' @ dec_str (i + j)) (sp + of_nat j * PAGE_BYTES)) [0..<n]"

lemma stack_pages_Suc:
  "stack_pages env nm i (Suc n) sp =
     stack_page env (nm @ ''_'' @ dec_str i) sp # stack_pages env nm (Suc i) n (sp + PAGE_BYTES)"
proof -
  have "[0..<Suc n] = 0 # map Suc [0..<n]" by (simp add: upt_conv_Cons map_Suc_upt del: upt_Suc)
  then show ?thesis by (simp add: stack_pages_def algebra_simps del: upt_Suc)
qed

lemma stack_pages_0 [simp]: "stack_pages env nm i 0 sp = []"
  by (simp add: stack_pages_def)

lemma length_stack_pages [simp]: "length (stack_pages env nm i n sp) = n"
  by (simp add: stack_pages_def)

lemma stack_page_simps [simp]:
  "mdr_name (stack_page env nm sp) = nm" "virt_addr (stack_page env nm sp) = sp"
  "mdr_size (stack_page env nm sp) = PAGE_BYTES" "phys_addr (stack_page env nm sp) = vmalloc_phys env sp"
  by (simp_all add: stack_page_def stack_phys_def)

lemma stack_page_names: "map mdr_name (stack_pages env nm i n sp) = map (\<lambda>j. nm @ ''_'' @ dec_str (i + j)) [0..<n]"
  by (simp add: stack_pages_def)

lemma distinct_stack_pages: "distinct (map mdr_name (stack_pages env nm i n sp))"
  by (simp add: stack_page_names distinct_map inj_on_def dec_str_inj)

text \<open>A stack that does not wrap around the address space and whose page numbers have at most two digits.\<close>

lemma wf_stack_pages:
  assumes nm: "cstring nm" "length nm \<le> 9" and n: "i + n \<le> 100"
    and sp: "0 < unat sp" "unat sp + 4096 * n \<le> 2 ^ 64"
  shows "\<forall>e \<in> set (stack_pages env nm i n sp). wf_region e"
proof -
  have "wf_region (stack_page env (nm @ ''_'' @ dec_str (i + j)) (sp + of_nat j * PAGE_BYTES))" if j: "j < n" for j
  proof -
    have "unat (of_nat j * PAGE_BYTES) = j * 4096"
      using j n by (simp add: PAGE_BYTES_def PAGE_SIZE_def unat_word_ariths unat_of_nat)
    then have "unat (sp + of_nat j * PAGE_BYTES) = unat sp + j * 4096"
      using j sp by (subst unat_add_lem [THEN iffD1]) auto
    then have "sp + of_nat j * PAGE_BYTES \<noteq> 0" using sp by (metis add_is_0 less_not_refl unsigned_0)
    moreover have "length (dec_str (i + j)) \<le> 2" using j n by (intro length_dec_str) auto
    ultimately show ?thesis
      using nm by (auto simp: wf_region_def md_consts cstring_Cons NUL_def PAGE_BYTES_def PAGE_SIZE_def)
  qed
  then show ?thesis by (auto simp: stack_pages_def)
qed

subsection \<open>How many pages\<close>

lemma page_offset:
  fixes base sp :: nat
  assumes "4096 dvd base" and "base \<le> sp" and "sp < base + 4096 * n"
  shows "sp div 4096 * 4096 = base + 4096 * ((sp - base) div 4096)" and "(sp - base) div 4096 < n"
proof -
  from assms(1) obtain b where b: "base = 4096 * b" by blast
  show "sp div 4096 * 4096 = base + 4096 * ((sp - base) div 4096)"
    using assms(2) div_mult_self2 [of 4096 "sp - 4096 * b" b] by (simp add: b)
  show "(sp - base) div 4096 < n" using assms(2,3) by (simp add: div_less_iff_less_mult)
qed

lemma unat_ucast_32_64: "unat (ucast (x :: u32) :: u64) = unat x"
proof -
  have "unat x < 2 ^ 32" using unsigned_less [of x] by simp
  then show ?thesis by (simp add: unsigned_ucast_eq take_bit_nat_eq_self)
qed

lemma calculate_copy_pages_ok:
  assumes area: "unat base + 4096 * n < 2 ^ 64" "unat area_sz = 4096 * n" "4096 * n < 2 ^ 32" "4096 dvd unat base"
    and sp: "unat base \<le> unat sp" "unat sp < unat base + 4096 * n"
  shows "unat (calculate_copy_pages (sp AND NOT (PAGE_BYTES - 1)) base area_sz) =
     n - (unat sp - unat base) div 4096"
proof -
  let ?p = "sp AND NOT (PAGE_BYTES - 1)"
  define k where "k = (unat sp - unat base) div 4096"
  have p: "unat ?p = unat base + 4096 * k" and k: "k < n"
    using page_offset [OF area(4) sp] by (simp_all add: unat_page_mask k_def)
  have "unat (ucast area_sz :: u32) = 4096 * n"
    using area by (simp add: unsigned_ucast_eq take_bit_nat_eq_self)
  then have sz: "unat (ucast (ucast area_sz :: u32) :: u64) = 4096 * n" by (simp add: unat_ucast_32_64)
  then have "unat (base + ucast (ucast area_sz :: u32)) = unat base + 4096 * n"
    using area(1) by (subst unat_add_lem [THEN iffD1]) auto
  then have in_range: "in_stack_range ?p base (ucast area_sz)"
    using k by (simp add: in_stack_range_def word_le_nat_alt word_less_nat_alt p)
  have "unat (?p - base) = 4096 * k"
    using p by (subst unat_sub) (simp_all add: word_le_nat_alt)
  then have off: "unat ((?p - base) div PAGE_BYTES) = k"
    by (simp add: unat_div PAGE_BYTES_def PAGE_SIZE_def)
  have "unat (area_sz div PAGE_BYTES) = n" by (simp add: unat_div PAGE_BYTES_def PAGE_SIZE_def area)
  then have "unat (ucast (area_sz div PAGE_BYTES) :: u32) = n"
    using area(3) by (simp add: unsigned_ucast_eq take_bit_nat_eq_self)
  then have "unat (ucast (ucast (area_sz div PAGE_BYTES) :: u32) :: u64) = n" by (simp add: unat_ucast_32_64)
  then have "unat (ucast (ucast (area_sz div PAGE_BYTES) :: u32) - (?p - base) div PAGE_BYTES) = n - k"
    using off k by (subst unat_sub) (simp_all add: word_le_nat_alt)
  then show ?thesis
    using area(3) in_range unfolding calculate_copy_pages_def k_def [symmetric]
    by (simp add: Let_def unsigned_ucast_eq take_bit_nat_eq_self)
qed

lemma dump_stack_pages_eq:
  assumes "cpu < 1000" and "i + n \<le> 100"
  shows "dump_stack_pages env cpu i n sp s =
     add_regions (stack_alloc env) (stack_pages env (''KSTACK'' @ dec_str cpu) i n sp) s"
  using assms(2)
proof (induction n arbitrary: i sp s)
  case (Suc n)
  have "kstack_page_name cpu i = (''KSTACK'' @ dec_str cpu) @ ''_'' @ dec_str i"
    using length_dec_str [of cpu 3] length_dec_str [of i 2] assms(1) Suc.prems
    by (simp add: kstack_page_name_def scnprintf_str_def md_consts)
  with Suc show ?case
    by (simp add: stack_pages_Suc register_stack_entry_def stack_page_def zero_region_def Let_def
        case_prod_unfold)
qed simp

subsection \<open>The stack of a dying task\<close>

text \<open>
  What the dump relies on: the stack area of the current task consists of \<open>n\<close> pages, the stack
  pointer that the dump uses lies in it, and the task can be registered.
\<close>

definition chosen_sp :: "stack_env \<Rightarrow> task_ctx \<Rightarrow> u64 \<Rightarrow> u64" where
  "chosen_sp env ctx sp = (if sp < kimage_vaddr env \<or> - 256 < sp then ctx_sp ctx else sp)"

definition stack_ready :: "stack_env \<Rightarrow> task_ctx \<Rightarrow> nat \<Rightarrow> u64 \<Rightarrow> bool" where
  "stack_ready env ctx n sp \<longleftrightarrow> \<not> ctx_idle ctx \<and> ctx_cpu ctx < 1000 \<and> n \<le> 100 \<and>
     0 < unat (area_addr ctx) \<and> 4096 dvd unat (area_addr ctx) \<and> unat (area_size ctx) = 4096 * n \<and>
     unat (area_addr ctx) + 4096 * n < 2 ^ 64 \<and>
     unat (area_addr ctx) \<le> unat sp \<and> unat sp < unat (area_addr ctx) + 4096 * n \<and>
     ctx_task ctx \<noteq> 0 \<and> 4 dvd unat (sizeof_task_struct env)"

definition free_for_stack :: "md_region list \<Rightarrow> bool" where
  "free_for_stack L \<longleftrightarrow> (\<forall>r \<in> set L. take 6 (mdr_name r) \<noteq> ''KSTACK'' \<and> take 5 (mdr_name r) \<noteq> ''KTASK'')"

definition dumped_stack :: "stack_env \<Rightarrow> task_ctx \<Rightarrow> nat \<Rightarrow> u64 \<Rightarrow> md_region list" where
  "dumped_stack env ctx n sp = stack_pages env (''KSTACK'' @ dec_str (ctx_cpu ctx)) 0
     (n - (unat sp - unat (area_addr ctx)) div 4096) (sp AND NOT (PAGE_BYTES - 1))"

lemma ktask_name: "ctx_cpu ctx < 1000 \<Longrightarrow> mdr_name (ktask_region env ctx) = ''KTASK'' @ dec_str (ctx_cpu ctx)"
  using length_dec_str [of "ctx_cpu ctx" 3]
  by (simp add: ktask_region_def scnprintf_str_def md_consts)

lemma wf_ktask: "stack_ready env ctx n sp \<Longrightarrow> wf_region (ktask_region env ctx)"
  using length_dec_str [of "ctx_cpu ctx" 3] ktask_name [of ctx env]
  by (auto simp: wf_region_def stack_ready_def cstring_Cons NUL_def md_consts)
    (simp_all add: ktask_region_def)

lemma wf_dumped_stack:
  assumes r: "stack_ready env ctx n sp"
  shows "\<forall>e \<in> set (dumped_stack env ctx n sp). wf_region e"
proof -
  let ?k = "(unat sp - unat (area_addr ctx)) div 4096"
  have sp: "unat (sp AND NOT (PAGE_BYTES - 1)) \<le> unat sp" by (simp add: unat_page_mask)
  from r have a: "4096 \<le> unat (area_addr ctx)" "unat (area_addr ctx) \<le> unat sp" 
    "unat (area_addr ctx) + 4096 * n < 2 ^ 64"
    by (auto simp: stack_ready_def dest: dvd_imp_le)
  have "unat sp div 4096 * 4096 + 4096 * (n - ?k) = unat (area_addr ctx) + 4096 * n"
    using page_offset [of "unat (area_addr ctx)" "unat sp" n] r
    by (simp add: stack_ready_def diff_mult_distrib2)
  then show ?thesis
    unfolding dumped_stack_def
    using r a sp length_dec_str [of "ctx_cpu ctx" 3]
    by (intro wf_stack_pages) (auto simp: unat_page_mask stack_ready_def cstring_Cons NUL_def div_greater_zero_iff)
qed

lemma dump_stack_ok:
  assumes rep: "drv_rep bs p L s" and r: "stack_ready env ctx n (chosen_sp env ctx sp)"
    and conf: "vmap_stack env" "\<not> dyn_minidump_stack env"
    and free: "free_for_stack L" and room: "length L + n + 1 \<le> MAX_ELF_REGIONS"
  shows "\<exists>s'. dump_stack_minidump env ctx sp (lg, s) = Some (lg\<lparr>is_vmap_stack := True\<rparr>, s') \<and>
     drv_rep bs p (L @ dumped_stack env ctx n (chosen_sp env ctx sp) @ [ktask_region env ctx]) s'"
proof -
  let ?sp = "chosen_sp env ctx sp" and ?base = "area_addr ctx"
  let ?m = "n - (unat ?sp - unat ?base) div 4096"
  let ?M = "dumped_stack env ctx n ?sp"
  from r have n: "n \<le> 100" "ctx_cpu ctx < 1000" by (auto simp: stack_ready_def)
  have m: "unat (calculate_copy_pages (?sp AND NOT (PAGE_BYTES - 1)) ?base (area_size ctx)) = ?m"
    by (rule calculate_copy_pages_ok) (use r in \<open>auto simp: stack_ready_def\<close>)
  have wf: "\<forall>e \<in> set (?M @ [ktask_region env ctx]). wf_region e"
    using wf_dumped_stack [OF r] wf_ktask [OF r] by auto
  have smem: "distinct (map mdr_name L)" using rep by (auto simp: drv_rep_def elim: smem_repE)
  have names: "take 6 (mdr_name e) = ''KSTACK''" if "e \<in> set ?M" for e
    using that by (auto simp: dumped_stack_def stack_pages_def)
  have "mdr_name (ktask_region env ctx) \<notin> set (map mdr_name ?M)"
  proof
    assume "mdr_name (ktask_region env ctx) \<in> set (map mdr_name ?M)"
    then obtain e where "e \<in> set ?M" and "mdr_name e = ''KTASK'' @ dec_str (ctx_cpu ctx)"
      by (auto simp: ktask_name [OF n(2)])
    then have "take 6 (''KTASK'' @ dec_str (ctx_cpu ctx)) = ''KSTACK''" using names by metis
    then show False by simp
  qed
  moreover have "set (map mdr_name L) \<inter> set (map mdr_name ?M) = {}"
    using names free by (fastforce simp: free_for_stack_def)
  moreover have "mdr_name (ktask_region env ctx) \<notin> set (map mdr_name L)"
  proof
    assume "mdr_name (ktask_region env ctx) \<in> set (map mdr_name L)"
    then obtain e where "e \<in> set L" and "mdr_name e = ''KTASK'' @ dec_str (ctx_cpu ctx)"
      by (auto simp: ktask_name [OF n(2)])
    then have "take 5 (''KTASK'' @ dec_str (ctx_cpu ctx)) \<noteq> ''KTASK''"
      using free unfolding free_for_stack_def by metis
    then show False by simp
  qed
  ultimately have dist: "distinct (map mdr_name (L @ ?M @ [ktask_region env ctx]))"
    using smem distinct_stack_pages by (auto simp: dumped_stack_def)
  have len: "length (L @ ?M @ [ktask_region env ctx]) \<le> MAX_ELF_REGIONS"
    using room by (simp add: dumped_stack_def)
  obtain s' where s': "add_regions (stack_alloc env) (?M @ [ktask_region env ctx]) s = Some s'"
    "drv_rep bs p (L @ ?M @ [ktask_region env ctx]) s'"
    using add_regions_ok [OF rep wf dist len, of "stack_alloc env"] by blast
  then obtain s1 r1 where s1: "add_regions (stack_alloc env) ?M s = Some s1"
    "msm_minidump_add_region (stack_alloc env) (Some (ktask_region env ctx)) s1 = Some (r1, s')"
    by (auto simp: add_regions_append elim!: bind_SomeE)
  then have "dump_stack_minidump env ctx sp (lg, s) = Some (lg\<lparr>is_vmap_stack := True\<rparr>, s')"
    using conf r m n
    by (simp add: dump_stack_minidump_def Let_def chosen_sp_def [symmetric] dump_stack_pages_eq
        dumped_stack_def stack_ready_def)
  with s'(2) show ?thesis by simp
qed

end
