(* ===== verification/Stack_Follow.thy ===== *)
theory Stack_Follow
  imports Md_Stack
begin

unbundle bit_operations_syntax

text \<open>
  The stack regions of a build with \<^verbatim>\<open>CONFIG_QCOM_DYN_MINIDUMP_STACK\<close>, seen as a map from CPUs to the
  stacks of their running tasks: the registration establishes the map and every task switch
  updates it.  The stacks are virtually mapped (\<^verbatim>\<open>CONFIG_VMAP_STACK\<close>).
\<close>

subsection \<open>One set of regions\<close>

lemma vmapped_update_ok:
  assumes "drv_rep bs 0 (A @ B @ stack_pages env nm i n old @ C) s"
    and "stack_mdr d = B @ stack_pages env nm i n old" and "length B = i"
    and "stack_mdidx d = map (\<lambda>j. int (length A + j)) [0..<i + n]"
    and "int (length A + i + n) \<le> first_removed_entry s"
    and "\<forall>e \<in> set (stack_pages env nm i n sp). wf_region e"
  shows "\<exists>s'. vmapped_stack_loop env True None sp i n (d, s) =
        Some (d\<lparr>stack_mdr := B @ stack_pages env nm i n sp\<rparr>, s') \<and>
      drv_rep bs 0 (A @ B @ stack_pages env nm i n sp @ C) s' \<and>
      first_removed_entry s' = first_removed_entry s"
  using assms
proof (induction n arbitrary: B i old sp d s)
  case (Suc n)
  let ?nm = "nm @ ''_'' @ dec_str i" and ?old = "old + PAGE_BYTES"
  let ?e = "stack_page env ?nm sp" and ?L = "A @ B @ stack_pages env nm i (Suc n) old @ C"
  let ?k = "length A + i"
  have L: "?L = (A @ B) @ stack_page env ?nm old # stack_pages env nm (Suc i) n ?old @ C"
    by (simp add: stack_pages_Suc)
  have k: "?k < length ?L" "?L ! ?k = stack_page env ?nm old" and "?nm \<in> set (map mdr_name ?L)"
    using Suc.prems(3) unfolding L by (simp_all add: nth_append)
  moreover have wf: "wf_region ?e" using Suc.prems(6) by (simp add: stack_pages_Suc)
  ultimately obtain s1 where s1: "msm_minidump_update_region (stack_alloc env) (int ?k) (Some ?e) s = Some (0, s1)"
    "drv_rep bs 0 (?L[?k := move_region (?L ! ?k) ?e]) s1" "first_removed_entry s1 = first_removed_entry s"
    using update_region_ok [OF Suc.prems(1) k(1) wf, of "stack_alloc env"] Suc.prems(5) by auto
  have "move_region (?L ! ?k) ?e = ?e"
    unfolding k(2) by (simp add: move_region_def stack_page_def zero_region_def)
  then have L1: "?L[?k := move_region (?L ! ?k) ?e] = A @ (B @ [?e]) @ stack_pages env nm (Suc i) n ?old @ C"
    using Suc.prems(3) unfolding L by (simp add: list_update_append)
  have slot: "stack_slot env True None sp PAGE_BYTES i (d, s) =
      Some (d\<lparr>stack_mdr := (B @ [?e]) @ stack_pages env nm (Suc i) n ?old\<rparr>, s1)"
    using Suc.prems(2-4) s1(1)
    by (simp add: stack_slot_def update_stack_entry_def stack_pages_Suc nth_append list_update_append
        stack_page_def zero_region_def del: upt_Suc)
  have "\<exists>s'. vmapped_stack_loop env True None (sp + PAGE_BYTES) (Suc i) n
        (d\<lparr>stack_mdr := (B @ [?e]) @ stack_pages env nm (Suc i) n ?old\<rparr>, s1) =
        Some (d\<lparr>stack_mdr := (B @ [?e]) @ stack_pages env nm (Suc i) n ?old\<rparr>
          \<lparr>stack_mdr := (B @ [?e]) @ stack_pages env nm (Suc i) n (sp + PAGE_BYTES)\<rparr>, s') \<and>
      drv_rep bs 0 (A @ (B @ [?e]) @ stack_pages env nm (Suc i) n (sp + PAGE_BYTES) @ C) s' \<and>
      first_removed_entry s' = first_removed_entry s1"
    by (rule Suc.IH) (use Suc.prems s1 L1 in \<open>simp_all add: stack_pages_Suc\<close>)
  with slot s1(3) show ?case by (simp add: stack_pages_Suc)
qed (simp add: stack_pages_def)

lemma vmapped_register_ok:
  assumes "drv_rep bs 0 (A @ B) s" and "stack_mdr d = B @ replicate n zero_region" and "length B = i"
    and "stack_mdidx d = map (\<lambda>j. int (length A + j)) [0..<i] @ replicate n 0"
    and "length nm \<le> 9" and "i + n \<le> 100"
    and "\<forall>e \<in> set (stack_pages env nm i n sp). wf_region e"
    and "distinct (map mdr_name (A @ B @ stack_pages env nm i n sp))"
    and "length (A @ B) + n \<le> MAX_ELF_REGIONS"
  shows "\<exists>s'. vmapped_stack_loop env True (Some nm) sp i n (d, s) =
        Some (\<lparr>stack_mdidx = map (\<lambda>j. int (length A + j)) [0..<i + n],
          stack_mdr = B @ stack_pages env nm i n sp\<rparr>, s') \<and>
      drv_rep bs 0 (A @ B @ stack_pages env nm i n sp) s' \<and>
      first_removed_entry s' = first_removed_entry s"
  using assms
proof (induction n arbitrary: B i sp d s)
  case (Suc n)
  let ?e = "stack_page env (nm @ ''_'' @ dec_str i) sp"
  have nm: "scnprintf_str (MAX_NAME_LENGTH + 1) (nm @ ''_'' @ dec_str i) = nm @ ''_'' @ dec_str i"
    using Suc.prems(5,6) length_dec_str [of i 2] by (simp add: scnprintf_str_def md_consts)
  have "\<exists>s'. msm_minidump_add_region (stack_alloc env) (Some ?e) s = Some (int (length (A @ B)), s') \<and>
      drv_rep bs 0 ((A @ B) @ [?e]) s' \<and> first_removed_entry s' = first_removed_entry s"
    by (rule add_region_ok [OF Suc.prems(1)])
      (use Suc.prems(7-9) in \<open>auto simp: stack_pages_Suc MAX_ELF_REGIONS_def md_consts\<close>)
  then obtain s1 where s1: "msm_minidump_add_region (stack_alloc env) (Some ?e) s = Some (int (length (A @ B)), s1)"
    "drv_rep bs 0 (A @ B @ [?e]) s1" "first_removed_entry s1 = first_removed_entry s" by auto
  let ?d = "\<lparr>stack_mdidx = map (\<lambda>j. int (length A + j)) [0..<Suc i] @ replicate n 0,
     stack_mdr = (B @ [?e]) @ replicate n zero_region\<rparr>"
  have slot: "stack_slot env True (Some (nm @ ''_'' @ dec_str i)) sp PAGE_BYTES i (d, s) = Some (?d, s1)"
    using Suc.prems(2-4) s1(1)
    by (simp add: stack_slot_def register_stack_entry_def nth_append list_update_append
        stack_page_def zero_region_def)
  have "\<exists>s'. vmapped_stack_loop env True (Some nm) (sp + PAGE_BYTES) (Suc i) n (?d, s1) =
        Some (\<lparr>stack_mdidx = map (\<lambda>j. int (length A + j)) [0..<Suc i + n],
          stack_mdr = (B @ [?e]) @ stack_pages env nm (Suc i) n (sp + PAGE_BYTES)\<rparr>, s') \<and>
      drv_rep bs 0 (A @ (B @ [?e]) @ stack_pages env nm (Suc i) n (sp + PAGE_BYTES)) s' \<and>
      first_removed_entry s' = first_removed_entry s1"
    by (rule Suc.IH) (use Suc.prems s1 in \<open>simp_all add: stack_pages_Suc\<close>)
  with slot s1(3) nm show ?case by (simp add: stack_pages_Suc del: upt_Suc)
qed simp
subsection \<open>The regions of all CPUs\<close>

text \<open>The regions of CPU \<open>c\<close> for a task whose stack is at \<open>sp\<close>, and those of the CPUs from \<open>a\<close> to \<open>b\<close>.\<close>

definition cpu_name :: "nat \<Rightarrow> string" where
  "cpu_name c = ''KSTACK'' @ dec_str c"

definition cpu_block :: "stack_env \<Rightarrow> nat \<Rightarrow> u64 \<Rightarrow> md_region list" where
  "cpu_block env c sp = stack_pages env (cpu_name c) 0 (STACK_NUM_PAGES env) (sp AND NOT (PAGE_BYTES - 1))"

definition cpu_blocks :: "stack_env \<Rightarrow> nat \<Rightarrow> nat \<Rightarrow> (nat \<Rightarrow> u64) \<Rightarrow> md_region list" where
  "cpu_blocks env a b f = concat (map (\<lambda>c. cpu_block env c (f c)) [a..<b])"

definition cpu_indices :: "stack_env \<Rightarrow> nat \<Rightarrow> nat \<Rightarrow> int list" where
  "cpu_indices env n c = map (\<lambda>j. int (n + c * STACK_NUM_PAGES env + j)) [0..<STACK_NUM_PAGES env]"

definition cpu_stacks_rep ::
  "stack_env \<Rightarrow> elf_base \<Rightarrow> md_region list \<Rightarrow> md_region list \<Rightarrow> nat \<Rightarrow> (nat \<Rightarrow> u64) \<Rightarrow> stack_state \<Rightarrow> bool" where
  "cpu_stacks_rep env bs A D C f st \<longleftrightarrow> md_current_stack_init st \<and>
     drv_rep bs 0 (A @ cpu_blocks env 0 C f @ D) (stack_md st) \<and>
     int (length A + C * STACK_NUM_PAGES env) \<le> first_removed_entry (stack_md st) \<and>
     (\<forall>c < C. md_stack_data st c = \<lparr>stack_mdidx = cpu_indices env (length A) c,
        stack_mdr = cpu_block env c (f c)\<rparr>)"

text \<open>A stack with which a task may be switched in: not at address 0, within the address space.\<close>

definition stack_ok :: "stack_env \<Rightarrow> u64 \<Rightarrow> bool" where
  "stack_ok env sp \<longleftrightarrow> 4096 \<le> unat sp \<and> unat sp + 4096 * STACK_NUM_PAGES env \<le> 2 ^ 64 \<and>
     STACK_NUM_PAGES env \<le> 100"

record task_switch =
  sw_idle :: bool
  sw_cpu :: nat
  sw_stack :: u64

definition switch_spec :: "stack_env \<Rightarrow> nat \<Rightarrow> task_switch \<Rightarrow> (nat \<Rightarrow> u64) \<Rightarrow> (unit \<times> (nat \<Rightarrow> u64)) option" where
  "switch_spec env C t f =
     (if sw_cpu t < C \<and> C \<le> 1000 \<and> stack_ok env (sw_stack t)
      then Some ((), if sw_idle t then f else f(sw_cpu t := sw_stack t)) else None)"

definition switch_step :: "stack_env \<Rightarrow> task_switch \<Rightarrow> stack_state \<Rightarrow> (unit \<times> stack_state) option" where
  "switch_step env t st =
     map_option (Pair ()) (md_current_stack_notifer env True (sw_idle t) (sw_cpu t) (sw_stack t) st)"

lemma cpu_blocks_split:
  assumes "c < C"
  shows "cpu_blocks env 0 C f = cpu_blocks env 0 c f @ cpu_block env c (f c) @ cpu_blocks env (Suc c) C f"
proof -
  have "[0..<C] = [0..<c] @ c # [Suc c..<C]"
    using assms upt_add_eq_append [of 0 c "C - c"] by (simp add: upt_conv_Cons)
  then show ?thesis by (simp add: cpu_blocks_def)
qed

lemma length_cpu_block [simp]: "length (cpu_block env c sp) = STACK_NUM_PAGES env"
  by (simp add: cpu_block_def)

lemma length_cpu_blocks [simp]: "length (cpu_blocks env 0 c f) = c * STACK_NUM_PAGES env"
  by (simp add: cpu_blocks_def length_concat o_def sum_list_triv)

lemma cpu_blocks_cong: "(\<And>c. a \<le> c \<Longrightarrow> c < b \<Longrightarrow> f c = g c) \<Longrightarrow> cpu_blocks env a b f = cpu_blocks env a b g"
  unfolding cpu_blocks_def by (intro arg_cong [where f = concat] map_cong) auto

lemma cpu_name_ok: "c < 1000 \<Longrightarrow> length (cpu_name c) \<le> 9" "cstring (cpu_name c)"
  using length_dec_str [of c 3] by (simp_all add: cpu_name_def cstring_Cons NUL_def)

lemma wf_cpu_block: "c < 1000 \<Longrightarrow> stack_ok env sp \<Longrightarrow> \<forall>e \<in> set (cpu_block env c sp). wf_region e"
  unfolding cpu_block_def stack_ok_def
  using div_times_less_eq_dividend [of "unat sp" 4096]
  by (intro wf_stack_pages) (auto simp: cpu_name_ok unat_page_mask div_greater_zero_iff)

lemma update_md_stack_cpu:
  assumes rep: "cpu_stacks_rep env bs A D C f st" and c: "c < C" "C \<le> 1000" and ok: "stack_ok env sp"
  shows "\<exists>st'. update_md_cpu_stack env True False c sp st = Some st' \<and> cpu_stacks_rep env bs A D C (f(c := sp)) st'"
proof -
  let ?N = "STACK_NUM_PAGES env" and ?A = "A @ cpu_blocks env 0 c f" and ?D = "cpu_blocks env (Suc c) C f @ D"
  let ?d = "md_stack_data st c"
  from rep c have d: "?d = \<lparr>stack_mdidx = cpu_indices env (length A) c, stack_mdr = cpu_block env c (f c)\<rparr>"
    and init: "md_current_stack_init st" by (auto simp: cpu_stacks_rep_def)
  have "Suc c * ?N \<le> C * ?N" using c by (intro mult_le_mono1) simp
  then have "int (length ?A + 0 + ?N) \<le> int (length A + C * ?N)" unfolding of_nat_le_iff by simp
  also have "\<dots> \<le> first_removed_entry (stack_md st)" using rep by (simp add: cpu_stacks_rep_def)
  finally have stable: "int (length ?A + 0 + ?N) \<le> first_removed_entry (stack_md st)" .
  have "\<exists>s'. vmapped_stack_loop env True None (sp AND NOT (PAGE_BYTES - 1)) 0 ?N (?d, stack_md st) =
        Some (?d\<lparr>stack_mdr := [] @ cpu_block env c sp\<rparr>, s') \<and>
      drv_rep bs 0 (?A @ [] @ cpu_block env c sp @ ?D) s' \<and>
      first_removed_entry s' = first_removed_entry (stack_md st)"
    unfolding cpu_block_def
    by (rule vmapped_update_ok [where old = "f c AND NOT (PAGE_BYTES - 1)"])
      (use rep c ok stable wf_cpu_block [of c env sp] in \<open>auto simp: cpu_stacks_rep_def cpu_blocks_split d cpu_block_def
        cpu_indices_def\<close>)
  then obtain s' where s': "vmapped_stack_loop env True None (sp AND NOT (PAGE_BYTES - 1)) 0 ?N (?d, stack_md st) =
        Some (?d\<lparr>stack_mdr := cpu_block env c sp\<rparr>, s')" 
      "drv_rep bs 0 (?A @ cpu_block env c sp @ ?D) s'"
      "first_removed_entry s' = first_removed_entry (stack_md st)" by auto
  have "\<not> (\<exists>i \<in> set [0..<?N]. stack_mdidx ?d ! i < 0)"
    by (simp add: d cpu_indices_def del: of_nat_add of_nat_mult)
  then have "update_md_cpu_stack env True False c sp st = Some (st\<lparr>md_stack_data :=
      (md_stack_data st)(c := ?d\<lparr>stack_mdr := cpu_block env c sp\<rparr>), stack_md := s'\<rparr>)"
    using s'(1) init by (simp add: update_md_cpu_stack_def update_md_stack_def register_vmapped_stack_def)
  moreover have "cpu_blocks env 0 C (f(c := sp)) = cpu_blocks env 0 c f @ cpu_block env c sp @ cpu_blocks env (Suc c) C f"
    unfolding cpu_blocks_split [OF c(1)] by (auto intro: cpu_blocks_cong)
  ultimately show ?thesis
    using s' rep d by (simp add: cpu_stacks_rep_def)
qed

lemma switch_step_sim:
  assumes "cpu_stacks_rep env bs A D C f st" and "switch_spec env C t f = Some (r, f')"
  shows "\<exists>st'. switch_step env t st = Some (r, st') \<and> cpu_stacks_rep env bs A D C f' st'"
proof (cases "sw_idle t")
  case True
  with assms show ?thesis
    by (auto simp: switch_spec_def switch_step_def md_current_stack_notifer_def update_md_cpu_stack_def split: if_splits)
next
  case False
  with assms(2) have "sw_cpu t < C" "C \<le> 1000" "stack_ok env (sw_stack t)" "f' = f(sw_cpu t := sw_stack t)"
    by (auto simp: switch_spec_def split: if_splits)
  with update_md_stack_cpu [OF assms(1), of "sw_cpu t" "sw_stack t"] False show ?thesis
    by (auto simp: switch_step_def md_current_stack_notifer_def)
qed

interpretation stacks: simulation "cpu_stacks_rep env bs A D C" "switch_spec env C" "switch_step env" for env bs A D C
  by unfold_locales (rule switch_step_sim)


text \<open>Registration: every CPU gets the regions of the registering task's stack, and then the running tasks'.\<close>

lemma cpu_name_inj: "cpu_name c = cpu_name c' \<longleftrightarrow> c = c'"
  by (simp add: cpu_name_def dec_str_inj)

lemma page_name_inj: "cpu_name c @ ''_'' @ x = cpu_name c' @ ''_'' @ y \<longleftrightarrow> c = c' \<and> x = y"
proof
  assume "cpu_name c @ ''_'' @ x = cpu_name c' @ ''_'' @ y"
  then have eq: "dec_str c @ CHR ''_'' # x = dec_str c' @ CHR ''_'' # y" by (simp add: cpu_name_def)
  have "takeWhile (\<lambda>a. a \<noteq> CHR ''_'') (dec_str n @ CHR ''_'' # z) = dec_str n" for n z
    using dec_str_no_underscore by (subst takeWhile_append2) auto
  then have "dec_str c = dec_str c'" using eq by metis
  with eq show "c = c' \<and> x = y" by (simp add: dec_str_inj)
qed simp

lemma cpu_blocks_names:
  "nm \<in> set (map mdr_name (cpu_blocks env a b f)) \<longleftrightarrow>
     (\<exists>c i. a \<le> c \<and> c < b \<and> i < STACK_NUM_PAGES env \<and> nm = cpu_name c @ ''_'' @ dec_str i)"
  by (force simp: cpu_blocks_def cpu_block_def stack_pages_def)

lemma cpu_blocks_snoc: "cpu_blocks env 0 (Suc c) f = cpu_blocks env 0 c f @ cpu_block env c (f c)"
  by (simp add: cpu_blocks_def)

lemma distinct_cpu_blocks: "distinct (map mdr_name (cpu_blocks env 0 C f))"
proof (induction C)
  case (Suc C)
  have "distinct (map mdr_name (cpu_block env C (f C)))" by (simp add: cpu_block_def distinct_stack_pages)
  moreover have "set (map mdr_name (cpu_blocks env 0 C f)) \<inter> set (map mdr_name (cpu_block env C (f C))) = {}"
    unfolding disjoint_iff cpu_blocks_names using page_name_inj
    by (auto simp: cpu_block_def stack_page_names)
  ultimately show ?case using Suc by (auto simp: cpu_blocks_snoc)
qed (simp add: cpu_blocks_def)

definition free_for_stacks :: "md_region list \<Rightarrow> bool" where
  "free_for_stacks A \<longleftrightarrow> (\<forall>r \<in> set A. take 6 (mdr_name r) \<noteq> ''KSTACK'')"

lemma free_for_stacks_names:
  assumes "free_for_stacks A"
  shows "set (map mdr_name A) \<inter> set (map mdr_name (cpu_blocks env 0 C f)) = {}"
proof -
  have "take 6 nm = ''KSTACK''" if "nm \<in> set (map mdr_name (cpu_blocks env 0 C f))" for nm
    using that unfolding cpu_blocks_names by (auto simp: cpu_name_def)
  with assms show ?thesis by (fastforce simp: free_for_stacks_def)
qed

text \<open>The registration of the CPUs, one after the other; \<open>c\<close> of them are done.\<close>

lemma register_cpu_stacks_ok:
  assumes "drv_rep bs 0 (A @ cpu_blocks env 0 c (\<lambda>_. sp)) (stack_md st)"
    and "\<forall>i < c. md_stack_data st i = \<lparr>stack_mdidx = cpu_indices env (length A) i, stack_mdr = cpu_block env i sp\<rparr>"
    and "\<forall>i. c \<le> i \<longrightarrow> md_stack_data st i = zero_stack_data env"
    and "free_for_stacks A" and "stack_ok env sp" and "c + n \<le> 1000"
    and "length A + (c + n) * STACK_NUM_PAGES env \<le> MAX_ELF_REGIONS"
  shows "\<exists>st'. register_cpu_stacks env True sp [c..<c + n] st = Some st' \<and>
     drv_rep bs 0 (A @ cpu_blocks env 0 (c + n) (\<lambda>_. sp)) (stack_md st') \<and>
     (\<forall>i < c + n. md_stack_data st' i = \<lparr>stack_mdidx = cpu_indices env (length A) i, stack_mdr = cpu_block env i sp\<rparr>) \<and>
     first_removed_entry (stack_md st') = first_removed_entry (stack_md st)"
  using assms
proof (induction n arbitrary: c st)
  case (Suc n)
  let ?A = "A @ cpu_blocks env 0 c (\<lambda>_. sp)" and ?N = "STACK_NUM_PAGES env" and ?p = "sp AND NOT (PAGE_BYTES - 1)"
  have d: "md_stack_data st c = zero_stack_data env" using Suc.prems(3) by simp
  have "distinct (map mdr_name A)" using Suc.prems(1) by (auto simp: drv_rep_def elim!: smem_repE)
  then have dist: "distinct (map mdr_name (?A @ [] @ cpu_block env c sp))"
    using distinct_cpu_blocks [of env "Suc c" "\<lambda>_. sp"] free_for_stacks_names [OF Suc.prems(4), of env "Suc c" "\<lambda>_. sp"]
    by (simp add: cpu_blocks_snoc Int_Un_distrib)
  have len: "length ?A + ?N \<le> MAX_ELF_REGIONS" using Suc.prems(7) by (simp add: add_mult_distrib)
  have "\<exists>s'. vmapped_stack_loop env True (Some (cpu_name c)) ?p 0 ?N (zero_stack_data env, stack_md st) =
        Some (\<lparr>stack_mdidx = map (\<lambda>j. int (length ?A + j)) [0..<0 + ?N], stack_mdr = [] @ cpu_block env c sp\<rparr>, s') \<and>
      drv_rep bs 0 (?A @ [] @ cpu_block env c sp) s' \<and> first_removed_entry s' = first_removed_entry (stack_md st)"
    unfolding cpu_block_def
    by (rule vmapped_register_ok)
      (use Suc.prems len dist wf_cpu_block [of c env sp] cpu_name_ok [of c] in \<open>auto simp: zero_stack_data_def stack_ok_def cpu_block_def\<close>)
  then obtain s' where s': "vmapped_stack_loop env True (Some (cpu_name c)) ?p 0 ?N (zero_stack_data env, stack_md st) =
        Some (\<lparr>stack_mdidx = cpu_indices env (length A) c, stack_mdr = cpu_block env c sp\<rparr>, s')"
      "drv_rep bs 0 (A @ cpu_blocks env 0 (Suc c) (\<lambda>_. sp)) s'" "first_removed_entry s' = first_removed_entry (stack_md st)"
    by (auto simp: cpu_indices_def cpu_blocks_snoc)
  have nm: "scnprintf_str MAX_NAME_LENGTH (''KSTACK'' @ dec_str c) = cpu_name c"
    using cpu_name_ok(1) [of c] Suc.prems(6) by (simp add: scnprintf_str_def cpu_name_def md_consts)
  let ?st = "st\<lparr>md_stack_data := (md_stack_data st)(c := \<lparr>stack_mdidx = cpu_indices env (length A) c,
     stack_mdr = cpu_block env c sp\<rparr>), stack_md := s'\<rparr>"
  have step: "register_cpu_stacks env True sp [c..<c + Suc n] st = register_cpu_stacks env True sp [Suc c..<Suc c + n] ?st"
    using s'(1) nm d by (simp add: upt_conv_Cons register_stack_named_def register_vmapped_stack_def del: upt_Suc)
  have "\<exists>st'. register_cpu_stacks env True sp [Suc c..<Suc c + n] ?st = Some st' \<and>
     drv_rep bs 0 (A @ cpu_blocks env 0 (Suc c + n) (\<lambda>_. sp)) (stack_md st') \<and>
     (\<forall>i < Suc c + n. md_stack_data st' i = \<lparr>stack_mdidx = cpu_indices env (length A) i, stack_mdr = cpu_block env i sp\<rparr>) \<and>
     first_removed_entry (stack_md st') = first_removed_entry (stack_md ?st)"
    by (rule Suc.IH) (use Suc.prems s' in \<open>auto simp: less_Suc_eq\<close>)
  with step s'(3) show ?case by simp
qed (auto simp: cpu_indices_def)


definition running :: "task_ctx list \<Rightarrow> (nat \<Rightarrow> u64) \<Rightarrow> nat \<Rightarrow> u64" where
  "running others f = fold (\<lambda>c f. if ctx_idle c then f else f(ctx_cpu c := area_addr c)) others f"

lemma run_ipi_handlers_ok:
  assumes "cpu_stacks_rep env bs A D C f st" and "C \<le> 1000"
    and "\<forall>c \<in> set others. ctx_cpu c < C \<and> stack_ok env (area_addr c)"
  shows "\<exists>st'. run_ipi_handlers env True others st = Some st' \<and>
     cpu_stacks_rep env bs A D C (running others f) st'"
  using assms
proof (induction others arbitrary: f st)
  case (Cons c cs)
  let ?f = "if ctx_idle c then f else f(ctx_cpu c := area_addr c)"
  obtain st1 where st1: "md_current_stack_ipi_handler env True c st = Some st1" "cpu_stacks_rep env bs A D C ?f st1"
    using Cons.prems update_md_stack_cpu [OF Cons.prems(1), of "ctx_cpu c" "area_addr c"]
    by (cases "ctx_idle c") (auto simp: md_current_stack_ipi_handler_def current_stack_def)
  with Cons.IH [OF st1(2)] Cons.prems show ?case by (simp add: running_def)
qed (simp add: running_def)

lemma register_current_stack_ok:
  assumes rep: "drv_rep bs 0 A (stack_md st)" and fresh: "\<forall>c. md_stack_data st c = zero_stack_data env"
    and ok: "free_for_stacks A" "stack_ok env (area_addr ctx)" and C: "C \<le> 1000"
    and room: "length A + C * STACK_NUM_PAGES env \<le> MAX_ELF_REGIONS" "int MAX_ELF_REGIONS \<le> first_removed_entry (stack_md st)"
    and others: "\<forall>c \<in> set others. ctx_cpu c < C \<and> stack_ok env (area_addr c)"
  shows "\<exists>st'. register_current_stack env True ctx [0..<C] others st = Some st' \<and>
     cpu_stacks_rep env bs A [] C (running others (\<lambda>_. area_addr ctx)) st'"
proof -
  let ?sp = "area_addr ctx"
  have "\<exists>st'. register_cpu_stacks env True ?sp [0..<0 + C] st = Some st' \<and>
     drv_rep bs 0 (A @ cpu_blocks env 0 (0 + C) (\<lambda>_. ?sp)) (stack_md st') \<and>
     (\<forall>i < 0 + C. md_stack_data st' i = \<lparr>stack_mdidx = cpu_indices env (length A) i, stack_mdr = cpu_block env i ?sp\<rparr>) \<and>
     first_removed_entry (stack_md st') = first_removed_entry (stack_md st)"
    by (rule register_cpu_stacks_ok) (use assms in \<open>simp_all add: cpu_blocks_def\<close>)
  then obtain st1 where st1: "register_cpu_stacks env True ?sp [0..<C] st = Some st1"
    "drv_rep bs 0 (A @ cpu_blocks env 0 C (\<lambda>_. ?sp)) (stack_md st1)"
    "\<forall>i < C. md_stack_data st1 i = \<lparr>stack_mdidx = cpu_indices env (length A) i, stack_mdr = cpu_block env i ?sp\<rparr>"
    "first_removed_entry (stack_md st1) = first_removed_entry (stack_md st)" by auto
  have "int (length A + C * STACK_NUM_PAGES env) \<le> first_removed_entry (stack_md st)"
    using room by linarith
  then have "cpu_stacks_rep env bs A [] C (\<lambda>_. ?sp) (st1\<lparr>sched_switch_hooked := True, md_current_stack_init := True\<rparr>)"
    using st1 by (simp add: cpu_stacks_rep_def)
  from run_ipi_handlers_ok [OF this C others] st1(1) show ?thesis
    by (simp add: register_current_stack_def current_stack_def)
qed

end
