(* ===== verification/Md_Sched.thy ===== *)
theory Md_Sched
  imports C_Text
begin

unbundle bit_operations_syntax

text \<open>
  The run queues in the panic dump, from \<^verbatim>\<open>minidump/minidump_log.c\<close>.  The scheduler's data are trees:
  a scheduling entity is a task or a group with a run queue of its own.  The run queue's
  red-black tree is the list of its nodes in the order of \<^verbatim>\<open>rb_first\<close> and \<^verbatim>\<open>rb_next\<close>.  A pointer to a task
  is the task's identity.  The text goes to a \<^verbatim>\<open>seq_buf\<close>, with an indentation that is a global variable.
\<close>

subsection \<open>The scheduler's data\<close>

record sched_task =
  tsk_id :: nat
  tsk_pid :: int
  preempt_count :: u32
  comm :: string
  last_arrival :: int
  last_queued :: int
  run_delay :: int
  pcount :: int
  on_cpu :: int
  prio :: int
  tsk_state :: u32
  exit_state :: u32

datatype sched_entity = SE_Task sched_task | SE_Group cfs_rq
and cfs_rq = Cfs_Rq (cfs_nr_running: int) (cfs_curr: "sched_entity option") (cfs_next: "sched_entity option")
    (cfs_last: "sched_entity option") (cfs_skip: "sched_entity option") (tasks_timeline: "sched_entity list")
    (rb_leftmost: bool)

datatype sched_rt_entity = RT_Task sched_task | RT_Group

record rt_rq =
  rt_nr_running :: int
  rt_bitmap :: "nat \<Rightarrow> bool"
  rt_queue :: "nat \<Rightarrow> sched_rt_entity list"

record rq =
  rq_nr_running :: int
  rq_curr :: sched_task
  rq_cfs :: cfs_rq
  rq_rt :: rt_rq

definition MAX_RT_PRIO :: nat where "MAX_RT_PRIO = 100"

record runq_state =
  runq_buf :: seq_buf
  md_align_offset :: nat

text \<open>\<open>runq_printf\<close> is \<^verbatim>\<open>seq_buf_printf\<close> on the buffer for the run queues.\<close>

definition runq_printf :: "string \<Rightarrow> runq_state \<Rightarrow> runq_state" where
  "runq_printf out st = st\<lparr>runq_buf := seq_buf_printf out (runq_buf st)\<rparr>"

definition hex_pfx :: "nat \<Rightarrow> string" where
  "hex_pfx n = ''0x'' @ hex_str n"

subsection \<open>The fair run queue\<close>

definition md_dump_align :: "runq_state \<Rightarrow> runq_state" where
  "md_dump_align st = runq_printf '' |--'' ((runq_printf '' | '' ^^ md_align_offset st) st)"

definition none_line :: "string \<Rightarrow> string" where
  "none_line status = status @ '' : None(0)'' @ [LF]"

definition curr_line :: "sched_task \<Rightarrow> string" where
  "curr_line t = ''[status: curr] pid: '' @ int_str (tsk_pid t) @ '' preempt: '' @ hex_pfx (unat (preempt_count t)) @ [LF]"

definition task_line :: "string \<Rightarrow> sched_task \<Rightarrow> string" where
  "task_line status t = ''[status: '' @ status @ ''] pid: '' @ int_str (tsk_pid t) @ [LF]"

definition group_line :: "string \<Rightarrow> int \<Rightarrow> string" where
  "group_line status n = status @ '': '' @ int_str n @ '' process is grouping'' @ [LF]"

definition md_dump_task_info :: "sched_task option \<Rightarrow> string \<Rightarrow> nat option \<Rightarrow> runq_state \<Rightarrow> runq_state" where
  "md_dump_task_info task status cur st =
     (let st = md_dump_align st
      in case task of
           None \<Rightarrow> runq_printf (none_line status) st
         | Some t \<Rightarrow>
             if Some (tsk_id t) = cur then runq_printf (curr_line t) st
             else runq_printf (task_line status t) st)"

definition align_down :: "runq_state \<Rightarrow> runq_state" where
  "align_down st = st\<lparr>md_align_offset := md_align_offset st + 1\<rparr>"

definition align_up :: "runq_state \<Rightarrow> runq_state" where
  "align_up st = st\<lparr>md_align_offset := md_align_offset st - 1\<rparr>"

text \<open>
  \<open>max_walk\<close> bounds the walk over the nodes; the last function is the loop of \<^verbatim>\<open>md_rb_walk_cfs\<close>.
\<close>

fun md_dump_cgroup_state :: "string \<Rightarrow> sched_entity option \<Rightarrow> nat option \<Rightarrow> runq_state \<Rightarrow> runq_state"
  and md_dump_cfs_rq :: "cfs_rq \<Rightarrow> nat option \<Rightarrow> runq_state \<Rightarrow> runq_state"
  and md_rb_walk_cfs :: "nat \<Rightarrow> sched_entity list \<Rightarrow> nat option \<Rightarrow> runq_state \<Rightarrow> runq_state" where
  "md_dump_cgroup_state status None cur st = md_dump_task_info None status None st"
| "md_dump_cgroup_state status (Some (SE_Task t)) cur st = md_dump_task_info (Some t) status cur st"
| "md_dump_cgroup_state status (Some (SE_Group q)) cur st =
     align_up (md_dump_cfs_rq q cur (align_down (runq_printf (group_line status (cfs_nr_running q)) (md_dump_align st))))"
| "md_dump_cfs_rq (Cfs_Rq n c nx l sk tmln lm) cur st =
     (let st = md_dump_cgroup_state ''curr'' c cur st;
          st = md_dump_cgroup_state ''next'' nx cur st;
          st = md_dump_cgroup_state ''last'' l cur st;
          st = md_dump_cgroup_state ''skip'' sk cur st
      in if \<not> lm then st else md_rb_walk_cfs 200 tmln cur st)"
| "md_rb_walk_cfs max_walk [] cur st = st"
| "md_rb_walk_cfs 0 (se # ses) cur st = st"
| "md_rb_walk_cfs (Suc max_walk) (se # ses) cur st =
     md_rb_walk_cfs max_walk ses cur (md_dump_cgroup_state ''pend'' (Some se) cur st)"

subsection \<open>The real-time run queue\<close>

text \<open>\<^verbatim>\<open>find_next_bit\<close>: the first set bit from \<open>i\<close> on, or the size.\<close>

function find_next_bit :: "(nat \<Rightarrow> bool) \<Rightarrow> nat \<Rightarrow> nat \<Rightarrow> nat" where
  "find_next_bit b n i = (if n \<le> i then n else if b i then i else find_next_bit b n (Suc i))"
  by pat_completeness auto
termination by (relation "measure (\<lambda>(b, n, i). n - i)") auto

declare find_next_bit.simps [simp del]

definition bitmap_empty :: "(nat \<Rightarrow> bool) \<Rightarrow> nat \<Rightarrow> bool" where
  "bitmap_empty b n = list_all (\<lambda>i. \<not> b i) [0..<n]"

text \<open>One queue; in a build with \<^verbatim>\<open>CONFIG_RT_GROUP_SCHED\<close> the groups are skipped.\<close>

fun dump_rt_queue :: "sched_rt_entity list \<Rightarrow> nat option \<Rightarrow> runq_state \<Rightarrow> runq_state" where
  "dump_rt_queue [] cur st = st"
| "dump_rt_queue (RT_Group # es) cur st = dump_rt_queue es cur st"
| "dump_rt_queue (RT_Task t # es) cur st = dump_rt_queue es cur (md_dump_task_info (Some t) ''pend'' cur st)"

lemma find_next_bit_ge: "i \<le> n \<Longrightarrow> i \<le> find_next_bit b n i \<and> find_next_bit b n i \<le> n"
proof (induction b n i rule: find_next_bit.induct)
  case (1 b n i)
  then show ?case by (subst (1 2) find_next_bit.simps) auto
qed

function rt_loop :: "rt_rq \<Rightarrow> nat \<Rightarrow> nat option \<Rightarrow> runq_state \<Rightarrow> runq_state" where
  "rt_loop rt idx cur st =
     (if idx < MAX_RT_PRIO
      then rt_loop rt (find_next_bit (rt_bitmap rt) MAX_RT_PRIO (idx + 1)) cur (dump_rt_queue (rt_queue rt idx) cur st)
      else st)"
  by pat_completeness auto
termination
proof (relation "measure (\<lambda>(rt, idx, cur, st). MAX_RT_PRIO - idx)")
  fix rt idx cur st
  assume "idx < MAX_RT_PRIO"
  with find_next_bit_ge [of "idx + 1" MAX_RT_PRIO "rt_bitmap rt"]
  show "((rt, find_next_bit (rt_bitmap rt) MAX_RT_PRIO (idx + 1), cur, dump_rt_queue (rt_queue rt idx) cur st),
      rt, idx, cur, st) \<in> measure (\<lambda>(rt, idx, cur, st). MAX_RT_PRIO - idx)"
    by (auto intro!: diff_less_mono2 intro: Suc_le_lessD)
qed simp

declare rt_loop.simps [simp del]

definition md_dump_rt_rq :: "rt_rq \<Rightarrow> nat option \<Rightarrow> runq_state \<Rightarrow> runq_state" where
  "md_dump_rt_rq rt cur st =
     (if bitmap_empty (rt_bitmap rt) MAX_RT_PRIO then st
      else rt_loop rt (find_next_bit (rt_bitmap rt) MAX_RT_PRIO 0) cur st)"

subsection \<open>The list of tasks\<close>

definition task_state_array :: "string list" where
  "task_state_array = [''R'', ''S'', ''D'', ''T'', ''t'', ''X'', ''Z'', ''P'', ''I'']"

text \<open>The kernel's \<^verbatim>\<open>TASK_REPORT\<close> is all states of the array but the last.\<close>

definition TASK_REPORT :: u32 where "TASK_REPORT = 0x7f"
definition TASK_REPORT_IDLE :: u32 where "TASK_REPORT_IDLE = 0x80"
definition TASK_IDLE :: u32 where "TASK_IDLE = 0x402"

fun fls_nat :: "nat \<Rightarrow> nat" where
  "fls_nat n = (if n = 0 then 0 else Suc (fls_nat (n div 2)))"

declare fls_nat.simps [simp del]

definition md_task_state_index :: "sched_task \<Rightarrow> nat" where
  "md_task_state_index t =
     (let state = (tsk_state t OR exit_state t) AND TASK_REPORT;
          state = (if tsk_state t = TASK_IDLE then TASK_REPORT_IDLE else state)
      in fls_nat (unat state))"

text \<open>Outside the array the result is a fault.\<close>

definition md_get_task_state :: "sched_task \<Rightarrow> string option" where
  "md_get_task_state t =
     (if md_task_state_index t < length task_state_array
      then Some (task_state_array ! md_task_state_index t) else None)"

definition cpu_line :: "nat \<Rightarrow> rq \<Rightarrow> string" where
  "cpu_line cpu q = ''CPU'' @ dec_str cpu @ '' has '' @ int_str (rq_nr_running q) @ '' process, current is pid '' @
     int_str (tsk_pid (rq_curr q)) @ [LF]"

definition cfs_line :: "rq \<Rightarrow> string" where
  "cfs_line q = ''CFS has '' @ int_str (cfs_nr_running (rq_cfs q)) @ '' process'' @ [LF]"

definition rt_line :: "rq \<Rightarrow> string" where
  "rt_line q = ''RT has '' @ int_str (rt_nr_running (rq_rt q)) @ '' process'' @ [LF]"

fun dump_cpu_rqs :: "(nat \<times> rq) list \<Rightarrow> runq_state \<Rightarrow> runq_state" where
  "dump_cpu_rqs [] st = st"
| "dump_cpu_rqs ((cpu, q) # qs) st =
     (let cur = Some (tsk_id (rq_curr q));
          st = runq_printf (cpu_line cpu q) st;
          st = runq_printf (cfs_line q) st;
          st = md_dump_cfs_rq (rq_cfs q) cur st;
          st = runq_printf (rt_line q) st;
          st = md_dump_rt_rq (rq_rt q) cur st
      in dump_cpu_rqs qs (runq_printf [LF] st))"

definition task_titles :: "bool \<Rightarrow> string list" where
  "task_titles walt = [pad_right 15 ''Task name'', pad_left 6 ''PID'', pad_left 16 ''Exec_started_at'',
     pad_left 16 ''Last_queued_at'', pad_left 16 ''Total_wait_time'', pad_left 12 ''Exec_times'',
     pad_left 4 ''CPU'', pad_left 5 ''Prio'', pad_left 6 ''State''] @
     (if walt then [pad_left 17 ''Last_enqueued_ts'', pad_left 16 ''Last_sleep_ts''] else []) @ [[LF]]"

definition task_fields :: "sched_task \<Rightarrow> string \<Rightarrow> string list" where
  "task_fields t state = [pad_right 15 (comm t), pad_left 6 (int_str (tsk_pid t)), pad_left 16 (int_str (last_arrival t)),
     pad_left 16 (int_str (last_queued t)), pad_left 16 (int_str (run_delay t)), pad_left 12 (int_str (pcount t)),
     pad_left 4 (int_str (on_cpu t)), pad_left 5 (int_str (prio t)), pad_left 6 state]"

text \<open>
  With \<^verbatim>\<open>CONFIG_SCHED_WALT\<close> the row goes on with fields read through the pointer \<^verbatim>\<open>wts\<close>, which is never
  set: a fault.
\<close>

fun dump_tasks :: "bool \<Rightarrow> bool \<Rightarrow> sched_task list \<Rightarrow> runq_state \<Rightarrow> runq_state option" where
  "dump_tasks walt all_tasks [] st = Some st"
| "dump_tasks walt all_tasks (t # ts) st =
     (if \<not> all_tasks \<and> tsk_state t \<noteq> 0 then dump_tasks walt all_tasks ts st
      else do {
        state \<leftarrow> md_get_task_state t;
        let st = fold runq_printf (task_fields t state) st;
        if walt then None else dump_tasks walt all_tasks ts (runq_printf [LF] st) })"

text \<open>
  \<open>walt\<close> and \<open>all_tasks\<close> are the build's \<^verbatim>\<open>CONFIG_SCHED_WALT\<close> and \<^verbatim>\<open>CONFIG_MINIDUMP_ALL_TASK_INFO\<close>.
\<close>

definition md_dump_runqueues ::
  "bool \<Rightarrow> bool \<Rightarrow> (nat \<times> rq) list \<Rightarrow> sched_task list \<Rightarrow> seq_buf option \<times> nat \<Rightarrow> (seq_buf option \<times> nat) option" where
  "md_dump_runqueues walt all_tasks rqs ts b =
     (case fst b of
        None \<Rightarrow> Some b
      | Some m \<Rightarrow> do {
          let st = dump_cpu_rqs rqs \<lparr>runq_buf = m, md_align_offset = snd b\<rparr>;
          let st = fold runq_printf (task_titles walt) st;
          st \<leftarrow> dump_tasks walt all_tasks ts st;
          Some (Some (runq_buf st), md_align_offset st) })"

subsection \<open>The text as a function of the data\<close>

definition indent :: "nat \<Rightarrow> string" where
  "indent k = concat (replicate k '' | '') @ '' |--''"

definition task_text :: "nat \<Rightarrow> string \<Rightarrow> sched_task \<Rightarrow> nat option \<Rightarrow> string" where
  "task_text k status t cur = indent k @ (if Some (tsk_id t) = cur then curr_line t else task_line status t)"

function se_text :: "nat \<Rightarrow> string \<Rightarrow> sched_entity option \<Rightarrow> nat option \<Rightarrow> string"
  and cfs_text :: "nat \<Rightarrow> cfs_rq \<Rightarrow> nat option \<Rightarrow> string" where
  "se_text k status None cur = indent k @ none_line status"
| "se_text k status (Some (SE_Task t)) cur = task_text k status t cur"
| "se_text k status (Some (SE_Group q)) cur =
     indent k @ group_line status (cfs_nr_running q) @ cfs_text (Suc k) q cur"
| "cfs_text k (Cfs_Rq n c nx l sk tmln lm) cur =
     se_text k ''curr'' c cur @ se_text k ''next'' nx cur @ se_text k ''last'' l cur @ se_text k ''skip'' sk cur @
     (if lm then concat (map (\<lambda>se. se_text k ''pend'' (Some se) cur) (take 200 tmln)) else [])"
  by pat_completeness auto
termination
proof (relation "measure (\<lambda>x. case x of Inl (k, status, se, cur) \<Rightarrow> size_option size se | Inr (k, q, cur) \<Rightarrow> size q)")
  fix k n nx l sk tmln lm cur and c :: "sched_entity option" and z :: sched_entity
  assume "z \<in> set (take 200 tmln)"
  then have "size z \<le> size_list size tmln"
    by (meson in_set_takeD size_list_estimation' order_refl)
  moreover have "0 < size_option size c" by (cases c) auto
  ultimately show "(Inl (k, ''pend'', Some z, cur), Inr (k, Cfs_Rq n c nx l sk tmln lm, cur))
      \<in> measure (\<lambda>x. case x of Inl (k, status, se, cur) \<Rightarrow> size_option size se | Inr (k, q, cur) \<Rightarrow> size q)"
    by simp
qed auto

lemma runq_printf_simps [simp]:
  "md_align_offset (runq_printf out st) = md_align_offset st"
  "runq_buf (runq_printf out st) = seq_buf_printf out (runq_buf st)"
  by (simp_all add: runq_printf_def)

lemma runq_printf_append:
  "seq_wf (runq_buf st) \<Longrightarrow> runq_printf b (runq_printf a st) = runq_printf (a @ b) st"
  by (simp add: runq_printf_def seq_buf_printf_append)

lemma runq_printf_Nil: "seq_wf (runq_buf st) \<Longrightarrow> runq_printf [] st = st"
  by (simp add: runq_printf_def)

lemma runq_printf_fold:
  "seq_wf (runq_buf st) \<Longrightarrow> fold runq_printf xs st = runq_printf (concat xs) st"
  by (induction xs arbitrary: st) (simp_all add: runq_printf_Nil runq_printf_append)

lemma md_dump_align_text: "seq_wf (runq_buf st) \<Longrightarrow> md_dump_align st = runq_printf (indent (md_align_offset st)) st"
proof -
  assume wf: "seq_wf (runq_buf st)"
  have "(runq_printf a ^^ n) st = runq_printf (concat (replicate n a)) st" for a n
  proof (induction n)
    case (Suc n)
    have "concat (replicate n a) @ a = concat (replicate (Suc n) a)"
      unfolding replicate_Suc replicate_append_same [symmetric] by simp
    with Suc show ?case using wf by (simp add: runq_printf_append del: replicate_Suc)
  qed (simp add: runq_printf_Nil wf)
  with wf show ?thesis by (simp add: md_dump_align_def indent_def runq_printf_append)
qed

lemma md_dump_task_info_text:
  assumes "seq_wf (runq_buf st)"
  shows "md_dump_task_info None status cur st = runq_printf (indent (md_align_offset st) @ none_line status) st"
    and "md_dump_task_info (Some t) status cur st = runq_printf (task_text (md_align_offset st) status t cur) st"
  using assms by (simp_all add: md_dump_task_info_def md_dump_align_text task_text_def runq_printf_append)

text \<open>The dump of a run queue appends its text and leaves the indentation as it was.\<close>

lemma cfs_dump_text:
  "seq_wf (runq_buf st) \<Longrightarrow> md_dump_cgroup_state status se cur st = runq_printf (se_text (md_align_offset st) status se cur) st"
  "seq_wf (runq_buf st) \<Longrightarrow> md_dump_cfs_rq q cur st = runq_printf (cfs_text (md_align_offset st) q cur) st"
  "seq_wf (runq_buf st) \<Longrightarrow> md_rb_walk_cfs n ses cur st = runq_printf
     (concat (map (\<lambda>se. se_text (md_align_offset st) ''pend'' (Some se) cur) (take n ses))) st"
proof (induction status se cur st and q cur st and n ses cur st
    rule: md_dump_cgroup_state_md_dump_cfs_rq_md_rb_walk_cfs.induct)
  case (3 status q cur st)
  have "align_up (runq_printf out (align_down s)) = runq_printf out s" for out s
    by (simp add: align_up_def align_down_def runq_printf_def)
  moreover have "md_align_offset (align_down s) = Suc (md_align_offset s)" "runq_buf (align_down s) = runq_buf s" for s
    by (simp_all add: align_down_def)
  ultimately show ?case using 3 by (simp add: md_dump_align_text runq_printf_append)
next
  case (4 n c nx l sk tmln lm cur st)
  then show ?case by (simp add: Let_def runq_printf_append)
qed (simp_all add: md_dump_task_info_text runq_printf_append runq_printf_Nil)

text \<open>The real-time queues whose bit is set, in order of priority.\<close>

fun rt_entity_text :: "nat \<Rightarrow> nat option \<Rightarrow> sched_rt_entity \<Rightarrow> string" where
  "rt_entity_text k cur (RT_Task t) = task_text k ''pend'' t cur"
| "rt_entity_text k cur RT_Group = []"

definition rt_text :: "nat \<Rightarrow> rt_rq \<Rightarrow> nat \<Rightarrow> nat option \<Rightarrow> string" where
  "rt_text k rt i cur = concat (map (\<lambda>j. concat (map (rt_entity_text k cur) (rt_queue rt j)))
     (filter (rt_bitmap rt) [i..<MAX_RT_PRIO]))"

lemma dump_rt_queue_text:
  "seq_wf (runq_buf st) \<Longrightarrow>
   dump_rt_queue es cur st = runq_printf (concat (map (rt_entity_text (md_align_offset st) cur) es)) st"
  by (induction es cur st rule: dump_rt_queue.induct)
    (simp_all add: runq_printf_Nil runq_printf_append md_dump_task_info_text)

lemma filter_find_next_bit:
  "filter b [i..<n] = (let j = find_next_bit b n i in if j < n then j # filter b [Suc j..<n] else [])"
proof (induction b n i rule: find_next_bit.induct)
  case (1 b n i)
  show ?case
  proof (cases "i < n \<and> \<not> b i")
    case True
    then have "find_next_bit b n i = find_next_bit b n (Suc i)" by (subst find_next_bit.simps) simp
    with 1 True show ?thesis by (simp add: upt_conv_Cons)
  next
    case False
    then show ?thesis by (subst find_next_bit.simps) (auto simp: upt_conv_Cons)
  qed
qed

lemma rt_loop_text:
  "seq_wf (runq_buf st) \<Longrightarrow> idx = find_next_bit (rt_bitmap rt) MAX_RT_PRIO i \<Longrightarrow>
   rt_loop rt idx cur st = runq_printf (rt_text (md_align_offset st) rt i cur) st"
proof (induction rt idx cur st arbitrary: i rule: rt_loop.induct)
  case (1 rt idx cur st)
  have split: "rt_text k rt i cur = (if idx < MAX_RT_PRIO
      then concat (map (rt_entity_text k cur) (rt_queue rt idx)) @ rt_text k rt (Suc idx) cur else [])" for k
    unfolding rt_text_def filter_find_next_bit [of _ i] using 1(3) by (simp add: Let_def)
  show ?case
  proof (cases "idx < MAX_RT_PRIO")
    case True
    then show ?thesis using 1(1) [OF True, of "Suc idx"] 1(2)
      by (subst rt_loop.simps) (simp add: split dump_rt_queue_text runq_printf_append)
  next
    case False
    then show ?thesis using 1(2) by (subst rt_loop.simps) (simp add: split runq_printf_Nil)
  qed
qed

lemma md_dump_rt_rq_text:
  "seq_wf (runq_buf st) \<Longrightarrow> md_dump_rt_rq rt cur st = runq_printf (rt_text (md_align_offset st) rt 0 cur) st"
proof (cases "bitmap_empty (rt_bitmap rt) MAX_RT_PRIO")
  case True
  then have "filter (rt_bitmap rt) [0..<MAX_RT_PRIO] = []"
    by (auto simp: bitmap_empty_def list_all_iff filter_empty_conv)
  moreover assume "seq_wf (runq_buf st)"
  ultimately show ?thesis using True by (simp add: md_dump_rt_rq_def rt_text_def runq_printf_Nil)
qed (simp add: md_dump_rt_rq_def rt_loop_text)

text \<open>The state letters: the index stays inside the array.\<close>

lemma fls_nat_le: "n < 2 ^ k \<Longrightarrow> fls_nat n \<le> k"
proof (induction k arbitrary: n)
  case (Suc k)
  then show ?case by (subst fls_nat.simps) (auto simp: less_mult_imp_div_less)
qed (simp add: fls_nat.simps)

lemma md_task_state_index_le: "md_task_state_index t \<le> 8"
proof -
  have "unat (x AND TASK_REPORT) < 2 ^ 8" for x :: u32
  proof -
    have "x AND TASK_REPORT = take_bit 7 x" by (simp add: TASK_REPORT_def take_bit_eq_mask mask_eq_exp_minus_1)
    then have "unat (x AND TASK_REPORT) = take_bit 7 (unat x)" by (simp add: unsigned_take_bit_eq)
    also have "\<dots> < 2 ^ 7" by (rule take_bit_nat_less_exp)
    finally show ?thesis by simp
  qed
  then show ?thesis
    by (auto simp: md_task_state_index_def Let_def TASK_REPORT_IDLE_def intro!: fls_nat_le)
qed

lemma md_get_task_state_ok: "md_get_task_state t = Some (task_state_array ! md_task_state_index t)"
  using md_task_state_index_le [of t] by (simp add: md_get_task_state_def task_state_array_def)

definition rq_text :: "nat \<Rightarrow> nat \<times> rq \<Rightarrow> string" where
  "rq_text k c = (let (cpu, q) = c; cur = Some (tsk_id (rq_curr q))
     in cpu_line cpu q @ cfs_line q @ cfs_text k (rq_cfs q) cur @ rt_line q @ rt_text k (rq_rt q) 0 cur @ [LF])"

definition task_row :: "sched_task \<Rightarrow> string" where
  "task_row t = concat (task_fields t (task_state_array ! md_task_state_index t)) @ [LF]"

definition listed :: "bool \<Rightarrow> sched_task list \<Rightarrow> sched_task list" where
  "listed all_tasks ts = filter (\<lambda>t. all_tasks \<or> tsk_state t = 0) ts"

definition runq_text :: "bool \<Rightarrow> nat \<Rightarrow> (nat \<times> rq) list \<Rightarrow> sched_task list \<Rightarrow> string" where
  "runq_text all_tasks k rqs ts = concat (map (rq_text k) rqs) @ concat (task_titles False) @
     concat (map task_row (listed all_tasks ts))"

lemma dump_cpu_rqs_text:
  "seq_wf (runq_buf st) \<Longrightarrow> dump_cpu_rqs rqs st = runq_printf (concat (map (rq_text (md_align_offset st)) rqs)) st"
  by (induction rqs st rule: dump_cpu_rqs.induct)
    (simp_all add: Let_def rq_text_def cfs_dump_text md_dump_rt_rq_text runq_printf_append runq_printf_Nil)

lemma dump_tasks_text:
  "seq_wf (runq_buf st) \<Longrightarrow>
   dump_tasks False all_tasks ts st = Some (runq_printf (concat (map task_row (listed all_tasks ts))) st)"
proof (induction ts arbitrary: st)
  case (Cons t ts)
  then show ?case
    by (cases all_tasks) (simp_all add: listed_def md_get_task_state_ok task_row_def runq_printf_fold runq_printf_append Let_def)
qed (simp add: listed_def runq_printf_Nil)

lemma md_dump_runqueues_text:
  assumes "seq_wf m"
  shows "md_dump_runqueues False all_tasks rqs ts (Some m, k) =
     Some (Some (seq_buf_printf (runq_text all_tasks k rqs ts) m), k)"
  using assms
  by (simp add: md_dump_runqueues_def dump_cpu_rqs_text runq_printf_fold dump_tasks_text runq_printf_append
      runq_text_def Let_def)

text \<open>With WALT, a listed task makes the dump follow an uninitialised pointer.\<close>

lemma md_dump_runqueues_walt:
  assumes "listed all_tasks ts \<noteq> []"
  shows "md_dump_runqueues True all_tasks rqs ts (Some m, k) = None"
proof -
  have "dump_tasks True all_tasks ts st = None" for st
    using assms
  proof (induction ts arbitrary: st)
    case (Cons t ts)
    then show ?case by (cases all_tasks) (auto simp: listed_def md_get_task_state_ok split: if_splits)
  qed (simp add: listed_def)
  then show ?thesis by (simp add: md_dump_runqueues_def Let_def)
qed

end
