(* ===== verification/Md_Context.thy ===== *)
theory Md_Context
  imports C_Text
begin

unbundle bit_operations_syntax

text \<open>
  The CPU context in the panic dump, from \<^verbatim>\<open>minidump/minidump_log.c\<close>: the memory around the addresses in
  the registers of the panicking CPU and of the CPUs it stopped.  Kernel memory is a function
  that has no value where \<^verbatim>\<open>get_kernel_nofault\<close> fails.
\<close>

subsection \<open>Definitions\<close>

type_synonym kmem = "u64 \<Rightarrow> u32 option"

record pt_regs =
  x_regs :: "nat \<Rightarrow> u64"
  reg_sp :: u64
  reg_pc :: u64
  user_mode :: bool

text \<open>The registers of a CPU that has not been stopped; with a saved state of 0 they count as user mode.\<close>

definition zero_regs :: pt_regs where
  "zero_regs = \<lparr>x_regs = (\<lambda>_. 0), reg_sp = 0, reg_pc = 0, user_mode = True\<rparr>"

definition data_word :: "kmem \<Rightarrow> u64 \<Rightarrow> string" where
  "data_word mem p = (case mem p of None \<Rightarrow> '' ********'' | Some w \<Rightarrow> '' '' @ pad_zero 8 (hex_str (unat w)))"

fun dump_words :: "kmem \<Rightarrow> nat \<Rightarrow> u64 \<Rightarrow> seq_buf \<Rightarrow> seq_buf" where
  "dump_words mem 0 p m = m"
| "dump_words mem (Suc j) p m = dump_words mem j (p + 4) (seq_buf_printf (data_word mem p) m)"

fun dump_lines :: "kmem \<Rightarrow> nat \<Rightarrow> u64 \<Rightarrow> seq_buf \<Rightarrow> seq_buf" where
  "dump_lines mem 0 p m = m"
| "dump_lines mem (Suc i) p m =
     (let m = seq_buf_printf (pad_zero 4 (hex_str (unat (p AND 0xffff))) @ '' '') m;
          m = dump_words mem 8 p m
      in dump_lines mem i (p + 32) (seq_buf_printf [LF] m))"

definition data_header :: "string \<Rightarrow> u64 \<Rightarrow> string" where
  "data_header name addr = [LF] @ name @ '': 0x'' @ hex_str (unat addr) @ '':'' @ [LF]"

text \<open>\<open>page_offset\<close> is the kernel's \<^verbatim>\<open>PAGE_OFFSET\<close>.\<close>

definition md_dump_data :: "u64 \<Rightarrow> kmem \<Rightarrow> u64 \<Rightarrow> nat \<Rightarrow> string \<Rightarrow> seq_buf \<Rightarrow> seq_buf" where
  "md_dump_data page_offset mem addr nbytes name m =
     (if addr < page_offset \<or> - 256 < addr then m
      else let m = seq_buf_printf (data_header name addr) m;
               p = addr AND NOT 3;
               nbytes = nbytes + unat (addr AND 3);
               nlines = (nbytes + 31) div 32
           in dump_lines mem nlines p m)"

fun dump_x_regs :: "u64 \<Rightarrow> kmem \<Rightarrow> pt_regs \<Rightarrow> nat \<Rightarrow> nat \<Rightarrow> seq_buf \<Rightarrow> seq_buf" where
  "dump_x_regs page_offset mem r i 0 m = m"
| "dump_x_regs page_offset mem r i (Suc n) m =
     dump_x_regs page_offset mem r (Suc i) n
       (md_dump_data page_offset mem (x_regs r i - 128) 256 (scnprintf_str 4 (''X'' @ dec_str i)) m)"

definition md_reg_context_data :: "u64 \<Rightarrow> kmem \<Rightarrow> pt_regs \<Rightarrow> seq_buf \<Rightarrow> seq_buf" where
  "md_reg_context_data page_offset mem r m =
     (if user_mode r \<or> reg_pc r = 0 then m
      else let m = md_dump_data page_offset mem (reg_pc r - 128) 256 ''PC'' m;
               m = md_dump_data page_offset mem (x_regs r 30 - 128) 256 ''LR'' m;
               m = md_dump_data page_offset mem (reg_sp r - 128) 256 ''SP'' m
           in dump_x_regs page_offset mem r 0 30 m)"

text \<open>The registers of the panicking CPU, which the code reads with assembler instructions, are an argument.\<close>

definition md_dump_panic_regs :: "u64 \<Rightarrow> kmem \<Rightarrow> nat \<Rightarrow> pt_regs \<Rightarrow> seq_buf \<Rightarrow> seq_buf" where
  "md_dump_panic_regs page_offset mem cpu r m =
     md_reg_context_data page_offset mem r (seq_buf_printf (''PANIC CPU : '' @ dec_str cpu @ [LF]) m)"

definition stopped_line :: "nat \<Rightarrow> string" where
  "stopped_line cpu = [LF] @ ''STOPPED CPU : '' @ dec_str cpu @ [LF]"

fun md_dump_other_cpus_context :: "u64 \<Rightarrow> kmem \<Rightarrow> (nat \<Rightarrow> pt_regs) \<Rightarrow> nat list \<Rightarrow> seq_buf \<Rightarrow> seq_buf" where
  "md_dump_other_cpus_context page_offset mem before_stop [] m = m"
| "md_dump_other_cpus_context page_offset mem before_stop (cpu # cpus) m =
     md_dump_other_cpus_context page_offset mem before_stop cpus
       (md_reg_context_data page_offset mem (before_stop cpu) (seq_buf_printf (stopped_line cpu) m))"

subsection \<open>The text as a function of memory and registers\<close>

definition line_text :: "kmem \<Rightarrow> u64 \<Rightarrow> string" where
  "line_text mem p = pad_zero 4 (hex_str (unat (p AND 0xffff))) @ '' '' @
     concat (map (\<lambda>j. data_word mem (p + of_nat j * 4)) [0..<8]) @ [LF]"

definition data_text :: "u64 \<Rightarrow> kmem \<Rightarrow> u64 \<Rightarrow> string \<Rightarrow> string" where
  "data_text page_offset mem addr name =
     (if addr < page_offset \<or> - 256 < addr then []
      else data_header name addr @ concat (map (\<lambda>i. line_text mem ((addr AND NOT 3) + of_nat i * 32))
        [0..<if addr AND 3 = 0 then 8 else 9]))"

definition reg_names :: "(pt_regs \<Rightarrow> u64 \<times> string) list" where
  "reg_names = [\<lambda>r. (reg_pc r, ''PC''), \<lambda>r. (x_regs r 30, ''LR''), \<lambda>r. (reg_sp r, ''SP'')] @
     map (\<lambda>i r. (x_regs r i, ''X'' @ dec_str i)) [0..<30]"

definition regs_text :: "u64 \<Rightarrow> kmem \<Rightarrow> pt_regs \<Rightarrow> string" where
  "regs_text page_offset mem r = (if user_mode r \<or> reg_pc r = 0 then []
     else concat (map (\<lambda>g. data_text page_offset mem (fst (g r) - 128) (snd (g r))) reg_names))"

lemma dump_words_text:
  "seq_wf m \<Longrightarrow> dump_words mem n p m = seq_buf_printf (concat (map (\<lambda>j. data_word mem (p + of_nat j * 4)) [0..<n])) m"
proof (induction n arbitrary: p m)
  case (Suc n)
  have "[0..<Suc n] = 0 # map Suc [0..<n]" by (simp add: upt_conv_Cons map_Suc_upt del: upt_Suc)
  with Suc show ?case by (simp add: seq_buf_printf_append o_def algebra_simps del: upt_Suc)
qed simp

lemma dump_lines_text:
  "seq_wf m \<Longrightarrow> dump_lines mem n p m = seq_buf_printf (concat (map (\<lambda>i. line_text mem (p + of_nat i * 32)) [0..<n])) m"
proof (induction n arbitrary: p m)
  case (Suc n)
  have "[0..<Suc n] = 0 # map Suc [0..<n]" by (simp add: upt_conv_Cons map_Suc_upt del: upt_Suc)
  with Suc show ?case
    by (simp add: seq_buf_printf_append dump_words_text line_text_def o_def algebra_simps Let_def del: upt_Suc)
qed simp

lemma and_3_lt: "unat (addr AND 3 :: u64) < 4"
proof -
  have "addr AND 3 = take_bit 2 addr" by (simp add: take_bit_eq_mask mask_eq_exp_minus_1)
  then have "unat (addr AND 3) = take_bit 2 (unat addr)" by (simp add: unsigned_take_bit_eq)
  also have "\<dots> < 2 ^ 2" by (rule take_bit_nat_less_exp)
  finally show ?thesis by simp
qed

lemma md_dump_data_text:
  assumes "seq_wf m"
  shows "md_dump_data page_offset mem addr 256 name m = seq_buf_printf (data_text page_offset mem addr name) m"
proof -
  have "(256 + unat (addr AND 3) + 31) div 32 = (if addr AND 3 = 0 then 8 else 9)"
  proof (cases "addr AND 3 = 0")
    case False
    then have "0 < unat (addr AND 3)" using unat_gt_0 by blast
    with and_3_lt [of addr] False show ?thesis by simp
  qed simp
  with assms show ?thesis
    by (simp add: md_dump_data_def data_text_def Let_def dump_lines_text seq_buf_printf_append)
qed

lemma dump_x_regs_text:
  "seq_wf m \<Longrightarrow> i + n \<le> 100 \<Longrightarrow> dump_x_regs page_offset mem r i n m = seq_buf_printf
     (concat (map (\<lambda>j. data_text page_offset mem (x_regs r j - 128) (''X'' @ dec_str j)) [i..<i + n])) m"
proof (induction n arbitrary: i m)
  case (Suc n)
  have "scnprintf_str 4 (''X'' @ dec_str i) = ''X'' @ dec_str i"
    using length_dec_str [of i 2] Suc.prems by (simp add: scnprintf_str_def)
  with Suc show ?case by (simp add: md_dump_data_text seq_buf_printf_append upt_conv_Cons del: upt_Suc)
qed simp

lemma md_reg_context_data_text:
  "seq_wf m \<Longrightarrow> md_reg_context_data page_offset mem r m = seq_buf_printf (regs_text page_offset mem r) m"
  by (simp add: md_reg_context_data_def regs_text_def reg_names_def Let_def md_dump_data_text dump_x_regs_text
      seq_buf_printf_append o_def del: upt_Suc)

definition others_text :: "u64 \<Rightarrow> kmem \<Rightarrow> (nat \<Rightarrow> pt_regs) \<Rightarrow> nat list \<Rightarrow> string" where
  "others_text page_offset mem before_stop cpus =
     concat (map (\<lambda>c. stopped_line c @ regs_text page_offset mem (before_stop c)) cpus)"

lemma md_dump_other_cpus_context_text:
  "seq_wf m \<Longrightarrow> md_dump_other_cpus_context page_offset mem before_stop cpus m =
     seq_buf_printf (others_text page_offset mem before_stop cpus) m"
  by (induction cpus arbitrary: m) (simp_all add: others_text_def md_reg_context_data_text seq_buf_printf_append)

subsection \<open>How much one CPU needs\<close>

lemma length_data_word [simp]: "length (data_word mem p) = 9"
proof -
  have "length (hex_str (unat w)) \<le> 8" for w :: u32
    by (rule length_hex_str) (use unsigned_less [of w] in simp_all)
  then show ?thesis by (simp add: data_word_def pad_zero_def split: option.split)
qed

lemma length_line_text: "length (line_text mem p) = 78"
proof -
  have "p AND 0xffff = take_bit 16 p" by (simp add: take_bit_eq_mask mask_eq_exp_minus_1)
  then have "unat (p AND 0xffff) = take_bit 16 (unat p)" by (simp add: unsigned_take_bit_eq)
  also have "\<dots> < 16 ^ 4" using take_bit_nat_less_exp [of 16 "unat p"] by simp
  finally have "length (hex_str (unat (p AND 0xffff))) \<le> 4" by (rule length_hex_str) simp
  then show ?thesis by (simp add: line_text_def pad_zero_def length_concat o_def upt_rec)
qed

lemma length_data_text: "length name \<le> 3 \<Longrightarrow> length (data_text page_offset mem addr name) \<le> 728"
proof -
  assume n: "length name \<le> 3"
  have "length (hex_str (unat addr)) \<le> 16"
    by (rule length_hex_str) (use unsigned_less [of addr] in simp_all)
  with n show ?thesis
    by (simp add: data_text_def data_header_def length_concat o_def length_line_text sum_list_triv)
qed

lemma length_regs_text: "length (regs_text page_offset mem r) \<le> 24024"
proof -
  have x: "length (''X'' @ dec_str i) \<le> 3" if "i < 30" for i
    using length_dec_str [of i 2] that by simp
  have "\<forall>g \<in> set reg_names. length (snd (g r)) \<le> 3"
    unfolding reg_names_def set_append set_map ball_Un ball_simps using x by simp
  then have "\<forall>g \<in> set reg_names. length (data_text page_offset mem (fst (g r) - 128) (snd (g r))) \<le> 728"
    by (blast intro: length_data_text)
  then have "sum_list (map (\<lambda>g. length (data_text page_offset mem (fst (g r) - 128) (snd (g r)))) reg_names) \<le>
      sum_list (map (\<lambda>_. 728) reg_names)"
    by (intro sum_list_mono) blast
  also have "\<dots> = length reg_names * 728" by (simp add: sum_list_triv)
  also have "\<dots> = 24024" by (simp add: reg_names_def)
  finally show ?thesis by (simp add: regs_text_def length_concat o_def)
qed

text \<open>
  The context of the panicking CPU and of up to four CPUs that it stopped fits into 32 pages.
\<close>

lemma length_others_text:
  assumes "\<forall>c \<in> set cpus. c < 1000"
  shows "length (others_text page_offset mem before_stop cpus) \<le> length cpus * 24043"
  using assms
proof (induction cpus)
  case (Cons c cpus)
  have "length (stopped_line c) \<le> 19" using length_dec_str [of c 3] Cons.prems by (simp add: stopped_line_def)
  with Cons length_regs_text [of page_offset mem "before_stop c"] show ?case by (simp add: others_text_def)
qed (simp add: others_text_def)

end
