(* ===== verification/Md_Stats.thy ===== *)
theory Md_Stats
  imports C_Text
begin

text \<open>
  The memory statistics in the panic dump, from \<^verbatim>\<open>minidump/minidump_memory.c\<close>: \<^verbatim>\<open>md_dump_meminfo\<close> and
  \<^verbatim>\<open>md_dump_slabinfo\<close>.  The kernel's counters are arguments.
\<close>

subsection \<open>Memory information\<close>

record sysinfo =
  totalram :: u64
  freeram :: u64
  sharedram :: u64
  bufferram :: u64
  totalswap :: u64
  freeswap :: u64
  totalhigh :: u64
  freehigh :: u64

datatype lru_list = LRU_INACTIVE_ANON | LRU_ACTIVE_ANON | LRU_INACTIVE_FILE | LRU_ACTIVE_FILE | LRU_UNEVICTABLE

datatype node_stat = NR_FILE_PAGES | NR_LRU lru_list | NR_SLAB_RECLAIMABLE_B | NR_SLAB_UNRECLAIMABLE_B | NR_FILE_DIRTY
  | NR_WRITEBACK | NR_ANON_MAPPED | NR_FILE_MAPPED | NR_KERNEL_MISC_RECLAIMABLE | NR_KERNEL_STACK_KB | NR_KERNEL_SCS_KB
  | NR_PAGETABLE | NR_WRITEBACK_TEMP | NR_ANON_THPS | NR_SHMEM_THPS | NR_SHMEM_PMDMAPPED | NR_FILE_THPS | NR_FILE_PMDMAPPED

datatype zone_stat = NR_MLOCK | NR_BOUNCE | NR_FREE_CMA_PAGES

record mem_counters =
  mc_sysinfo :: sysinfo
  node_state :: "node_stat \<Rightarrow> u64"
  zone_state :: "zone_stat \<Rightarrow> u64"
  total_swapcache_pages :: u64
  si_mem_available :: u64
  vmalloc_total :: u64
  vmalloc_nr_pages :: u64
  pcpu_nr_pages :: u64
  hpage_pmd_nr :: u64
  total_cma :: u64
  config_highmem :: bool
  config_shadow_call_stack :: bool
  config_transparent_hugepage :: bool
  config_cma :: bool

text \<open>\<^verbatim>\<open>num << (PAGE_SHIFT - 10)\<close>, printed as a signed number.\<close>

definition val_line :: "string \<Rightarrow> u64 \<Rightarrow> string" where
  "val_line s num = s @ '' : '' @ int_str (sint (push_bit 2 num)) @ '' KB'' @ [LF]"

definition show_val_kb :: "string \<Rightarrow> u64 \<Rightarrow> seq_buf \<Rightarrow> seq_buf" where
  "show_val_kb s num m = seq_buf_printf (val_line s num) m"

definition show_vals :: "(string \<times> u64) list \<Rightarrow> seq_buf \<Rightarrow> seq_buf" where
  "show_vals vs m = fold (\<lambda>(s, num). show_val_kb s num) vs m"

definition cached_pages :: "mem_counters \<Rightarrow> u64" where
  "cached_pages c = (let cached = node_state c NR_FILE_PAGES - total_swapcache_pages c - bufferram (mc_sysinfo c)
     in if sint cached < 0 then 0 else cached)"

definition ram_lines :: "mem_counters \<Rightarrow> (string \<times> u64) list" where
  "ram_lines c = (let i = mc_sysinfo c; pages = (\<lambda>l. node_state c (NR_LRU l)) in [
     (''MemTotal:       '', totalram i),
     (''MemFree:        '', freeram i),
     (''MemAvailable:   '', si_mem_available c),
     (''Buffers:        '', bufferram i),
     (''Cached:         '', cached_pages c),
     (''SwapCached:     '', total_swapcache_pages c),
     (''Active:         '', pages LRU_ACTIVE_ANON + pages LRU_ACTIVE_FILE),
     (''Inactive:       '', pages LRU_INACTIVE_ANON + pages LRU_INACTIVE_FILE),
     (''Active(anon):   '', pages LRU_ACTIVE_ANON),
     (''Inactive(anon): '', pages LRU_INACTIVE_ANON),
     (''Active(file):   '', pages LRU_ACTIVE_FILE),
     (''Inactive(file): '', pages LRU_INACTIVE_FILE),
     (''Unevictable:    '', pages LRU_UNEVICTABLE),
     (''Mlocked:        '', zone_state c NR_MLOCK)])"

definition high_lines :: "mem_counters \<Rightarrow> (string \<times> u64) list" where
  "high_lines c = (let i = mc_sysinfo c in if \<not> config_highmem c then [] else [
     (''HighTotal:      '', totalhigh i),
     (''HighFree:       '', freehigh i),
     (''LowTotal:       '', totalram i - totalhigh i),
     (''LowFree:        '', freeram i - freehigh i)])"

definition swap_lines :: "mem_counters \<Rightarrow> (string \<times> u64) list" where
  "swap_lines c = (let i = mc_sysinfo c; sreclaimable = node_state c NR_SLAB_RECLAIMABLE_B;
       sunreclaim = node_state c NR_SLAB_UNRECLAIMABLE_B in [
     (''SwapTotal:      '', totalswap i),
     (''SwapFree:       '', freeswap i),
     (''Dirty:          '', node_state c NR_FILE_DIRTY),
     (''Writeback:      '', node_state c NR_WRITEBACK),
     (''AnonPages:      '', node_state c NR_ANON_MAPPED),
     (''Mapped:         '', node_state c NR_FILE_MAPPED),
     (''Shmem:          '', sharedram i),
     (''KReclaimable:   '', sreclaimable + node_state c NR_KERNEL_MISC_RECLAIMABLE),
     (''Slab:           '', sreclaimable + sunreclaim),
     (''SReclaimable:   '', sreclaimable),
     (''SUnreclaim:     '', sunreclaim)])"

definition table_lines :: "mem_counters \<Rightarrow> (string \<times> u64) list" where
  "table_lines c = [
     (''PageTables:     '', node_state c NR_PAGETABLE),
     (''Bounce:         '', zone_state c NR_BOUNCE),
     (''WritebackTmp:   '', node_state c NR_WRITEBACK_TEMP)]"

definition vmalloc_lines :: "mem_counters \<Rightarrow> (string \<times> u64) list" where
  "vmalloc_lines c = [
     (''VmallocUsed: '', vmalloc_nr_pages c),
     (''Percpu:         '', pcpu_nr_pages c)]"

definition huge_lines :: "mem_counters \<Rightarrow> (string \<times> u64) list" where
  "huge_lines c = (if \<not> config_transparent_hugepage c then [] else [
     (''AnonHugePages:  '', node_state c NR_ANON_THPS * hpage_pmd_nr c),
     (''ShmemHugePages: '', node_state c NR_SHMEM_THPS * hpage_pmd_nr c),
     (''ShmemPmdMapped: '', node_state c NR_SHMEM_PMDMAPPED * hpage_pmd_nr c),
     (''FileHugePages:  '', node_state c NR_FILE_THPS * hpage_pmd_nr c),
     (''FilePmdMapped:  '', node_state c NR_FILE_PMDMAPPED * hpage_pmd_nr c)])"

definition cma_lines :: "mem_counters \<Rightarrow> (string \<times> u64) list" where
  "cma_lines c = (if \<not> config_cma c then [] else [
     (''CmaTotal:       '', total_cma c),
     (''CmaFree:        '', zone_state c NR_FREE_CMA_PAGES)])"

text \<open>The lines with \<^verbatim>\<open>%8lu kB\<close>.\<close>

definition kb_line :: "string \<Rightarrow> u64 \<Rightarrow> string" where
  "kb_line s num = s @ pad_left 8 (dec_str (unat num)) @ '' kB'' @ [LF]"

definition md_dump_meminfo :: "mem_counters \<Rightarrow> seq_buf \<Rightarrow> seq_buf" where
  "md_dump_meminfo c m =
     (let m = show_vals (ram_lines c) m;
          m = show_vals (high_lines c) m;
          m = show_vals (swap_lines c) m;
          m = seq_buf_printf (kb_line ''KernelStack:    '' (node_state c NR_KERNEL_STACK_KB)) m;
          m = (if config_shadow_call_stack c
               then seq_buf_printf (kb_line ''ShadowCallStack:'' (node_state c NR_KERNEL_SCS_KB)) m else m);
          m = show_vals (table_lines c) m;
          m = seq_buf_printf (kb_line ''VmallocTotal:   '' (drop_bit 10 (vmalloc_total c))) m;
          m = show_vals (vmalloc_lines c) m;
          m = show_vals (huge_lines c) m
      in show_vals (cma_lines c) m)"

subsection \<open>Slab information\<close>

text \<open>The counters that a cache has in a build with \<^verbatim>\<open>CONFIG_DEBUG_SLAB\<close>.\<close>

record slab_stats =
  high_mark :: nat
  num_allocations :: nat
  grown :: nat
  reaped :: nat
  errors :: nat
  max_freeable :: nat
  node_allocs :: nat
  node_frees :: nat
  node_overflow :: nat
  allochit :: nat
  allocmiss :: nat
  freehit :: nat
  freemiss :: nat

record kmem_cache =
  cache_name :: string
  cache_size :: nat
  cache_stats :: slab_stats

record slabinfo =
  active_objs :: nat
  num_objs :: nat
  objects_per_slab :: nat
  cache_order :: nat
  si_limit :: nat
  batchcount :: nat
  shared :: nat
  active_slabs :: nat
  num_slabs :: nat
  shared_avail :: nat

definition slab_title1 :: string where
  "slab_title1 = ''# name            <active_objs> <num_objs> <objsize> <objperslab> <pagesperslab>''"
definition slab_title2 :: string where
  "slab_title2 = '' : tunables <limit> <batchcount> <sharedfactor>''"
definition slab_title3 :: string where
  "slab_title3 = '' : slabdata <active_slabs> <num_slabs> <sharedavail>''"

definition slab_title4 :: string where
  "slab_title4 = '' : globalstat <listallocs> <maxobjs> <grown> <reaped> <error> <maxfreeable> <nodeallocs> <remotefrees> <alienoverflow>''"
definition slab_title5 :: string where
  "slab_title5 = '' : cpustat <allochit> <allocmiss> <freehit> <freemiss>''"

definition field :: "nat \<Rightarrow> nat \<Rightarrow> string" where
  "field w n = '' '' @ pad_left w (dec_str n)"

definition slab_objects :: "kmem_cache \<Rightarrow> slabinfo \<Rightarrow> string" where
  "slab_objects s i = pad_right 17 (cache_name s) @ field 6 (active_objs i) @ field 6 (num_objs i) @
     field 6 (cache_size s) @ field 4 (objects_per_slab i) @ field 4 (2 ^ cache_order i)"

definition slab_tunables :: "slabinfo \<Rightarrow> string" where
  "slab_tunables i = '' : tunables'' @ field 4 (si_limit i) @ field 4 (batchcount i) @ field 4 (shared i)"

definition slab_data :: "slabinfo \<Rightarrow> string" where
  "slab_data i = '' : slabdata'' @ field 6 (active_slabs i) @ field 6 (num_slabs i) @ field 6 (shared_avail i)"

definition global_stat :: "slab_stats \<Rightarrow> string" where
  "global_stat c = '' : globalstat'' @ field 7 (num_allocations c) @ field 6 (high_mark c) @ field 5 (grown c) @
     field 4 (reaped c) @ field 4 (errors c) @ field 4 (max_freeable c) @ field 4 (node_allocs c) @
     field 4 (node_frees c) @ field 4 (node_overflow c)"

definition cpu_stat :: "slab_stats \<Rightarrow> string" where
  "cpu_stat c = '' : cpustat'' @ field 6 (allochit c) @ field 6 (allocmiss c) @ field 6 (freehit c) @ field 6 (freemiss c)"

text \<open>\<open>debug\<close> is the build's \<^verbatim>\<open>CONFIG_DEBUG_SLAB\<close>; without it there is nothing to print.\<close>

definition slabinfo_stats :: "bool \<Rightarrow> kmem_cache \<Rightarrow> seq_buf \<Rightarrow> seq_buf" where
  "slabinfo_stats debug s m =
     (if debug then seq_buf_printf (cpu_stat (cache_stats s)) (seq_buf_printf (global_stat (cache_stats s)) m) else m)"

fun dump_slabs :: "bool \<Rightarrow> (kmem_cache \<times> slabinfo) list \<Rightarrow> seq_buf \<Rightarrow> seq_buf" where
  "dump_slabs debug [] m = m"
| "dump_slabs debug ((s, i) # ss) m =
     (let m = seq_buf_printf (slab_objects s i) m;
          m = seq_buf_printf (slab_tunables i) m;
          m = seq_buf_printf (slab_data i) m;
          m = slabinfo_stats debug s m
      in dump_slabs debug ss (seq_buf_printf [LF] m))"

text \<open>
  \<open>trylock\<close> says whether the mutex of the caches was free; \<open>slabs\<close> are the caches with the result of \<^verbatim>\<open>get_slabinfo\<close>.
\<close>

definition md_dump_slabinfo :: "bool \<Rightarrow> bool \<Rightarrow> (kmem_cache \<times> slabinfo) list \<Rightarrow> seq_buf \<Rightarrow> seq_buf" where
  "md_dump_slabinfo debug trylock slabs m =
     (if \<not> trylock then m
      else let m = seq_buf_printf slab_title1 m;
               m = seq_buf_printf slab_title2 m;
               m = seq_buf_printf slab_title3 m;
               m = (if debug then seq_buf_printf slab_title5 (seq_buf_printf slab_title4 m) else m);
               m = seq_buf_printf [LF] m
           in dump_slabs debug slabs m)"

text \<open>The table as a function of the caches.\<close>

definition slab_row :: "bool \<Rightarrow> kmem_cache \<times> slabinfo \<Rightarrow> string" where
  "slab_row debug c = slab_objects (fst c) (snd c) @ slab_tunables (snd c) @ slab_data (snd c) @
     (if debug then global_stat (cache_stats (fst c)) @ cpu_stat (cache_stats (fst c)) else []) @ [LF]"

definition slabinfo_text :: "bool \<Rightarrow> bool \<Rightarrow> (kmem_cache \<times> slabinfo) list \<Rightarrow> string" where
  "slabinfo_text debug trylock slabs =
     (if \<not> trylock then []
      else slab_title1 @ slab_title2 @ slab_title3 @ (if debug then slab_title4 @ slab_title5 else []) @ [LF] @
        concat (map (slab_row debug) slabs))"

lemma dump_slabs_text: "seq_wf m \<Longrightarrow> dump_slabs debug slabs m = seq_buf_printf (concat (map (slab_row debug) slabs)) m"
proof (induction slabs arbitrary: m)
  case (Cons c slabs)
  then show ?case by (cases c) (simp add: slabinfo_stats_def slab_row_def seq_buf_printf_append Let_def)
qed simp

lemma md_dump_slabinfo_text:
  "seq_wf m \<Longrightarrow> md_dump_slabinfo debug trylock slabs m = seq_buf_printf (slabinfo_text debug trylock slabs) m"
  by (simp add: md_dump_slabinfo_def slabinfo_text_def dump_slabs_text seq_buf_printf_append Let_def)

subsection \<open>The memory information fits its page\<close>

definition meminfo_text :: "mem_counters \<Rightarrow> string" where
  "meminfo_text c = concat (map (\<lambda>(s, num). val_line s num) (ram_lines c @ high_lines c @ swap_lines c)) @
     kb_line ''KernelStack:    '' (node_state c NR_KERNEL_STACK_KB) @
     (if config_shadow_call_stack c then kb_line ''ShadowCallStack:'' (node_state c NR_KERNEL_SCS_KB) else []) @
     concat (map (\<lambda>(s, num). val_line s num) (table_lines c)) @
     kb_line ''VmallocTotal:   '' (drop_bit 10 (vmalloc_total c)) @
     concat (map (\<lambda>(s, num). val_line s num) (vmalloc_lines c @ huge_lines c @ cma_lines c))"

lemma show_vals_text:
  "seq_wf m \<Longrightarrow> show_vals vs m = seq_buf_printf (concat (map (\<lambda>(s, num). val_line s num) vs)) m"
proof (induction vs arbitrary: m)
  case (Cons v vs)
  then show ?case by (cases v) (simp add: show_vals_def show_val_kb_def seq_buf_printf_append)
qed (simp add: show_vals_def)

lemma md_dump_meminfo_text: "seq_wf m \<Longrightarrow> md_dump_meminfo c m = seq_buf_printf (meminfo_text c) m"
  by (simp add: md_dump_meminfo_def meminfo_text_def show_vals_text seq_buf_printf_append Let_def)

lemma length_int_str: "- (2 ^ 63) \<le> i \<Longrightarrow> i < 2 ^ 63 \<Longrightarrow> length (int_str i) \<le> 20"
proof -
  assume i: "- (2 ^ 63) \<le> i" "i < 2 ^ 63"
  then have "nat (- i) < 10 ^ 19" "nat i < 10 ^ 19" by (simp_all add: nat_less_iff)
  then have "length (dec_str (nat (- i))) \<le> 19" "length (dec_str (nat i)) \<le> 19" by (intro length_dec_str; simp)+
  then show ?thesis by (simp add: int_str_def)
qed

lemma length_val_line: "length s \<le> 16 \<Longrightarrow> length (val_line s num) \<le> 43"
proof -
  assume s: "length s \<le> 16"
  have "length (int_str (sint (push_bit 2 num))) \<le> 20"
    by (rule length_int_str) (use sint_ge [of "push_bit 2 num"] sint_lt [of "push_bit 2 num"] in simp_all)
  with s show ?thesis by (simp add: val_line_def)
qed

lemma length_kb_line: "length s \<le> 16 \<Longrightarrow> length (kb_line s num) \<le> 40"
proof -
  assume s: "length s \<le> 16"
  have "unat num < 2 ^ 64" using unsigned_less [of num] by simp
  then have "length (dec_str (unat num)) \<le> 20" by (intro length_dec_str) simp_all
  with s show ?thesis by (simp add: kb_line_def pad_left_def)
qed

lemma length_val_lines:
  "\<forall>(s, num) \<in> set vs. length s \<le> 16 \<Longrightarrow> length (concat (map (\<lambda>(s, num). val_line s num) vs)) \<le> length vs * 43"
proof (induction vs)
  case (Cons v vs)
  then show ?case using length_val_line [of "fst v" "snd v"] by (cases v) auto
qed simp

lemma labels:
  "\<forall>(s, num) \<in> set (ram_lines c). length s \<le> 16" "\<forall>(s, num) \<in> set (high_lines c). length s \<le> 16"
  "\<forall>(s, num) \<in> set (swap_lines c). length s \<le> 16" "\<forall>(s, num) \<in> set (table_lines c). length s \<le> 16"
  "\<forall>(s, num) \<in> set (vmalloc_lines c). length s \<le> 16" "\<forall>(s, num) \<in> set (huge_lines c). length s \<le> 16"
  "\<forall>(s, num) \<in> set (cma_lines c). length s \<le> 16"
  by (simp_all add: ram_lines_def high_lines_def swap_lines_def table_lines_def vmalloc_lines_def huge_lines_def
      cma_lines_def Let_def)

lemma lines_count:
  "length (ram_lines c) = 14" "length (high_lines c) \<le> 4" "length (swap_lines c) = 11" "length (table_lines c) = 3"
  "length (vmalloc_lines c) = 2" "length (huge_lines c) \<le> 5" "length (cma_lines c) \<le> 2"
  by (simp_all add: ram_lines_def high_lines_def swap_lines_def table_lines_def vmalloc_lines_def huge_lines_def
      cma_lines_def Let_def)

lemma length_meminfo_text: "length (meminfo_text c) \<le> 1883"
proof -
  have a: "length (concat (map (\<lambda>(s, num). val_line s num) (ram_lines c @ high_lines c @ swap_lines c))) \<le> 29 * 43"
    using length_val_lines [OF labels(1) [of c]] length_val_lines [OF labels(2) [of c]]
      length_val_lines [OF labels(3) [of c]] lines_count [of c] by simp
  have b: "length (concat (map (\<lambda>(s, num). val_line s num) (table_lines c))) \<le> 3 * 43"
    using length_val_lines [OF labels(4) [of c]] lines_count [of c] by simp
  have d: "length (concat (map (\<lambda>(s, num). val_line s num) (vmalloc_lines c @ huge_lines c @ cma_lines c))) \<le> 9 * 43"
    using length_val_lines [OF labels(5) [of c]] length_val_lines [OF labels(6) [of c]]
      length_val_lines [OF labels(7) [of c]] lines_count [of c] by simp
  have k: "length (kb_line ''KernelStack:    '' x) \<le> 40" "length (kb_line ''ShadowCallStack:'' x) \<le> 40"
    "length (kb_line ''VmallocTotal:   '' x) \<le> 40" for x
    by (rule length_kb_line; simp)+
  show ?thesis
    unfolding meminfo_text_def length_append
    using a b d k(1) [of "node_state c NR_KERNEL_STACK_KB"] k(2) [of "node_state c NR_KERNEL_SCS_KB"]
      k(3) [of "drop_bit 10 (vmalloc_total c)"] by simp
qed

end
