(* ===== verification/Mem_Region.thy ===== *)
theory Mem_Region
  imports Md_Log
begin

text \<open>
  The regions of the memory dumps, from \<^verbatim>\<open>minidump/minidump_memory.c\<close>: a buffer from the contiguous memory
  area is registered with the minidump driver under a name, and user space changes its size through
  debugfs.  The allocator is a parameter that knows what is allocated at present.
\<close>

subsection \<open>Definitions\<close>

datatype dump_kind = PAGEOWNER | SLABOWNER | DMA_INFO | DMA_PROC

primrec dump_name :: "dump_kind \<Rightarrow> string" where
  "dump_name PAGEOWNER = ''PAGEOWNER''"
| "dump_name SLABOWNER = ''SLABOWNER''"
| "dump_name DMA_INFO = ''DMA_INFO''"
| "dump_name DMA_PROC = ''DMA_PROC''"

definition SZ_1M :: u64 where "SZ_1M = 0x100000"

text \<open>The blocks that are allocated: address and number of pages.\<close>

type_synonym cma_blocks = "(u64 \<times> u64) list"

record mem_env =
  cma_alloc :: "cma_blocks \<Rightarrow> u64 \<Rightarrow> u64 option"
  mem_virt_to_phys :: "u64 \<Rightarrow> u64"
  mem_alloc :: bool

record mem_state =
  dump_addr :: "dump_kind \<Rightarrow> u64 option"
  dump_size :: "dump_kind \<Rightarrow> u64"
  cma_live :: cma_blocks
  dump_mem :: "dump_kind \<Rightarrow> char arr"
  mem_md :: md_globals

text \<open>The sizes before any change; no dump is registered yet.\<close>

primrec default_size :: "dump_kind \<Rightarrow> u64" where
  "default_size PAGEOWNER = 0x200000"
| "default_size SLABOWNER = 0x200000"
| "default_size DMA_INFO = 0x40000"
| "default_size DMA_PROC = 0x40000"

definition init_mem :: "md_globals \<Rightarrow> mem_state" where
  "init_mem s = \<lparr>dump_addr = (\<lambda>_. None), dump_size = default_size, cma_live = [], dump_mem = (\<lambda>_ _. NUL), mem_md = s\<rparr>"

text \<open>The size of the block that a dump was given.\<close>

definition dump_cap :: "mem_state \<Rightarrow> dump_kind \<Rightarrow> nat" where
  "dump_cap st k = (case dump_addr st k of None \<Rightarrow> 0
     | Some p \<Rightarrow> (case map_of (cma_live st) p of None \<Rightarrow> 0 | Some n \<Rightarrow> unat n * PAGE_SIZE))"

text \<open>The size is a C \<^verbatim>\<open>int\<close>: the region gets the sign-extended value, the allocator its page count.\<close>

definition owner_region :: "mem_env \<Rightarrow> string \<Rightarrow> u64 \<Rightarrow> u32 \<Rightarrow> md_region" where
  "owner_region env name p sz = \<lparr>mdr_name = strscpy_str name (MAX_NAME_LENGTH + 1), mdr_id = 0, virt_addr = p,
     phys_addr = mem_virt_to_phys env p, mdr_size = scast sz\<rparr>"

definition page_count :: "u32 \<Rightarrow> u64" where
  "page_count sz = scast (signed_drop_bit 12 sz)"

definition set_dump_addr :: "string \<Rightarrow> u64 \<Rightarrow> (dump_kind \<Rightarrow> u64 option) \<Rightarrow> dump_kind \<Rightarrow> u64 option" where
  "set_dump_addr name p f = (\<lambda>k. if name = dump_name k then Some p else f k)"

text \<open>
  \<^verbatim>\<open>memset\<close> clears the buffer; its size is the \<^verbatim>\<open>int\<close> as an unsigned number, so that a negative one leaves the memory.
\<close>

definition clear_dump :: "string \<Rightarrow> (dump_kind \<Rightarrow> char arr) \<Rightarrow> dump_kind \<Rightarrow> char arr" where
  "clear_dump name f = (\<lambda>k. if name = dump_name k then (\<lambda>_. NUL) else f k)"

definition md_register_memory_dump :: "mem_env \<Rightarrow> u32 \<Rightarrow> string \<Rightarrow> mem_state \<Rightarrow> (bool \<times> mem_state) option" where
  "md_register_memory_dump env sz name st =
     (case cma_alloc env (cma_live st) (page_count sz) of
        None \<Rightarrow> Some (False, st)
      | Some p \<Rightarrow> do {
          (ret, s) \<leftarrow> msm_minidump_add_region (mem_alloc env) (Some (owner_region env name p sz)) (mem_md st);
          if ret < 0 then Some (False, st\<lparr>mem_md := s\<rparr>)
          else if sint sz < 0 then None
          else Some (True, st\<lparr>mem_md := s, cma_live := (p, page_count sz) # cma_live st,
            dump_mem := clear_dump name (dump_mem st), dump_addr := set_dump_addr name p (dump_addr st)\<rparr>) })"

definition md_unregister_memory_dump :: "mem_env \<Rightarrow> string \<Rightarrow> mem_state \<Rightarrow> (bool \<times> mem_state) option" where
  "md_unregister_memory_dump env name st = do {
     mdr \<leftarrow> md_get_region name (mem_md st);
     if virt_addr mdr = 0 then Some (False, st)
     else do {
       let e = zero_region\<lparr>mdr_name := strscpy_str (mdr_name mdr) (MAX_NAME_LENGTH + 1), virt_addr := virt_addr mdr,
          phys_addr := phys_addr mdr, mdr_size := mdr_size mdr\<rparr>;
       (ret, s) \<leftarrow> msm_minidump_remove_region (mem_alloc env) (Some e) (mem_md st);
       if ret < 0 then Some (False, st\<lparr>mem_md := s\<rparr>)
       else Some (True, st\<lparr>mem_md := s,
         cma_live := remove1 (virt_addr mdr, drop_bit 12 (mdr_size mdr)) (cma_live st)\<rparr>) }}"

text \<open>The two pointer arguments of the code are those of the dump \<open>k\<close>.\<close>

definition set_size :: "dump_kind \<Rightarrow> u64 \<Rightarrow> mem_state \<Rightarrow> mem_state" where
  "set_size k n st = st\<lparr>dump_size := (dump_size st)(k := n)\<rparr>"

definition update_dump_size :: "mem_env \<Rightarrow> dump_kind \<Rightarrow> u64 \<Rightarrow> mem_state \<Rightarrow> mem_state option" where
  "update_dump_size env k sz st =
     (let name = dump_name k
      in if dump_size st k = 0
         then do {
           (ok, st) \<leftarrow> md_register_memory_dump env (ucast (sz * SZ_1M)) name st;
           Some (if ok then set_size k (sz * SZ_1M) st else st) }
         else do {
           (ok, st) \<leftarrow> md_unregister_memory_dump env name st;
           if \<not> ok then Some st
           else let st = st\<lparr>dump_addr := (dump_addr st)(k := None)\<rparr>
                in if sz = 0 then Some (set_size k 0 st)
                   else do {
                     (ok, st) \<leftarrow> md_register_memory_dump env (ucast (sz * SZ_1M)) name st;
                     if ok then Some (set_size k (sz * SZ_1M) st)
                     else do {
                       (ok, st) \<leftarrow> md_register_memory_dump env (ucast (dump_size st k)) name st;
                       Some (if ok then st else set_size k 0 st) } } })"

text \<open>
  The debugfs files: \<open>input\<close> is the number that the kernel reads from the user's string, if it is one.
  The four write handlers differ in the dump they are for.
\<close>

definition dump_size_write :: "mem_env \<Rightarrow> dump_kind \<Rightarrow> u64 option \<Rightarrow> nat \<Rightarrow> mem_state \<Rightarrow> (int \<times> mem_state) option" where
  "dump_size_write env k input count st =
     (case input of
        None \<Rightarrow> Some (- EINVAL, st)
      | Some sz \<Rightarrow> do { st \<leftarrow> update_dump_size env k sz st; Some (int count, st) })"

definition page_owner_dump_size_write where
  "page_owner_dump_size_write env input count st = dump_size_write env PAGEOWNER input count st"
definition slab_owner_dump_size_write where
  "slab_owner_dump_size_write env input count st = dump_size_write env SLABOWNER input count st"
definition dma_buf_info_size_write where
  "dma_buf_info_size_write env input count st = dump_size_write env DMA_INFO input count st"
definition dma_buf_procs_size_write where
  "dma_buf_procs_size_write env input count st = dump_size_write env DMA_PROC input count st"

definition dump_size_read :: "dump_kind \<Rightarrow> mem_state \<Rightarrow> string" where
  "dump_size_read k st = scnprintf_str 100 (dec_str (unat (dump_size st k div SZ_1M)) @ '' MB'' @ [LF])"

definition page_owner_dump_size_read where "page_owner_dump_size_read st = dump_size_read PAGEOWNER st"
definition slab_owner_dump_size_read where "slab_owner_dump_size_read st = dump_size_read SLABOWNER st"
definition dma_buf_info_size_read where "dma_buf_info_size_read st = dump_size_read DMA_INFO st"
definition dma_buf_procs_size_read where "dma_buf_procs_size_read st = dump_size_read DMA_PROC st"

subsection \<open>Names and sizes\<close>

lemma dump_name_inj [simp]: "dump_name k = dump_name k' \<longleftrightarrow> k = k'"
  by (cases k; cases k') simp_all

lemma dump_name_wf: "cstring (dump_name k)" "length (dump_name k) \<le> 12"
  by (cases k; simp add: cstring_def NUL_def)+

lemma owner_region_simps [simp]:
  "mdr_name (owner_region env (dump_name k) p sz) = dump_name k" "virt_addr (owner_region env name p sz) = p"
  "phys_addr (owner_region env name p sz) = mem_virt_to_phys env p" "mdr_size (owner_region env name p sz) = scast sz"
  using dump_name_wf(2) [of k] by (simp_all add: owner_region_def md_consts)

lemma clear_dump_name [simp]: "clear_dump (dump_name k) f = f(k := \<lambda>_. NUL)"
  by (auto simp: clear_dump_def)

lemma set_dump_addr_name [simp]: "set_dump_addr (dump_name k) p f = f(k := Some p)"
  by (auto simp: set_dump_addr_def)

text \<open>Below 2 GB the size survives the conversion to \<^verbatim>\<open>int\<close>.\<close>

lemma sint_ucast_small:
  assumes "unat n < 2 ^ 31"
  shows "sint (ucast (n :: u64) :: u32) = uint n"
proof -
  have "uint n = int (unat n)" by simp
  also have "\<dots> < int (2 ^ 31)" unfolding of_nat_less_iff using assms .
  finally have lt: "uint n < 2 ^ 31" by simp
  have "uint (ucast n :: u32) = uint n"
    using lt by (simp add: unsigned_ucast_eq take_bit_int_eq_self)
  then show ?thesis
    using lt order_trans [OF _ uint_ge_0, of "- 2147483648" n]
    by (simp add: sint_uint signed_take_bit_int_eq_self)
qed

lemma int_size:
  assumes "unat n < 2 ^ 31"
  shows "scast (ucast n :: u32) = (n :: u64)" and "0 \<le> sint (ucast n :: u32)"
  using sint_ucast_small [OF assms] by (simp_all add: scast_eq word_of_int_uint)

lemma unat_mb: "unat n < 2048 \<Longrightarrow> unat (n * SZ_1M) = unat n * 0x100000"
  by (subst unat_mult_lem [THEN iffD1]) (simp_all add: SZ_1M_def)

lemma mb_size:
  assumes "unat sz < 2048"
  shows "unat (sz * SZ_1M) < 2 ^ 31" and "4 dvd unat (sz * SZ_1M)"
  using assms unat_mb [OF assms] by (simp_all add: dvd_mult)

subsection \<open>Registering and unregistering\<close>

lemma register_dump_ok:
  assumes rep: "drv_rep bs 0 L (mem_md st)" and fresh: "dump_name k \<notin> set (map mdr_name L)"
    and room: "length L < MAX_ELF_REGIONS" and al: "cma_alloc env (cma_live st) (page_count sz) = Some p" "p \<noteq> 0"
    and sz: "4 dvd unat (scast sz :: u64)" "0 \<le> sint sz"
  shows "\<exists>st'. md_register_memory_dump env sz (dump_name k) st = Some (True, st') \<and>
     drv_rep bs 0 (L @ [owner_region env (dump_name k) p sz]) (mem_md st') \<and>
     dump_addr st' = (dump_addr st)(k := Some p) \<and> dump_size st' = dump_size st \<and>
     dump_mem st' = (dump_mem st)(k := \<lambda>_. NUL) \<and> cma_live st' = (p, page_count sz) # cma_live st"
proof -
  let ?e = "owner_region env (dump_name k) p sz"
  have "\<exists>s'. msm_minidump_add_region (mem_alloc env) (Some ?e) (mem_md st) = Some (int (length L), s') \<and>
      drv_rep bs 0 (L @ [?e]) s' \<and> first_removed_entry s' = first_removed_entry (mem_md st)"
    by (rule add_region_ok [OF rep])
      (use assms dump_name_wf [of k] in \<open>simp_all add: wf_region_def MAX_ELF_REGIONS_def md_consts\<close>)
  then show ?thesis using al sz(2) by (auto simp: md_register_memory_dump_def)
qed

lemma register_dump_fails:
  "cma_alloc env (cma_live st) (page_count sz) = None \<Longrightarrow> md_register_memory_dump env sz name st = Some (False, st)"
  by (simp add: md_register_memory_dump_def)

lemma unregister_dump_ok:
  assumes rep: "drv_rep bs 0 L (mem_md st)" and j: "j < length L" "mdr_name (L ! j) = dump_name k"
    and rm: "removable L j (L ! j)"
  shows "\<exists>st'. md_unregister_memory_dump env (dump_name k) st = Some (True, st') \<and>
     drv_rep bs 0 (remove_nth j L) (mem_md st') \<and> dump_addr st' = dump_addr st \<and> dump_size st' = dump_size st \<and>
     cma_live st' = remove1 (virt_addr (L ! j), drop_bit 12 (mdr_size (L ! j))) (cma_live st)"
proof -
  let ?r = "L ! j"
  let ?e = "zero_region\<lparr>mdr_name := strscpy_str (mdr_name ?r) (MAX_NAME_LENGTH + 1), virt_addr := virt_addr ?r,
          phys_addr := phys_addr ?r, mdr_size := mdr_size ?r\<rparr>"
  have get: "md_get_region (dump_name k) (mem_md st) = Some ?r" using get_region_found [OF rep j(1)] j(2) by simp
  have nm: "strscpy_str (mdr_name ?r) (MAX_NAME_LENGTH + 1) = mdr_name ?r"
    using dump_name_wf(2) [of k] by (simp add: j(2) md_consts)
  have "removable L j ?e" using rm nm by (simp add: removable_def wf_region_def)
  from remove_region_ok [OF rep j(1) _ this, of "mem_alloc env"] obtain s' where
    "msm_minidump_remove_region (mem_alloc env) (Some ?e) (mem_md st) = Some (0, s')" "drv_rep bs 0 (remove_nth j L) s'"
    by auto
  moreover have "virt_addr ?r \<noteq> 0" using rm by (auto simp: removable_def wf_region_def)
  ultimately show ?thesis using get by (simp add: md_unregister_memory_dump_def)
qed

lemma unregister_dump_missing:
  assumes "drv_rep bs p L (mem_md st)" and "name \<notin> set (map mdr_name L)"
  shows "md_unregister_memory_dump env name st = Some (False, st)"
  using get_region_missing [OF assms] by (simp add: md_unregister_memory_dump_def zero_region_def)

subsection \<open>Changing the size\<close>

text \<open>
  What a change of the size leads to, given the blocks that are allocated when the old one has
  been released: the new size if there is room for it, else the old one, else no dump.
\<close>

definition resize_outcome :: "mem_env \<Rightarrow> cma_blocks \<Rightarrow> u64 \<Rightarrow> u64 \<Rightarrow> (u64 \<times> u64) option" where
  "resize_outcome env live old new =
     (case cma_alloc env live (page_count (ucast new)) of
        Some p \<Rightarrow> Some (p, new)
      | None \<Rightarrow> map_option (\<lambda>p. (p, old)) (cma_alloc env live (page_count (ucast old))))"

definition resized :: "mem_env \<Rightarrow> dump_kind \<Rightarrow> cma_blocks \<Rightarrow> u64 \<Rightarrow> u64 \<Rightarrow>
    md_region list \<times> u64 option \<times> u64 \<times> cma_blocks" where
  "resized env k live old new =
     (case (if new = 0 then None else resize_outcome env live old new) of
        None \<Rightarrow> ([], None, 0, live)
      | Some (p, n) \<Rightarrow> ([owner_region env (dump_name k) p (ucast n)], Some p, n, (p, page_count (ucast n)) # live))"

lemma update_dump_size_ok:
  assumes rep: "drv_rep bs 0 L (mem_md st)" and j: "j < length L" "mdr_name (L ! j) = dump_name k"
    and rm: "removable L j (L ! j)" and old: "dump_size st k \<noteq> 0" "4 dvd unat (dump_size st k)"
    and small: "unat (dump_size st k) < 2 ^ 31" "unat sz < 2048"
    and al: "\<And>live n p. cma_alloc env live n = Some p \<Longrightarrow> p \<noteq> 0"
  defines "live \<equiv> remove1 (virt_addr (L ! j), drop_bit 12 (mdr_size (L ! j))) (cma_live st)"
  shows "\<exists>st' M. update_dump_size env k sz st = Some st' \<and>
     resized env k live (dump_size st k) (sz * SZ_1M) = (M, dump_addr st' k, dump_size st' k, cma_live st') \<and>
     drv_rep bs 0 (remove_nth j L @ M) (mem_md st') \<and>
     (\<forall>k'. k' \<noteq> k \<longrightarrow> dump_addr st' k' = dump_addr st k' \<and> dump_size st' k' = dump_size st k')"
proof -
  let ?L = "remove_nth j L"
  obtain st1 where st1: "md_unregister_memory_dump env (dump_name k) st = Some (True, st1)"
    "drv_rep bs 0 ?L (mem_md st1)" "dump_addr st1 = dump_addr st" "dump_size st1 = dump_size st" "cma_live st1 = live"
    using unregister_dump_ok [OF rep j rm, of env] unfolding live_def by blast
  define st2 where "st2 = st1\<lparr>dump_addr := (dump_addr st1)(k := None)\<rparr>"
  have st2: "drv_rep bs 0 ?L (mem_md st2)" "cma_live st2 = live" "dump_size st2 = dump_size st"
    "dump_addr st2 = (dump_addr st)(k := None)" using st1 by (simp_all add: st2_def)
  have "distinct (map mdr_name L)" using rep by (auto simp: drv_rep_def elim!: smem_repE)
  then have fresh: "dump_name k \<notin> set (map mdr_name ?L)"
    using remove_nth_notin [of "map mdr_name L" j] j by (simp add: map_remove_nth)
  have room: "length ?L < MAX_ELF_REGIONS" using drv_rep_length [OF rep] j(1) by simp
  have reg: "\<exists>st'. md_register_memory_dump env (ucast n) (dump_name k) st2 = Some (True, st') \<and>
     drv_rep bs 0 (?L @ [owner_region env (dump_name k) p (ucast n)]) (mem_md st') \<and>
     dump_addr st' = (dump_addr st2)(k := Some p) \<and> dump_size st' = dump_size st2 \<and>
     dump_mem st' = (dump_mem st2)(k := \<lambda>_. NUL) \<and> cma_live st' = (p, page_count (ucast n)) # cma_live st2"
    if "cma_alloc env live (page_count (ucast n)) = Some p" "unat n < 2 ^ 31" "4 dvd unat n" for n :: u64 and p
    by (rule register_dump_ok [OF st2(1) fresh room])
      (use that st2 al int_size [OF that(2)] in auto)
  have unreg: "update_dump_size env k sz st = (if sz = 0 then Some (set_size k 0 st2) else do {
      (ok, st) \<leftarrow> md_register_memory_dump env (ucast (sz * SZ_1M)) (dump_name k) st2;
      if ok then Some (set_size k (sz * SZ_1M) st)
      else do {
        (ok, st) \<leftarrow> md_register_memory_dump env (ucast (dump_size st k)) (dump_name k) st;
        Some (if ok then st else set_size k 0 st) } })"
    using st1(1) old(1) by (simp add: update_dump_size_def st2_def Let_def)
  have zero: "sz * SZ_1M = 0 \<longleftrightarrow> sz = 0"
  proof
    assume "sz * SZ_1M = 0"
    with unat_mb [OF small(2)] show "sz = 0" by (simp add: unat_eq_zero)
  qed simp
  consider (off) "sz = 0"
    | (fits) p where "sz \<noteq> 0" "cma_alloc env live (page_count (ucast (sz * SZ_1M))) = Some p"
    | (fallback) p where "sz \<noteq> 0" "cma_alloc env live (page_count (ucast (sz * SZ_1M))) = None"
        "cma_alloc env live (page_count (ucast (dump_size st k))) = Some p"
    | (none) "sz \<noteq> 0" "cma_alloc env live (page_count (ucast (sz * SZ_1M))) = None"
        "cma_alloc env live (page_count (ucast (dump_size st k))) = None"
    by fastforce
  then show ?thesis
  proof cases
    case off
    then show ?thesis using st2 unreg by (simp add: resized_def set_size_def)
  next
    case fits
    with reg [OF fits(2) mb_size [OF small(2)]] st2 unreg zero show ?thesis
      by (auto simp: resized_def resize_outcome_def set_size_def)
  next
    case fallback
    with reg [OF fallback(3) small(1) old(2)] st2 unreg zero register_dump_fails [of env st2 "ucast (sz * SZ_1M)"] show ?thesis
      by (auto simp: resized_def resize_outcome_def)
  next
    case none
    with st2 unreg zero register_dump_fails [of env st2] show ?thesis
      by (simp add: resized_def resize_outcome_def set_size_def)
  qed
qed

text \<open>A dump whose first registration failed keeps its size and can never be changed again.\<close>

lemma update_dump_size_stuck:
  assumes "drv_rep bs p L (mem_md st)" and "dump_name k \<notin> set (map mdr_name L)" and "dump_size st k \<noteq> 0"
  shows "update_dump_size env k sz st = Some st"
  using unregister_dump_missing [OF assms(1,2)] assms(3) by (simp add: update_dump_size_def)

text \<open>
  The size in megabytes is multiplied in 64 bits and then passed as a 32-bit integer: with a size of
  \<open>4096 + n\<close> the buffer has \<open>n\<close> megabytes, but the recorded size is \<open>4096 + n\<close> megabytes.
\<close>

lemma update_dump_size_truncated:
  assumes rep: "drv_rep bs 0 L (mem_md st)" and fresh: "dump_name k \<notin> set (map mdr_name L)"
    and room: "length L < MAX_ELF_REGIONS" and off: "dump_size st k = 0" and n: "unat n < 2048"
    and al: "cma_alloc env (cma_live st) (page_count (ucast (n * SZ_1M))) = Some p" "p \<noteq> 0"
  shows "\<exists>st'. update_dump_size env k (n + 4096) st = Some st' \<and>
     dump_addr st' k = Some p \<and> dump_size st' k = n * SZ_1M + 0x100000000 \<and>
     (p, page_count (ucast (n * SZ_1M))) \<in> set (cma_live st') \<and>
     drv_rep bs 0 (L @ [owner_region env (dump_name k) p (ucast (n * SZ_1M))]) (mem_md st')"
proof -
  have m: "(n + 4096) * SZ_1M = n * SZ_1M + 0x100000000" by (simp add: SZ_1M_def algebra_simps)
  note u = unat_mb [OF n]
  have "unat (n * SZ_1M + 0x100000000) = unat n * 0x100000 + 0x100000000"
    using n by (subst unat_add_lem [THEN iffD1]) (simp_all add: u)
  then have t: "(ucast (n * SZ_1M + 0x100000000) :: u32) = ucast (n * SZ_1M)"
    unfolding word_unat_eq_iff unsigned_ucast_eq u by (simp add: take_bit_eq_mod)
  have "\<exists>st'. md_register_memory_dump env (ucast (n * SZ_1M)) (dump_name k) st = Some (True, st') \<and>
     drv_rep bs 0 (L @ [owner_region env (dump_name k) p (ucast (n * SZ_1M))]) (mem_md st') \<and>
     dump_addr st' = (dump_addr st)(k := Some p) \<and> dump_size st' = dump_size st \<and>
     dump_mem st' = (dump_mem st)(k := \<lambda>_. NUL) \<and> cma_live st' = (p, page_count (ucast (n * SZ_1M))) # cma_live st"
    by (rule register_dump_ok [OF rep fresh room]) (use al mb_size [OF n] int_size [OF mb_size(1) [OF n]] in auto)
  then show ?thesis using off by (auto simp: update_dump_size_def m t set_size_def)
qed

end
