(* ===== verification/Mem_Resize.thy ===== *)
theory Mem_Resize
  imports Mem_Region
begin

text \<open>
  The memory dumps under any sequence of changes of their sizes: the buffers, the sizes and the regions of the minidump driver
  stay consistent, whatever the allocator answers.
\<close>

subsection \<open>The consistent state\<close>

lemma all_dump_kinds: "(UNIV :: dump_kind set) = {PAGEOWNER, SLABOWNER, DMA_INFO, DMA_PROC}"
  using dump_kind.exhaust by blast

instantiation dump_kind :: finite
begin
instance
proof
  show "finite (UNIV :: dump_kind set)" unfolding all_dump_kinds by simp
qed
end

lemma length_dump_kinds: "distinct ks \<Longrightarrow> length (ks :: dump_kind list) \<le> 4"
proof -
  assume "distinct ks"
  then have "length ks = card (set ks)" by (simp add: distinct_card)
  also have "\<dots> \<le> card (UNIV :: dump_kind set)" by (rule card_mono) simp_all
  also have "\<dots> = 4" unfolding all_dump_kinds by simp
  finally show ?thesis .
qed

text \<open>
  What the allocator of contiguous memory promises: no block for 0 pages, and otherwise, if it has one, a block that is not in
  use; its memory is not that of the other regions \<open>A\<close>, and the address translation is one-to-one.
\<close>

definition cma_ok :: "mem_env \<Rightarrow> md_region list \<Rightarrow> bool" where
  "cma_ok env A \<longleftrightarrow> (\<forall>live. cma_alloc env live 0 = None) \<and> inj (mem_virt_to_phys env) \<and>
     (\<forall>live n p. cma_alloc env live n = Some p \<longrightarrow>
        p \<noteq> 0 \<and> p \<notin> fst ` set live \<and> mem_virt_to_phys env p \<notin> phys_addr ` set A)"

definition dump_entry :: "mem_env \<Rightarrow> mem_state \<Rightarrow> dump_kind \<Rightarrow> md_region" where
  "dump_entry env st k = owner_region env (dump_name k) (the (dump_addr st k)) (ucast (dump_size st k))"

definition size_ok :: "u64 \<Rightarrow> bool" where
  "size_ok n \<longleftrightarrow> unat n < 2 ^ 31 \<and> 4096 dvd unat n"

definition dump_ok :: "mem_env \<Rightarrow> md_region list \<Rightarrow> mem_state \<Rightarrow> dump_kind \<Rightarrow> bool" where
  "dump_ok env A st k \<longleftrightarrow> (\<exists>p. dump_addr st k = Some p \<and> dump_size st k \<noteq> 0 \<and> size_ok (dump_size st k) \<and>
     (p, page_count (ucast (dump_size st k))) \<in> set (cma_live st) \<and> mem_virt_to_phys env p \<notin> phys_addr ` set A)"

text \<open>The driver has the regions \<open>A\<close> and those of the dumps \<open>ks\<close>, which are the ones that have a buffer.\<close>

definition dumps_rep :: "mem_env \<Rightarrow> elf_base \<Rightarrow> md_region list \<Rightarrow> dump_kind list \<Rightarrow> mem_state \<Rightarrow> bool" where
  "dumps_rep env bs A ks st \<longleftrightarrow> drv_rep bs 0 (A @ map (dump_entry env st) ks) (mem_md st) \<and> distinct ks \<and>
     (\<forall>k. k \<in> set ks \<longleftrightarrow> dump_addr st k \<noteq> None) \<and> (\<forall>k \<in> set ks. dump_ok env A st k) \<and> inj_on (dump_addr st) (set ks) \<and>
     distinct (map fst (cma_live st)) \<and> (\<forall>k. dump_name k \<notin> mdr_name ` set A) \<and> length A + 4 \<le> MAX_ELF_REGIONS"

lemma dump_entry_simps [simp]:
  "mdr_name (dump_entry env st k) = dump_name k" "virt_addr (dump_entry env st k) = the (dump_addr st k)"
  "phys_addr (dump_entry env st k) = mem_virt_to_phys env (the (dump_addr st k))"
  by (simp_all add: dump_entry_def)

lemma page_count_eq:
  assumes "unat n < 2 ^ 31"
  shows "page_count (ucast n) = drop_bit 12 (n :: u64)"
proof -
  have "sint (ucast n :: u32) = uint n" by (rule sint_ucast_small [OF assms])
  then have "page_count (ucast n) = word_of_int (drop_bit 12 (uint n))"
    by (simp add: page_count_def scast_eq sint_signed_drop_bit_eq)
  also have "drop_bit 12 (uint n) = uint (drop_bit 12 n)" using uint_bounded [of n] by (simp add: unsigned_drop_bit_eq take_bit_int_eq_self)
  finally show ?thesis by simp
qed

lemma size_okD:
  assumes "size_ok n"
  shows "4 dvd unat n" "0 \<le> sint (ucast n :: u32)" "scast (ucast n :: u32) = n" "unat n < 2 ^ 31"
    "page_count (ucast n) = drop_bit 12 n" "unat (page_count (ucast n)) * PAGE_SIZE = unat n"
proof -
  from assms have n: "unat n < 2 ^ 31" "4096 dvd unat n" by (auto simp: size_ok_def)
  show "4 dvd unat n" using n(2) by (rule dvd_trans [rotated]) simp
  show "0 \<le> sint (ucast n :: u32)" "scast (ucast n :: u32) = n" using int_size [OF n(1)] by simp_all
  show p: "page_count (ucast n) = drop_bit 12 n" by (rule page_count_eq [OF n(1)])
  show "unat n < 2 ^ 31" by (rule n(1))
  have "unat (drop_bit 12 n) = unat n div 4096" by (simp add: drop_bit_eq_div unat_div_distrib)
  then show "unat (page_count (ucast n)) * PAGE_SIZE = unat n" using n(2) p by (simp add: PAGE_SIZE_def)
qed

lemma size_ok_mb: "unat n < 2048 \<Longrightarrow> size_ok (n * SZ_1M)"
  using mb_size(1) [of n] unat_mb [of n] by (auto simp: size_ok_def intro!: dvd_mult)

lemma size_ok_default: "size_ok (default_size k)"
  by (cases k) (simp_all add: size_ok_def)

text \<open>Every registered dump has a block of exactly its size.\<close>

lemma dumps_rep_cap:
  assumes "dumps_rep env bs A ks st" and "dump_addr st k \<noteq> None"
  shows "dump_cap st k = unat (dump_size st k)" "0 < unat (dump_size st k)" "4096 dvd unat (dump_size st k)"
proof -
  from assms obtain p where p: "dump_addr st k = Some p" "size_ok (dump_size st k)" "dump_size st k \<noteq> 0"
    "(p, page_count (ucast (dump_size st k))) \<in> set (cma_live st)"
    unfolding dumps_rep_def dump_ok_def by (metis (no_types, lifting))
  moreover from assms(1) have "distinct (map fst (cma_live st))" by (simp add: dumps_rep_def)
  ultimately show "dump_cap st k = unat (dump_size st k)" using size_okD(6) [OF p(2)] by (simp add: dump_cap_def map_of_is_SomeI)
  show "0 < unat (dump_size st k)" using p(3) by (simp add: unat_gt_0)
  show "4096 dvd unat (dump_size st k)" using p(2) by (simp add: size_ok_def)
qed

lemma set_size_simps [simp]:
  "dump_addr (set_size k n st) = dump_addr st" "cma_live (set_size k n st) = cma_live st"
  "mem_md (set_size k n st) = mem_md st" "dump_size (set_size k n st) = (dump_size st)(k := n)"
  by (simp_all add: set_size_def)

lemma dumps_rep_set_size:
  assumes "dumps_rep env bs A ks st" and "k \<notin> set ks"
  shows "dumps_rep env bs A ks (set_size k n st)"
proof -
  have m: "map (dump_entry env (set_size k n st)) ks = map (dump_entry env st) ks"
    using assms(2) by (auto simp: dump_entry_def)
  have "\<forall>j \<in> set ks. dump_ok env A (set_size k n st) j" using assms by (auto simp: dumps_rep_def dump_ok_def)
  then show ?thesis using assms(1) unfolding dumps_rep_def m set_size_simps by blast
qed

text \<open>A new dump gets a region behind the others.\<close>

lemma dumps_rep_add:
  assumes rep: "dumps_rep env bs A ks st" and k: "k \<notin> set ks" and n: "size_ok n" "n \<noteq> 0"
    and p: "p \<notin> fst ` set (cma_live st)" "mem_virt_to_phys env p \<notin> phys_addr ` set A"
    and drv: "drv_rep bs 0 ((A @ map (dump_entry env st) ks) @ [owner_region env (dump_name k) p (ucast n)]) (mem_md st')"
    and st': "dump_addr st' = (dump_addr st)(k := Some p)" "dump_size st' = (dump_size st)(k := n)"
      "cma_live st' = (p, page_count (ucast n)) # cma_live st"
  shows "dumps_rep env bs A (ks @ [k]) st'"
proof -
  have m: "map (dump_entry env st') ks = map (dump_entry env st) ks" "dump_entry env st' k = owner_region env (dump_name k) p (ucast n)"
    using k by (auto simp: dump_entry_def st')
  have old: "\<And>j. j \<in> set ks \<Longrightarrow> dump_ok env A st j" "distinct ks" "\<And>j. j \<in> set ks \<longleftrightarrow> dump_addr st j \<noteq> None"
    "inj_on (dump_addr st) (set ks)" "distinct (map fst (cma_live st))" "\<forall>k. dump_name k \<notin> mdr_name ` set A"
    "length A + 4 \<le> MAX_ELF_REGIONS" using rep by (auto simp: dumps_rep_def)
  have "dump_ok env A st' j" if "j \<in> set ks" for j
  proof -
    from that k have "j \<noteq> k" by auto
    with old(1) [OF that] show ?thesis by (auto simp: dump_ok_def st')
  qed
  moreover have "dump_ok env A st' k" using n p(2) by (simp add: dump_ok_def st')
  moreover have "inj_on (dump_addr st') (set (ks @ [k]))"
  proof -
    have "dump_addr st j \<noteq> Some p" if "j \<in> set ks" for j
      using old(1) [OF that] p(1) by (force simp: dump_ok_def)
    then have "Some p \<notin> dump_addr st ` set ks" by (metis imageE)
    moreover have "inj_on (dump_addr st') (set ks)" using old(4) k by (auto simp: inj_on_def st')
    moreover have "dump_addr st' ` set ks = dump_addr st ` set ks" using k by (auto simp: st')
    ultimately show ?thesis using k by (simp add: st' inj_on_fun_updI)
  qed
  moreover have "drv_rep bs 0 (A @ map (dump_entry env st') (ks @ [k])) (mem_md st')"
    unfolding map_append list.map m using drv by simp
  moreover have "\<forall>j. j \<in> set (ks @ [k]) \<longleftrightarrow> dump_addr st' j \<noteq> None" using old(3) by (auto simp: st')
  moreover have "distinct (ks @ [k])" "distinct (map fst (cma_live st'))" using old(2,5) k p(1) by (simp_all add: st')
  ultimately show ?thesis using old(6,7) unfolding dumps_rep_def by auto
qed

lemma register_dump_rep:
  assumes rep: "dumps_rep env bs A ks st" and k: "k \<notin> set ks" and al: "cma_ok env A" and n: "size_ok n"
  shows "md_register_memory_dump env (ucast n) (dump_name k) st = Some (False, st) \<or>
     (\<exists>st'. md_register_memory_dump env (ucast n) (dump_name k) st = Some (True, st') \<and> n \<noteq> 0 \<and>
        dump_size st' = dump_size st \<and> dumps_rep env bs A (ks @ [k]) (set_size k n st'))"
proof (cases "cma_alloc env (cma_live st) (page_count (ucast n))")
  case None
  then show ?thesis by (simp add: register_dump_fails)
next
  case (Some p)
  then have p: "p \<noteq> 0" "p \<notin> fst ` set (cma_live st)" "mem_virt_to_phys env p \<notin> phys_addr ` set A" and "n \<noteq> 0"
    using al size_okD(5) [OF n] by (auto simp: cma_ok_def)
  let ?L = "A @ map (dump_entry env st) ks"
  have drv: "drv_rep bs 0 ?L (mem_md st)" and names: "\<forall>k. dump_name k \<notin> mdr_name ` set A"
    and room: "length A + 4 \<le> MAX_ELF_REGIONS" and ks: "distinct ks" using rep by (auto simp: dumps_rep_def)
  have "length ?L < MAX_ELF_REGIONS" using length_dump_kinds [of "ks @ [k]"] ks k room by simp
  moreover have "dump_name k \<notin> set (map mdr_name ?L)" using names k by auto
  ultimately have "\<exists>st'. md_register_memory_dump env (ucast n) (dump_name k) st = Some (True, st') \<and>
     drv_rep bs 0 (?L @ [owner_region env (dump_name k) p (ucast n)]) (mem_md st') \<and>
     dump_addr st' = (dump_addr st)(k := Some p) \<and> dump_size st' = dump_size st \<and>
     dump_mem st' = (dump_mem st)(k := \<lambda>_. NUL) \<and> cma_live st' = (p, page_count (ucast n)) # cma_live st"
    using size_okD [OF n] by (intro register_dump_ok [OF drv _ _ Some p(1)]) simp_all
  then obtain st' where st': "md_register_memory_dump env (ucast n) (dump_name k) st = Some (True, st')"
    "drv_rep bs 0 (?L @ [owner_region env (dump_name k) p (ucast n)]) (mem_md st')"
    "dump_addr st' = (dump_addr st)(k := Some p)" "dump_size st' = dump_size st"
    "cma_live st' = (p, page_count (ucast n)) # cma_live st"
    by blast
  have "dumps_rep env bs A (ks @ [k]) (set_size k n st')"
    by (rule dumps_rep_add [OF rep k n \<open>n \<noteq> 0\<close> p(2,3)]) (use st' in simp_all)
  with st' \<open>n \<noteq> 0\<close> show ?thesis by blast
qed

subsection \<open>Unregistering\<close>

lemma dump_removable:
  assumes rep: "dumps_rep env bs A ks st" and tr: "inj (mem_virt_to_phys env)" and i: "i < length ks"
  shows "removable (A @ map (dump_entry env st) ks) (length A + i) (dump_entry env st (ks ! i))"
proof -
  let ?L = "A @ map (dump_entry env st) ks" and ?e = "dump_entry env st (ks ! i)"
  from rep have ok: "\<And>k. k \<in> set ks \<Longrightarrow> dump_ok env A st k" and inj: "inj_on (dump_addr st) (set ks)"
    and ks: "distinct ks" and drv: "drv_rep bs 0 ?L (mem_md st)" by (auto simp: dumps_rep_def)
  from drv have "\<forall>r \<in> set ?L. wf_region r" by (auto simp: drv_rep_def smem_rep_def table_rep_def)
  then have "wf_region ?e" using i by simp
  moreover have "phys_addr (?L ! j) \<noteq> phys_addr ?e" if "j < length A + i" for j
  proof (cases "j < length A")
    case True
    obtain p where p: "dump_addr st (ks ! i) = Some p" "mem_virt_to_phys env p \<notin> phys_addr ` set A"
      using ok [of "ks ! i"] i by (auto simp: dump_ok_def)
    have "phys_addr (A ! j) \<noteq> mem_virt_to_phys env p" using True p(2) by (metis image_eqI nth_mem)
    with True p(1) i show ?thesis by (simp add: nth_append)
  next
    case False
    define m where "m = j - length A"
    have m: "m < i" "j = length A + m" using False that by (simp_all add: m_def)
    have "dump_addr st (ks ! m) \<noteq> dump_addr st (ks ! i)"
      using inj_on_eq_iff [OF inj, of "ks ! m" "ks ! i"] nth_eq_iff_index_eq [OF ks, of m i] m(1) i by simp
    moreover obtain q p where "dump_addr st (ks ! m) = Some q" "dump_addr st (ks ! i) = Some p"
      using ok [of "ks ! m"] ok [of "ks ! i"] m(1) i by (auto simp: dump_ok_def)
    ultimately show ?thesis using m i tr by (auto simp: nth_append inj_eq)
  qed
  ultimately show ?thesis using i by (auto simp: removable_def nth_append)
qed

lemma remove_nth_append: "remove_nth (length A + i) (A @ D) = A @ remove_nth i D"
  by (simp add: remove_nth_def)

lemma set_remove_nth: "distinct xs \<Longrightarrow> i < length xs \<Longrightarrow> set (remove_nth i xs) = set xs - {xs ! i}"
  using remove_nth_notin [of xs i] set_remove_nth_subset [of i xs] id_take_nth_drop [of i xs]
  by (auto simp: remove_nth_def) (metis Un_iff insert_iff list.set(2) set_append)

lemma unregister_dump_rep:
  assumes rep: "dumps_rep env bs A ks st" and tr: "inj (mem_virt_to_phys env)" and i: "i < length ks" and k: "k = ks ! i"
  shows "\<exists>st'. md_unregister_memory_dump env (dump_name k) st = Some (True, st') \<and> dump_size st' = dump_size st \<and>
     dumps_rep env bs A (remove_nth i ks) (st'\<lparr>dump_addr := (dump_addr st')(k := None)\<rparr>)"
proof -
  let ?L = "A @ map (dump_entry env st) ks" and ?ks = "remove_nth i ks"
  from rep have ok: "\<And>k. k \<in> set ks \<Longrightarrow> dump_ok env A st k" and inj: "inj_on (dump_addr st) (set ks)"
    and ks: "distinct ks" and drv: "drv_rep bs 0 ?L (mem_md st)" and dom: "\<And>k. k \<in> set ks \<longleftrightarrow> dump_addr st k \<noteq> None"
    and live: "distinct (map fst (cma_live st))" and A: "\<forall>k. dump_name k \<notin> mdr_name ` set A" "length A + 4 \<le> MAX_ELF_REGIONS"
    by (auto simp: dumps_rep_def)
  have ki: "k \<in> set ks" using i k by simp
  then obtain p where p: "dump_addr st k = Some p" "size_ok (dump_size st k)" using ok [OF ki] by (auto simp: dump_ok_def)
  have e: "?L ! (length A + i) = dump_entry env st k" using i k by (simp add: nth_append)
  define st1 where "st1 = (\<lambda>st'. st'\<lparr>dump_addr := (dump_addr st')(k := None)\<rparr>)"
  let ?b = "(p, page_count (ucast (dump_size st k)))"
  have "\<exists>st'. md_unregister_memory_dump env (dump_name k) st = Some (True, st') \<and>
     drv_rep bs 0 (remove_nth (length A + i) ?L) (mem_md st') \<and> dump_addr st' = dump_addr st \<and> dump_size st' = dump_size st \<and>
     cma_live st' = remove1 (virt_addr (?L ! (length A + i)), drop_bit 12 (mdr_size (?L ! (length A + i)))) (cma_live st)"
    by (rule unregister_dump_ok [OF drv]) (use i e dump_removable [OF rep tr i] k in simp_all)
  then obtain st' where st': "md_unregister_memory_dump env (dump_name k) st = Some (True, st')"
    "drv_rep bs 0 (A @ map (dump_entry env st) ?ks) (mem_md st')" "dump_addr st' = dump_addr st" "dump_size st' = dump_size st"
    "cma_live st' = remove1 ?b (cma_live st)"
    unfolding e remove_nth_append map_remove_nth using p size_okD(3,5) [OF p(2)] by (auto simp: dump_entry_def)
  let ?st = "st'\<lparr>dump_addr := (dump_addr st')(k := None)\<rparr>"
  have set: "set ?ks = set ks - {k}" using set_remove_nth [OF ks i] k by simp
  have m: "map (dump_entry env ?st) ?ks = map (dump_entry env st) ?ks" using set by (auto simp: dump_entry_def st')
  have "dump_ok env A ?st j" if "j \<in> set ?ks" for j
  proof -
    from that set have j: "j \<in> set ks" "j \<noteq> k" by auto
    then have "dump_addr st j \<noteq> dump_addr st k" using inj ki by (auto simp: inj_on_def)
    with ok [OF j(1)] p(1) j(2) show ?thesis by (auto simp: dump_ok_def st' intro!: in_set_remove1 [THEN iffD2])
  qed
  moreover have "inj_on (dump_addr ?st) (set ?ks)" using inj set by (auto simp: inj_on_def st')
  moreover have "distinct (map fst (cma_live ?st))"
    using live inj_on_subset [of fst "set (cma_live st)"] by (auto simp: st' distinct_map)
  moreover have "\<forall>j. j \<in> set ?ks \<longleftrightarrow> dump_addr ?st j \<noteq> None" using dom set by (auto simp: st')
  ultimately have "dumps_rep env bs A ?ks ?st"
    using st'(2) A distinct_remove_nth [OF ks] unfolding dumps_rep_def m by simp
  with st' show ?thesis by blast
qed

subsection \<open>Changing the sizes\<close>

text \<open>Every change of a size, whatever the allocator answers, leads from a consistent state to a consistent one.\<close>

lemma update_dump_size_rep:
  assumes rep: "dumps_rep env bs A ks st" and al: "cma_ok env A" and sz: "unat sz < 2048"
  shows "\<exists>st' ks'. update_dump_size env k sz st = Some st' \<and> dumps_rep env bs A ks' st'"
proof -
  note n = size_ok_mb [OF sz]
  have inj: "inj (mem_virt_to_phys env)" using al by (simp add: cma_ok_def)
  have dom: "\<And>k. k \<in> set ks \<longleftrightarrow> dump_addr st k \<noteq> None" and ok: "\<And>k. k \<in> set ks \<Longrightarrow> dump_ok env A st k"
    and drv: "drv_rep bs 0 (A @ map (dump_entry env st) ks) (mem_md st)" and names: "\<forall>k. dump_name k \<notin> mdr_name ` set A"
    using rep by (auto simp: dumps_rep_def)
  consider (off) "dump_size st k = 0" | (stuck) "dump_size st k \<noteq> 0" "k \<notin> set ks" | (on) "dump_size st k \<noteq> 0" "k \<in> set ks"
    by blast
  then show ?thesis
  proof cases
    case off
    then have "k \<notin> set ks" using ok [of k] by (auto simp: dump_ok_def)
    from register_dump_rep [OF rep this al n] off rep show ?thesis by (auto simp: update_dump_size_def)
  next
    case stuck
    then have "dump_name k \<notin> set (map mdr_name (A @ map (dump_entry env st) ks))" using names by auto
    from update_dump_size_stuck [OF drv this stuck(1)] rep show ?thesis by blast
  next
    case on
    then obtain i where i: "i < length ks" "k = ks ! i" by (auto simp: in_set_conv_nth)
    have size: "size_ok (dump_size st k)" using ok [OF on(2)] by (auto simp: dump_ok_def)
    obtain st1 where st1: "md_unregister_memory_dump env (dump_name k) st = Some (True, st1)" "dump_size st1 = dump_size st"
      "dumps_rep env bs A (remove_nth i ks) (st1\<lparr>dump_addr := (dump_addr st1)(k := None)\<rparr>)"
      using unregister_dump_rep [OF rep inj i] by blast
    define st2 where "st2 = st1\<lparr>dump_addr := (dump_addr st1)(k := None)\<rparr>"
    have st2: "dumps_rep env bs A (remove_nth i ks) st2" "dump_size st2 = dump_size st" using st1 by (simp_all add: st2_def)
    then have k: "k \<notin> set (remove_nth i ks)" by (auto simp: dumps_rep_def st2_def)
    have run: "update_dump_size env k sz st = (if sz = 0 then Some (set_size k 0 st2) else do {
        (ok, st) \<leftarrow> md_register_memory_dump env (ucast (sz * SZ_1M)) (dump_name k) st2;
        if ok then Some (set_size k (sz * SZ_1M) st)
        else do {
          (ok, st) \<leftarrow> md_register_memory_dump env (ucast (dump_size st k)) (dump_name k) st;
          Some (if ok then st else set_size k 0 st) } })"
      using st1(1) on(1) by (simp add: update_dump_size_def st2_def Let_def)
    have keep: "set_size k (dump_size st k) x = x" if "dump_size x = dump_size st" for x
      using that by (simp add: set_size_def)
    have zero: "dumps_rep env bs A (remove_nth i ks) (set_size k 0 st2)" by (rule dumps_rep_set_size [OF st2(1) k])
    show ?thesis
      using register_dump_rep [OF st2(1) k al n] register_dump_rep [OF st2(1) k al size] zero st2(2) keep
      unfolding run by (auto split: if_split)
  qed
qed

text \<open>The state before the first registration is consistent.\<close>

lemma init_mem_rep:
  assumes "drv_rep bs 0 A s" and "\<forall>k. dump_name k \<notin> mdr_name ` set A" and "length A + 4 \<le> MAX_ELF_REGIONS"
  shows "dumps_rep env bs A [] (init_mem s)"
  using assms by (simp add: dumps_rep_def init_mem_def)

end
