(* ===== verification/Page_Owner.thy ===== *)
theory Page_Owner
  imports C_Text
begin

unbundle bit_operations_syntax

text \<open>
  The page owner dump, from \<^verbatim>\<open>minidump/minidump_memory.c\<close>: for every allocated page a line with its number and the
  handle of the stack that allocated it, followed by that stack's addresses when the handle is new.  The
  handles already written are remembered at the end of the same memory region, as 32-bit numbers in
  little-endian order.  Addresses are offsets into the region, whose capacity is \<open>cap\<close>.
\<close>

subsection \<open>Numbers in memory\<close>

definition get_int :: "nat \<Rightarrow> char arr \<Rightarrow> int \<Rightarrow> u32 option" where
  "get_int cap b off =
     (if off < 0 \<or> int cap < off + 4 then None
      else let o' = nat off in Some (of_nat (of_char (b o') + 256 * of_char (b (o' + 1)) +
        65536 * of_char (b (o' + 2)) + 16777216 * of_char (b (o' + 3)))))"

definition int_bytes :: "u32 \<Rightarrow> string" where
  "int_bytes w = (let n = unat w in [char_of n, char_of (n div 256), char_of (n div 65536), char_of (n div 16777216)])"

definition put_int :: "nat \<Rightarrow> int \<Rightarrow> u32 \<Rightarrow> char arr \<Rightarrow> char arr option" where
  "put_int cap off w b = (if off < 0 then None else put_chars cap (nat off) (int_bytes w) b)"

subsection \<open>Pages and settings\<close>

definition MAX_ORDER :: nat where "MAX_ORDER = 11"
definition MAX_ORDER_NR_PAGES :: nat where "MAX_ORDER_NR_PAGES = 1024"

record page_info =
  pfn_valid :: bool
  buddy_order :: "nat option"
  has_page_ext :: bool
  ext_owner :: bool
  ext_allocated :: bool
  owner_handle :: u32
  pg_lru :: bool
  pg_slab :: bool
  pg_swapbacked :: bool

text \<open>
  What the kernel provides: the pages, the addresses of a stack, and how \<^verbatim>\<open>%p\<close> and \<^verbatim>\<open>%pS\<close> print an address.
\<close>

record owner_env =
  page_at :: "nat \<Rightarrow> page_info"
  min_low_pfn :: nat
  max_pfn :: nat
  depot_fetch :: "u32 \<Rightarrow> u64 list"
  ptr_str :: "u64 \<Rightarrow> string"
  sym_str :: "u64 \<Rightarrow> string"

record owner_state =
  page_owner_filter :: u64
  page_owner_handles_size :: nat
  nr_handles :: nat
  accounted_call_sites :: "string list"

definition init_owner :: owner_state where
  "init_owner = \<lparr>page_owner_filter = 0xF, page_owner_handles_size = 0x4000, nr_handles = 0, accounted_call_sites = []\<rparr>"

subsection \<open>One page\<close>

fun scan_handles :: "nat \<Rightarrow> int \<Rightarrow> u32 \<Rightarrow> nat \<Rightarrow> nat \<Rightarrow> char arr \<Rightarrow> bool option" where
  "scan_handles cap base handle i 0 b = Some False"
| "scan_handles cap base handle i (Suc n) b = do {
     h \<leftarrow> get_int cap b (base + 4 * int i);
     if handle = h then Some True else scan_handles cap base handle (Suc i) n b }"

definition found_stack :: "nat \<Rightarrow> nat \<Rightarrow> u32 \<Rightarrow> owner_state \<times> char arr \<Rightarrow> (bool \<times> owner_state \<times> char arr) option" where
  "found_stack cap dump_sz handle st =
     (let (os, b) = st; base = int dump_sz - int (page_owner_handles_size os)
      in do {
        found \<leftarrow> scan_handles cap base handle 0 (nr_handles os) b;
        if found then Some (True, os, b)
        else if 4 * nr_handles os < page_owner_handles_size os
        then do {
          b \<leftarrow> put_int cap (base + 4 * int (nr_handles os)) handle b;
          Some (False, os\<lparr>nr_handles := nr_handles os + 1\<rparr>, b) }
        else Some (False, os, b) })"

text \<open>\<^verbatim>\<open>strnstr\<close>: does the string occur?\<close>

definition occurs :: "string \<Rightarrow> string \<Rightarrow> bool" where
  "occurs nm s = list_ex (\<lambda>i. take (length nm) (drop i s) = nm) [0..<Suc (length s)]"

text \<open>The symbols are printed into the dump itself; the next output overwrites them.\<close>

fun unaccounted_loop :: "owner_env \<Rightarrow> nat \<Rightarrow> nat \<Rightarrow> nat \<Rightarrow> string list \<Rightarrow> u64 list \<Rightarrow> char arr \<Rightarrow> (bool \<times> char arr) option" where
  "unaccounted_loop env cap off count sites [] b = Some (True, b)"
| "unaccounted_loop env cap off count sites (e # es) b = do {
     let out = sym_str env e @ [LF];
     (ret, b) \<leftarrow> scnprintf_at cap off count out b;
     if int ret = int count - 1 then Some (False, b)
     else if list_ex (\<lambda>nm. occurs nm (scnprintf_str count out)) sites then Some (False, b)
     else unaccounted_loop env cap off count sites es b }"

definition check_unaccounted ::
  "owner_env \<Rightarrow> nat \<Rightarrow> nat \<Rightarrow> nat \<Rightarrow> page_info \<Rightarrow> u32 \<Rightarrow> owner_state \<Rightarrow> char arr \<Rightarrow> (bool \<times> char arr) option" where
  "check_unaccounted env cap off count pg handle os b =
     (if pg_lru pg \<or> pg_slab pg \<or> pg_swapbacked pg then Some (False, b)
      else unaccounted_loop env cap off count (accounted_call_sites os) (depot_fetch env handle) b)"

text \<open>
  The filter: does one of its conditions hold?  The bitwise complement in the last one is always true as a
  condition.
\<close>

definition filter_hit ::
  "owner_env \<Rightarrow> nat \<Rightarrow> nat \<Rightarrow> nat \<Rightarrow> page_info \<Rightarrow> u32 \<Rightarrow> owner_state \<Rightarrow> u64 \<Rightarrow> char arr \<Rightarrow> (bool \<times> char arr) option" where
  "filter_hit env cap off count pg handle os bt b =
     (if page_owner_filter os AND bt = 0 then Some (False, b)
      else if bt = 1 then check_unaccounted env cap off count pg handle os b
      else if bt = 2 then Some (pg_slab pg, b)
      else if bt = 4 then Some (pg_swapbacked pg, b)
      else Some (pg_lru pg, b))"

fun filter_loop ::
  "owner_env \<Rightarrow> nat \<Rightarrow> nat \<Rightarrow> nat \<Rightarrow> page_info \<Rightarrow> u32 \<Rightarrow> owner_state \<Rightarrow> u64 list \<Rightarrow> char arr \<Rightarrow> (bool \<times> char arr) option" where
  "filter_loop env cap off count pg handle os [] b = Some (False, b)"
| "filter_loop env cap off count pg handle os (bt # bts) b =
     (if page_owner_filter os < bt then Some (False, b)
      else do {
        (hit, b) \<leftarrow> filter_hit env cap off count pg handle os bt b;
        if hit then Some (True, b) else filter_loop env cap off count pg handle os bts b })"

text \<open>The addresses of a stack; \<open>ret\<close> characters have been written.\<close>

fun dump_entries :: "owner_env \<Rightarrow> nat \<Rightarrow> nat \<Rightarrow> nat \<Rightarrow> nat \<Rightarrow> u64 list \<Rightarrow> char arr \<Rightarrow> (nat \<times> char arr) option" where
  "dump_entries env cap off count ret [] b = Some (ret, b)"
| "dump_entries env cap off count ret (e # es) b = do {
     (n, b) \<leftarrow> scnprintf_at cap (off + ret) (count - ret) (ptr_str env e @ [LF]) b;
     let ret = ret + n;
     if int ret = int count - 1 then Some (ret, b) else dump_entries env cap off count ret es b }"

definition owner_line :: "nat \<Rightarrow> u32 \<Rightarrow> nat \<Rightarrow> string" where
  "owner_line pfn handle n = dec_str pfn @ '' '' @ dec_str (unat handle) @ '' '' @ dec_str n @ [LF]"

definition dump_page_owner_md ::
  "owner_env \<Rightarrow> nat \<Rightarrow> nat \<Rightarrow> nat \<Rightarrow> nat \<Rightarrow> nat \<Rightarrow> page_info \<Rightarrow> u32 \<Rightarrow> owner_state \<times> char arr \<Rightarrow>
     (nat \<times> owner_state \<times> char arr) option" where
  "dump_page_owner_md env cap dump_sz off count pfn pg handle st =
     (let (os, b) = st
      in do {
        (sel, b) \<leftarrow> (if page_owner_filter os = 0xF then Some (True, b)
                     else filter_loop env cap off count pg handle os [1, 2, 4, 8] b);
        if \<not> sel then Some (0, os, b)
        else do {
          let entries = depot_fetch env handle;
          (found, os, b) \<leftarrow> (if int dump_sz - int (page_owner_handles_size os) < int off then Some (False, os, b)
                             else found_stack cap dump_sz handle (os, b));
          if \<not> found
          then do {
            (ret, b) \<leftarrow> scnprintf_at cap off count (owner_line pfn handle (length entries)) b;
            (ret, b) \<leftarrow> (if int ret = int count - 1 then Some (ret, b)
                         else dump_entries env cap off count ret entries b);
            Some (ret, os, b) }
          else do {
            (ret, b) \<leftarrow> scnprintf_at cap off count (owner_line pfn handle 0) b;
            Some (ret, os, b) } } })"

subsection \<open>All pages\<close>

text \<open>The search for a valid page number or the start of an area ends at the latest at the next area.\<close>

function first_pfn :: "owner_env \<Rightarrow> nat \<Rightarrow> nat" where
  "first_pfn env pfn =
     (if \<not> pfn_valid (page_at env pfn) \<and> pfn mod MAX_ORDER_NR_PAGES \<noteq> 0 then first_pfn env (pfn + 1) else pfn)"
  by pat_completeness auto
termination
proof (relation "measure (\<lambda>(env, pfn). if pfn mod 1024 = 0 then 0 else 1024 - pfn mod 1024)")
  fix env :: owner_env and pfn :: nat
  assume "\<not> pfn_valid (page_at env pfn) \<and> pfn mod MAX_ORDER_NR_PAGES \<noteq> 0"
  then have "pfn mod 1024 \<noteq> 0" by (simp add: MAX_ORDER_NR_PAGES_def)
  then show "((env, pfn + 1), env, pfn) \<in> measure (\<lambda>(env, pfn). if pfn mod 1024 = 0 then 0 else 1024 - pfn mod 1024)"
    using mod_less_divisor [of 1024 pfn] by (simp add: mod_Suc diff_less_mono2) linarith
qed simp

declare first_pfn.simps [simp del]

text \<open>What the loop does with a page number: go on after the given number, or dump the page.\<close>

datatype verdict = Skip nat | Dump u32

definition page_verdict :: "owner_env \<Rightarrow> nat \<Rightarrow> verdict" where
  "page_verdict env pfn =
     (let pg = page_at env pfn
      in if pfn mod MAX_ORDER_NR_PAGES = 0 \<and> \<not> pfn_valid pg then Skip (pfn + (MAX_ORDER_NR_PAGES - 1))
         else case buddy_order pg of
           Some order \<Rightarrow> Skip (if order < MAX_ORDER then pfn + (2 ^ order - 1) else pfn)
         | None \<Rightarrow>
             if \<not> has_page_ext pg \<or> \<not> ext_owner pg \<or> \<not> ext_allocated pg \<or> owner_handle pg = 0 then Skip pfn
             else Dump (owner_handle pg))"

lemma buddy_skip: "pfn \<le> pfn + 2 ^ order - Suc 0"
proof -
  have "0 < (2 :: nat) ^ order" by simp
  then show ?thesis by linarith
qed

lemma page_verdict_Skip: "page_verdict env pfn = Skip n \<Longrightarrow> pfn \<le> n"
  by (auto simp: page_verdict_def Let_def buddy_skip split: if_splits option.splits)

function owner_loop ::
  "owner_env \<Rightarrow> nat \<Rightarrow> nat \<Rightarrow> nat \<Rightarrow> nat \<Rightarrow> nat \<Rightarrow> owner_state \<times> char arr \<Rightarrow> (owner_state \<times> char arr) option" where
  "owner_loop env cap dump_sz pfn off left st =
     (if max_pfn env \<le> pfn then Some st
      else case page_verdict env pfn of
        Skip n \<Rightarrow> owner_loop env cap dump_sz (n + 1) off left st
      | Dump handle \<Rightarrow> do {
          (sz, os, b) \<leftarrow> dump_page_owner_md env cap dump_sz off left pfn (page_at env pfn) handle st;
          if int sz = int left - 1 then Some (os, b)
          else owner_loop env cap dump_sz (pfn + 1) (off + sz) (left - sz) (os, b) })"
  by pat_completeness auto
termination
  by (relation "measure (\<lambda>(env, cap, dump_sz, pfn, off, left, st). max_pfn env - pfn)")
    (auto dest: page_verdict_Skip)

declare owner_loop.simps [simp del]

definition md_dump_pageowner ::
  "owner_env \<Rightarrow> nat \<Rightarrow> nat \<Rightarrow> owner_state \<times> char arr \<Rightarrow> (owner_state \<times> char arr) option" where
  "md_dump_pageowner env cap dump_sz st = owner_loop env cap dump_sz (first_pfn env (min_low_pfn env)) 0 dump_sz st"

subsection \<open>The settings\<close>

text \<open>
  The debugfs files of the filter, the size of the handle table and the accounted call sites.  \<open>input\<close> is the number
  read from the user's string, if it is one.
\<close>

definition page_owner_filter_write :: "u64 option \<Rightarrow> nat \<Rightarrow> owner_state \<Rightarrow> int \<times> owner_state" where
  "page_owner_filter_write input count os =
     (case input of
        None \<Rightarrow> (- EINVAL, os)
      | Some f \<Rightarrow> if f AND NOT 0xF \<noteq> 0 then (- EINVAL, os) else (int count, os\<lparr>page_owner_filter := f\<rparr>))"

definition page_owner_filter_read :: "owner_state \<Rightarrow> string" where
  "page_owner_filter_read os = scnprintf_str 64 (''0x'' @ hex_str (unat (page_owner_filter os)) @ [LF])"

text \<open>\<open>dump_sz\<close> is the size of the page owner dump.\<close>

definition page_owner_handle_write :: "nat \<Rightarrow> u64 option \<Rightarrow> nat \<Rightarrow> owner_state \<Rightarrow> int \<times> owner_state" where
  "page_owner_handle_write dump_sz input count os =
     (case input of
        None \<Rightarrow> (- EINVAL, os)
      | Some n \<Rightarrow>
          if n = 0 \<or> dump_sz div 0x4000 < unat n then (int count, os)
          else (int count, os\<lparr>page_owner_handles_size := unat n * 1024\<rparr>))"

definition page_owner_handle_read :: "owner_state \<Rightarrow> string" where
  "page_owner_handle_read os = scnprintf_str 64 (dec_str (page_owner_handles_size os div 1024) @ '' KB'' @ [LF])"

definition is_alpha :: "char \<Rightarrow> bool" where
  "is_alpha c = (let n = of_char c :: nat in 65 \<le> n \<and> n \<le> 90 \<or> 97 \<le> n \<and> n \<le> 122)"

text \<open>\<open>input\<close> are the bytes that are copied from the user, \<open>None\<close> when the copy fails; \<open>alloc\<close> is the outcome of \<^verbatim>\<open>kzalloc\<close>.\<close>

definition page_owner_call_site_write :: "bool \<Rightarrow> string option \<Rightarrow> nat \<Rightarrow> owner_state \<Rightarrow> int \<times> owner_state" where
  "page_owner_call_site_write alloc input count os =
     (if 50 \<le> count then (- EINVAL, os)
      else case input of
        None \<Rightarrow> (- EFAULT, os)
      | Some bytes \<Rightarrow>
          let s = takeWhile (\<lambda>c. c \<noteq> NUL) bytes;
              c = (if s = [] then NUL else hd s)
          in if \<not> is_alpha c \<and> c \<noteq> CHR ''_'' then (- EINVAL, os)
             else if \<not> alloc then (- ENOMEM, os)
             else (int count, os\<lparr>accounted_call_sites := accounted_call_sites os @ [strscpy_str s 50]\<rparr>))"

text \<open>
  The text is built in a page; the first output is limited by the size of the user's buffer.  The test for a full page
  compares with the size, which \<^verbatim>\<open>scnprintf\<close> never reaches.
\<close>

fun call_site_lines :: "nat \<Rightarrow> string list \<Rightarrow> string \<Rightarrow> string + string" where
  "call_site_lines i [] txt = Inr txt"
| "call_site_lines i (nm # nms) txt =
     (let txt = txt @ scnprintf_str (PAGE_SIZE - length txt) (dec_str i @ ''. '' @ nm @ [LF])
      in if length txt = PAGE_SIZE then Inl txt else call_site_lines (i + 1) nms txt)"

definition page_owner_call_site_read :: "bool \<Rightarrow> nat \<Rightarrow> owner_state \<Rightarrow> int + string" where
  "page_owner_call_site_read alloc count os =
     (if \<not> alloc then Inl (- ENOMEM)
      else case call_site_lines 1 (accounted_call_sites os) (scnprintf_str count (''Accounted call sites:'' @ [LF])) of
        Inl _ \<Rightarrow> Inl (- ENOMEM)
      | Inr txt \<Rightarrow> Inr txt)"

subsection \<open>The dump stays in its region\<close>

lemma ex_bool [simp]: "\<exists>r :: bool. r" "\<exists>r :: bool. \<not> r" "Ex Not"
  by auto

definition same_outside :: "nat \<Rightarrow> nat \<Rightarrow> 'a arr \<Rightarrow> 'a arr \<Rightarrow> bool" where
  "same_outside lo hi b b' \<longleftrightarrow> (\<forall>i. i < lo \<or> hi \<le> i \<longrightarrow> b' i = b i)"

lemma same_outside_refl [simp]: "same_outside lo hi b b"
  by (simp add: same_outside_def)

lemma same_outside_trans: "same_outside lo hi b b1 \<Longrightarrow> same_outside lo hi b1 b2 \<Longrightarrow> same_outside lo hi b b2"
  by (simp add: same_outside_def)

lemma same_outside_mono: "same_outside lo hi b b' \<Longrightarrow> lo' \<le> lo \<Longrightarrow> hi \<le> hi' \<Longrightarrow> same_outside lo' hi' b b'"
  by (auto simp: same_outside_def)

lemma scnprintf_at_inside:
  assumes "off + sz \<le> cap" and "0 < sz"
  shows "\<exists>n b'. scnprintf_at cap off sz out b = Some (n, b') \<and> n \<le> sz - 1 \<and> same_outside off (off + sz) b b'"
proof -
  have l: "off + length (snprintf_str sz out) \<le> cap" using assms length_snprintf_str [of sz out] by simp
  then have "put_chars cap off (snprintf_str sz out) b = Some (arr_write b off (snprintf_str sz out))"
    by (simp add: put_chars_def)
  moreover have "same_outside off (off + sz) b (arr_write b off (snprintf_str sz out))"
    using length_snprintf_str [of sz out] by (auto simp: same_outside_def arr_write_def)
  ultimately show ?thesis using length_scnprintf_str [of sz out] by (simp add: scnprintf_at_def)
qed

lemma scan_handles_ok:
  "0 \<le> base \<Longrightarrow> base + 4 * int (i + n) \<le> int cap \<Longrightarrow> \<exists>r. scan_handles cap base handle i n b = Some r"
proof (induction n arbitrary: i)
  case (Suc n)
  then obtain h where "get_int cap b (base + 4 * int i) = Some h" by (auto simp: get_int_def Let_def)
  with Suc show ?case by auto
qed auto

lemma put_int_inside:
  assumes "0 \<le> off" and "nat off + 4 \<le> hi" and "hi \<le> cap"
  shows "\<exists>b'. put_int cap off w b = Some b' \<and> same_outside (nat off) hi b b'"
proof -
  have "length (int_bytes w) = 4" by (simp add: int_bytes_def Let_def)
  then have "put_int cap off w b = Some (arr_write b (nat off) (int_bytes w)) \<and>
      same_outside (nat off) hi b (arr_write b (nat off) (int_bytes w))"
    using assms by (auto simp: put_int_def put_chars_def same_outside_def arr_write_def)
  then show ?thesis by blast
qed

text \<open>What stays true of the settings: the handle table has room for the handles that are in it.\<close>

definition owner_ok :: "owner_state \<Rightarrow> bool" where
  "owner_ok os \<longleftrightarrow> 4 dvd page_owner_handles_size os \<and> 4 * nr_handles os \<le> page_owner_handles_size os"

lemma found_stack_inside:
  assumes ok: "owner_ok os" and sz: "page_owner_handles_size os \<le> dump_sz" "dump_sz \<le> cap"
  shows "\<exists>r m b'. found_stack cap dump_sz handle (os, b) = Some (r, os\<lparr>nr_handles := m\<rparr>, b') \<and>
     owner_ok (os\<lparr>nr_handles := m\<rparr>) \<and> same_outside 0 dump_sz b b'"
proof -
  let ?base = "int dump_sz - int (page_owner_handles_size os)" and ?n = "nr_handles os"
  obtain r where r: "scan_handles cap ?base handle 0 ?n b = Some r"
    using scan_handles_ok [of ?base 0 ?n cap handle b] ok sz by (auto simp: owner_ok_def)
  show ?thesis
  proof (cases "r \<or> \<not> 4 * ?n < page_owner_handles_size os")
    case True
    have "os\<lparr>nr_handles := ?n\<rparr> = os" by simp
    with True r ok show ?thesis by (intro exI [of _ r] exI [of _ ?n] exI [of _ b]) (auto simp: found_stack_def)
  next
    case False
    from ok obtain q where q: "page_owner_handles_size os = 4 * q" by (auto simp: owner_ok_def)
    with False have room: "4 * ?n + 4 \<le> page_owner_handles_size os" by auto
    have "nat (?base + 4 * int ?n) + 4 \<le> dump_sz" using room sz(1) by linarith
    then obtain b' where b': "put_int cap (?base + 4 * int ?n) handle b = Some b'" "same_outside (nat (?base + 4 * int ?n)) dump_sz b b'"
      using put_int_inside [of "?base + 4 * int ?n" dump_sz cap handle b] sz by auto
    with False r room ok show ?thesis
      by (intro exI [of _ False] exI [of _ "?n + 1"] exI [of _ b'])
        (auto simp: found_stack_def owner_ok_def elim: same_outside_mono)
  qed
qed

lemma unaccounted_inside:
  "off + count \<le> cap \<Longrightarrow> 0 < count \<Longrightarrow>
   \<exists>r b'. unaccounted_loop env cap off count sites es b = Some (r, b') \<and> same_outside off (off + count) b b'"
proof (induction es arbitrary: b)
  case (Cons e es)
  obtain n b1 where b1: "scnprintf_at cap off count (sym_str env e @ [LF]) b = Some (n, b1)" "same_outside off (off + count) b b1"
    using scnprintf_at_inside [OF Cons.prems] by blast
  obtain r b' where b': "unaccounted_loop env cap off count sites es b1 = Some (r, b')" "same_outside off (off + count) b1 b'"
    using Cons by blast
  from b1 b' same_outside_trans [OF b1(2) b'(2)] show ?case by (auto simp: Let_def)
qed auto

lemma filter_inside:
  assumes "off + count \<le> cap" and "0 < count"
  shows "\<exists>r b'. filter_loop env cap off count pg handle os bts b = Some (r, b') \<and> same_outside off (off + count) b b'"
proof (induction bts arbitrary: b)
  case (Cons bt bts)
  have "\<exists>h b1. filter_hit env cap off count pg handle os bt b = Some (h, b1) \<and> same_outside off (off + count) b b1"
    using unaccounted_inside [OF assms, of env "accounted_call_sites os" "depot_fetch env handle" b]
    by (simp add: filter_hit_def check_unaccounted_def)
  then obtain h b1 where b1: "filter_hit env cap off count pg handle os bt b = Some (h, b1)"
    "same_outside off (off + count) b b1" by blast
  obtain r b' where "filter_loop env cap off count pg handle os bts b1 = Some (r, b')" "same_outside off (off + count) b1 b'"
    using Cons by blast
  with b1 same_outside_trans [OF b1(2)] show ?case by auto
qed simp

lemma entries_inside:
  "off + count \<le> cap \<Longrightarrow> ret < count \<Longrightarrow>
   \<exists>n b'. dump_entries env cap off count ret es b = Some (n, b') \<and> n < count \<and> same_outside off (off + count) b b'"
proof (induction es arbitrary: ret b)
  case (Cons e es)
  obtain n b1 where b1: "scnprintf_at cap (off + ret) (count - ret) (ptr_str env e @ [LF]) b = Some (n, b1)"
    "n \<le> count - ret - 1" "same_outside (off + ret) (off + ret + (count - ret)) b b1"
    using scnprintf_at_inside [of "off + ret" "count - ret" cap] Cons.prems by fastforce
  have s1: "same_outside off (off + count) b b1" using b1(3) Cons.prems(2) by (auto elim: same_outside_mono)
  have "ret + n < count" using b1(2) Cons.prems(2) by linarith
  from Cons.IH [OF Cons.prems(1) this, of b1] obtain m b' where
    "dump_entries env cap off count (ret + n) es b1 = Some (m, b')" "m < count" "same_outside off (off + count) b1 b'" by blast
  with b1(1) s1 same_outside_trans [OF s1] \<open>ret + n < count\<close> show ?case by (auto simp: Let_def)
qed simp

lemma owner_line_inside:
  assumes "off + count \<le> cap" and "0 < count"
  shows "\<exists>ret b'. (do {
       (ret, b) \<leftarrow> scnprintf_at cap off count (owner_line pfn handle n) b;
       if int ret = int count - 1 then Some (ret, b) else dump_entries env cap off count ret es b }) = Some (ret, b') \<and>
     ret < count \<and> same_outside off (off + count) b b'"
proof -
  obtain ret b1 where b1: "scnprintf_at cap off count (owner_line pfn handle n) b = Some (ret, b1)" "ret < count"
    "same_outside off (off + count) b b1"
    using scnprintf_at_inside [OF assms, of "owner_line pfn handle n" b] assms(2) by fastforce
  with entries_inside [OF assms(1) b1(2), of env es b1] show ?thesis by (auto dest: same_outside_trans [OF b1(3)])
qed

lemma dump_page_inside:
  assumes ok: "owner_ok os" and sz: "off + count = dump_sz" "dump_sz \<le> cap" "0 < count"
  shows "\<exists>ret m b'. dump_page_owner_md env cap dump_sz off count pfn pg handle (os, b) = Some (ret, os\<lparr>nr_handles := m\<rparr>, b') \<and>
     owner_ok (os\<lparr>nr_handles := m\<rparr>) \<and> ret < count \<and> same_outside 0 dump_sz b b'"
proof -
  have oc: "off + count \<le> cap" using sz by simp
  have id: "os\<lparr>nr_handles := nr_handles os\<rparr> = os" by simp
  have "\<exists>sel b1. (if page_owner_filter os = 0xF then Some (True, b)
       else filter_loop env cap off count pg handle os [1, 2, 4, 8] b) = Some (sel, b1) \<and> same_outside off dump_sz b b1"
    using filter_inside [OF oc sz(3), of env pg handle os "[1, 2, 4, 8]" b] sz(1) by simp
  then obtain sel b1 where b1: "(if page_owner_filter os = 0xF then Some (True, b)
       else filter_loop env cap off count pg handle os [1, 2, 4, 8] b) = Some (sel, b1)" "same_outside 0 dump_sz b b1"
    using same_outside_mono by blast
  have "\<exists>found m b2. (if int dump_sz - int (page_owner_handles_size os) < int off then Some (False, os, b1)
       else found_stack cap dump_sz handle (os, b1)) = Some (found, os\<lparr>nr_handles := m\<rparr>, b2) \<and>
       owner_ok (os\<lparr>nr_handles := m\<rparr>) \<and> same_outside 0 dump_sz b1 b2"
  proof (cases "int dump_sz - int (page_owner_handles_size os) < int off")
    case True
    then show ?thesis using ok by (intro exI [of _ False] exI [of _ "nr_handles os"] exI [of _ b1]) simp
  next
    case False
    then have "page_owner_handles_size os \<le> dump_sz" by linarith
    from found_stack_inside [OF ok this sz(2), of handle b1] False show ?thesis by simp
  qed
  then obtain found m b2 where b2: "(if int dump_sz - int (page_owner_handles_size os) < int off then Some (False, os, b1)
       else found_stack cap dump_sz handle (os, b1)) = Some (found, os\<lparr>nr_handles := m\<rparr>, b2)"
       "owner_ok (os\<lparr>nr_handles := m\<rparr>)" "same_outside 0 dump_sz b1 b2" by blast
  obtain ret b3 where b3: "(do {
       (ret, b) \<leftarrow> scnprintf_at cap off count (owner_line pfn handle (if found then 0 else length (depot_fetch env handle))) b2;
       if int ret = int count - 1 then Some (ret, b)
       else dump_entries env cap off count ret (if found then [] else depot_fetch env handle) b }) = Some (ret, b3)"
     "ret < count" "same_outside off (off + count) b2 b3"
    using owner_line_inside [OF oc sz(3)] by blast
  have s3: "same_outside 0 dump_sz b b3" "same_outside 0 dump_sz b b1"
    using same_outside_trans [OF same_outside_trans [OF b1(2) b2(3)]] same_outside_mono [OF b3(3), of 0 dump_sz] sz(1) b1(2)
    by simp_all
  show ?thesis
  proof (cases sel)
    case False
    then show ?thesis using b1(1) id s3(2) ok sz(3)
      by (intro exI [of _ 0] exI [of _ "nr_handles os"] exI [of _ b1]) (simp add: dump_page_owner_md_def)
  next
    case True
    have "dump_page_owner_md env cap dump_sz off count pfn pg handle (os, b) = Some (ret, os\<lparr>nr_handles := m\<rparr>, b3)"
      using b1(1) b2(1) b3(1) True
      by (cases found) (auto simp: dump_page_owner_md_def elim!: bind_SomeE split: if_splits)
    with b2(2) b3(2) s3(1) show ?thesis by blast
  qed
qed

lemma owner_loop_inside:
  assumes "owner_ok os" and "off + left = dump_sz" and "dump_sz \<le> cap" and "0 < left"
  shows "\<exists>m b'. owner_loop env cap dump_sz pfn off left (os, b) = Some (os\<lparr>nr_handles := m\<rparr>, b') \<and>
     owner_ok (os\<lparr>nr_handles := m\<rparr>) \<and> same_outside 0 dump_sz b b'"
  using assms
proof (induction "max_pfn env - pfn" arbitrary: pfn off left os b rule: less_induct)
  case less
  show ?case
  proof (cases "max_pfn env \<le> pfn")
    case True
    have "os\<lparr>nr_handles := nr_handles os\<rparr> = os" by simp
    with True less.prems(1) show ?thesis
      by (subst owner_loop.simps) (intro exI [of _ "nr_handles os"] exI [of _ b], simp)
  next
    case False
    show ?thesis
    proof (cases "page_verdict env pfn")
      case (Skip n)
      then have "max_pfn env - (n + 1) < max_pfn env - pfn" using page_verdict_Skip [OF Skip] False by linarith
      from less.hyps [OF this less.prems] Skip False show ?thesis by (subst owner_loop.simps) simp
    next
      case (Dump h)
      obtain ret m b1 where b1: "dump_page_owner_md env cap dump_sz off left pfn (page_at env pfn) h (os, b) =
          Some (ret, os\<lparr>nr_handles := m\<rparr>, b1)" "owner_ok (os\<lparr>nr_handles := m\<rparr>)" "ret < left" "same_outside 0 dump_sz b b1"
        using dump_page_inside [OF less.prems(1,2,3,4)] by blast
      show ?thesis
      proof (cases "int ret = int left - 1")
        case True
        then show ?thesis using b1 Dump False by (subst owner_loop.simps) auto
      next
        case no: False
        have "max_pfn env - (pfn + 1) < max_pfn env - pfn" "off + ret + (left - ret) = dump_sz" "0 < left - ret"
          using False b1(3) less.prems(2) by auto
        from less.hyps [OF this(1) b1(2) this(2) less.prems(3) this(3), of b1] obtain m' b' where
          "owner_loop env cap dump_sz (pfn + 1) (off + ret) (left - ret) (os\<lparr>nr_handles := m\<rparr>, b1) = Some (os\<lparr>nr_handles := m'\<rparr>, b')"
          "owner_ok (os\<lparr>nr_handles := m'\<rparr>)" "same_outside 0 dump_sz b1 b'" by auto
        with b1 Dump False no same_outside_trans [OF b1(4)] show ?thesis by (subst owner_loop.simps) auto
      qed
    qed
  qed
qed

end
