(* ===== verification/Slab_Owner.thy ===== *)
theory Slab_Owner
  imports Page_Owner
begin

unbundle bit_operations_syntax

text \<open>
  The slab owner dump, from \<^verbatim>\<open>minidump/minidump_memory.c\<close>: for the general purpose caches that the filter
  selects, the objects and the stacks that allocated them, with a table of handles as in the page owner dump.
\<close>

subsection \<open>Caches\<close>

definition KMALLOC_SHIFT_HIGH :: nat where "KMALLOC_SHIFT_HIGH = 13"

text \<open>\<open>track_addrs\<close> has \<^verbatim>\<open>TRACK_ADDRS_COUNT\<close> entries, the unused ones 0.\<close>

record track =
  track_addr :: u64
  track_addrs :: "u64 list"

type_synonym slab_page = "(u64 \<times> track) list"

record cache_node =
  nr_slabs :: nat
  node_partial :: "slab_page list"
  node_full :: "slab_page list"

record slab_cache =
  slab_name :: string
  cache_nodes :: "cache_node list"

text \<open>\<open>hash_stack\<close> stands for \<^verbatim>\<open>jhash2\<close> with the seed of the code; \<open>obj_str\<close> is how \<^verbatim>\<open>%p\<close> prints an address.\<close>

record slab_env =
  kmalloc_caches :: "nat \<Rightarrow> slab_cache option"
  hash_stack :: "u64 list \<Rightarrow> u32"
  obj_str :: "u64 \<Rightarrow> string"
  config_stacktrace :: bool

record slab_state =
  slab_owner_filter :: u64
  slab_owner_handles_size :: nat
  num_handles :: nat

definition init_slab :: slab_state where
  "init_slab = \<lparr>slab_owner_filter = 0, slab_owner_handles_size = 0x4000, num_handles = 0\<rparr>"

record priv_buf =
  pb_buf :: nat
  pb_size :: nat
  pb_offset :: nat

type_synonym slab_dump = "slab_state \<times> priv_buf \<times> char arr"

subsection \<open>One object\<close>

definition find_stack :: "nat \<Rightarrow> nat \<Rightarrow> u32 \<Rightarrow> slab_state \<times> char arr \<Rightarrow> (bool \<times> slab_state \<times> char arr) option" where
  "find_stack cap dump_sz handle st =
     (let (ss, b) = st; base = int dump_sz - int (slab_owner_handles_size ss)
      in do {
        found \<leftarrow> scan_handles cap base handle 0 (num_handles ss) b;
        if found then Some (True, ss, b)
        else if 4 * num_handles ss < slab_owner_handles_size ss
        then do {
          b \<leftarrow> put_int cap (base + 4 * int (num_handles ss)) handle b;
          Some (False, ss\<lparr>num_handles := num_handles ss + 1\<rparr>, b) }
        else Some (False, ss, b) })"

fun track_entries :: "slab_env \<Rightarrow> nat \<Rightarrow> nat \<Rightarrow> nat \<Rightarrow> nat \<Rightarrow> u64 list \<Rightarrow> char arr \<Rightarrow> (nat \<times> char arr) option" where
  "track_entries env cap off sz ret [] b = Some (ret, b)"
| "track_entries env cap off sz ret (e # es) b = do {
     (n, b) \<leftarrow> scnprintf_at cap (off + ret) (sz - ret) (obj_str env e @ [LF]) b;
     let ret = ret + n;
     if int ret = int sz - 1 then Some (ret, b) else track_entries env cap off sz ret es b }"

definition track_line :: "slab_env \<Rightarrow> u64 \<Rightarrow> u32 \<Rightarrow> nat \<Rightarrow> string" where
  "track_line env obj handle n = obj_str env obj @ '' '' @ dec_str (unat handle) @ '' '' @ dec_str n @ [LF]"

definition track_record ::
  "slab_env \<Rightarrow> nat \<Rightarrow> nat \<Rightarrow> nat \<Rightarrow> u64 \<Rightarrow> u32 \<Rightarrow> u64 list \<Rightarrow> bool \<Rightarrow> char arr \<Rightarrow> (nat \<times> char arr) option" where
  "track_record env cap off sz obj handle entries found b =
     (if \<not> found
      then do {
        (ret, b) \<leftarrow> scnprintf_at cap off sz (track_line env obj handle (length entries)) b;
        if int ret = int sz - 1 then Some (ret, b) else track_entries env cap off sz ret entries b }
      else scnprintf_at cap off sz (track_line env obj handle 0) b)"

definition dump_tracking :: "slab_env \<Rightarrow> nat \<Rightarrow> nat \<Rightarrow> u64 \<Rightarrow> track \<Rightarrow> slab_dump \<Rightarrow> slab_dump option" where
  "dump_tracking env cap dump_sz obj t st =
     (let (ss, pb, b) = st
      in if track_addr t = 0 then Some st
         else let off = pb_buf pb + pb_offset pb; sz = pb_size pb - pb_offset pb
              in if config_stacktrace env
                 then do {
                   let entries = takeWhile (\<lambda>a. a \<noteq> 0) (track_addrs t);
                   let handle = hash_stack env entries;
                   (found, ss, b) \<leftarrow> (if int dump_sz - int (slab_owner_handles_size ss) < int off then Some (False, ss, b)
                                      else find_stack cap dump_sz handle (ss, b));
                   (ret, b) \<leftarrow> track_record env cap off sz obj handle entries found b;
                   Some (ss, pb\<lparr>pb_offset := pb_offset pb + ret\<rparr>, b) }
                 else do {
                   (ret, b) \<leftarrow> scnprintf_at cap off sz (obj_str env obj @ '' '' @ obj_str env (track_addr t) @ [LF]) b;
                   Some (ss, pb\<lparr>pb_offset := pb_offset pb + ret\<rparr>, b) })"

subsection \<open>All caches\<close>

text \<open>The kernel's \<^verbatim>\<open>get_each_object_track\<close> calls the function for every object until it returns a negative number.\<close>

fun each_object :: "slab_env \<Rightarrow> nat \<Rightarrow> nat \<Rightarrow> slab_page \<Rightarrow> slab_dump \<Rightarrow> slab_dump option" where
  "each_object env cap dump_sz [] st = Some st"
| "each_object env cap dump_sz ((obj, t) # objs) st = do {
     st \<leftarrow> dump_tracking env cap dump_sz obj t st;
     each_object env cap dump_sz objs st }"

definition exhausted :: "slab_dump \<Rightarrow> bool" where
  "exhausted st = (let pb = fst (snd st) in int (pb_offset pb) = int (pb_size pb) - 1)"

text \<open>The first component says that the dump is over.\<close>

fun each_page :: "slab_env \<Rightarrow> nat \<Rightarrow> nat \<Rightarrow> slab_page list \<Rightarrow> slab_dump \<Rightarrow> (bool \<times> slab_dump) option" where
  "each_page env cap dump_sz [] st = Some (False, st)"
| "each_page env cap dump_sz (pg # pgs) st = do {
     st \<leftarrow> each_object env cap dump_sz pg st;
     if exhausted st then Some (True, st) else each_page env cap dump_sz pgs st }"

fun each_node :: "slab_env \<Rightarrow> nat \<Rightarrow> nat \<Rightarrow> cache_node list \<Rightarrow> slab_dump \<Rightarrow> (bool \<times> slab_dump) option" where
  "each_node env cap dump_sz [] st = Some (False, st)"
| "each_node env cap dump_sz (n # ns) st =
     (if nr_slabs n = 0 then each_node env cap dump_sz ns st
      else do {
        (over, st) \<leftarrow> each_page env cap dump_sz (node_partial n) st;
        if over then Some (True, st)
        else do {
          (over, st) \<leftarrow> each_page env cap dump_sz (node_full n) st;
          if over then Some (True, st) else each_node env cap dump_sz ns st } })"

text \<open>Text printed at the start of the buffer, which then moves behind it.  The size stays what it was.\<close>

definition advance :: "nat \<Rightarrow> string \<Rightarrow> slab_dump \<Rightarrow> (bool \<times> slab_dump) option" where
  "advance cap out st =
     (let (ss, pb, b) = st
      in do {
        (ret, b) \<leftarrow> scnprintf_at cap (pb_buf pb) (pb_size pb) out b;
        if int ret = int (pb_size pb) - 1 then Some (True, ss, pb, b)
        else Some (False, ss, pb\<lparr>pb_buf := pb_buf pb + ret\<rparr>, b) })"

fun each_cache :: "slab_env \<Rightarrow> nat \<Rightarrow> nat \<Rightarrow> nat list \<Rightarrow> slab_dump \<Rightarrow> slab_dump option" where
  "each_cache env cap dump_sz [] st = Some st"
| "each_cache env cap dump_sz (i # is) st =
     (if \<not> bit (slab_owner_filter (fst st)) i then each_cache env cap dump_sz is st
      else case kmalloc_caches env i of
        None \<Rightarrow> each_cache env cap dump_sz is st
      | Some s \<Rightarrow> do {
          (over, st) \<leftarrow> advance cap (slab_name s @ [LF]) st;
          if over then Some st
          else do {
            (over, st) \<leftarrow> each_node env cap dump_sz (cache_nodes s) st;
            if over then Some st
            else do {
              (over, st) \<leftarrow> advance cap [LF] st;
              if over then Some st else each_cache env cap dump_sz is st } } })"

definition md_dump_slabowner ::
  "slab_env \<Rightarrow> nat \<Rightarrow> nat \<Rightarrow> slab_state \<times> char arr \<Rightarrow> (slab_state \<times> char arr) option" where
  "md_dump_slabowner env cap dump_sz st = do {
     (ss, _, b) \<leftarrow> each_cache env cap dump_sz [0..<Suc KMALLOC_SHIFT_HIGH]
        (fst st, \<lparr>pb_buf = 0, pb_size = dump_sz, pb_offset = 0\<rparr>, snd st);
     Some (ss, b) }"

subsection \<open>The settings\<close>

text \<open>
  The loop of \<^verbatim>\<open>slab_owner_filter_write\<close>, with fuel.  The C \<^verbatim>\<open>int bit\<close> is doubled, with wrap-around, until it exceeds the
  filter as an unsigned long.  The index can leave its row of the array of caches, which has 14 entries; what is read there
  are the next rows, and \<open>kmalloc_caches\<close> stands for them too.
\<close>

datatype filter_result = Filter_Ok | Filter_Invalid | Filter_Running

fun slab_filter_loop :: "nat \<Rightarrow> slab_env \<Rightarrow> u64 \<Rightarrow> nat \<Rightarrow> u32 \<Rightarrow> filter_result" where
  "slab_filter_loop 0 env f i bt = Filter_Running"
| "slab_filter_loop (Suc fuel) env f i bt =
     (if f < scast bt then Filter_Ok
      else if f AND scast bt \<noteq> 0 \<and> kmalloc_caches env i = None then Filter_Invalid
      else slab_filter_loop fuel env f (i + 1) (bt * 2))"

text \<open>\<open>None\<close> is a call that does not return: a loop that is still running after 33 rounds never ends.\<close>

definition SLAB_FILTER_FUEL :: nat where "SLAB_FILTER_FUEL = 33"

definition slab_owner_filter_write :: "slab_env \<Rightarrow> u64 option \<Rightarrow> nat \<Rightarrow> slab_state \<Rightarrow> (int \<times> slab_state) option" where
  "slab_owner_filter_write env input count ss =
     (case input of
        None \<Rightarrow> Some (- EINVAL, ss)
      | Some f \<Rightarrow>
          (case slab_filter_loop SLAB_FILTER_FUEL env f 0 1 of
             Filter_Ok \<Rightarrow> Some (int count, ss\<lparr>slab_owner_filter := f\<rparr>)
           | Filter_Invalid \<Rightarrow> Some (- EINVAL, ss)
           | Filter_Running \<Rightarrow> None))"

definition slab_owner_filter_read :: "slab_state \<Rightarrow> string" where
  "slab_owner_filter_read ss = scnprintf_str 64 (''0x'' @ hex_str (unat (slab_owner_filter ss)) @ [LF])"

definition slab_owner_handle_write :: "nat \<Rightarrow> u64 option \<Rightarrow> nat \<Rightarrow> slab_state \<Rightarrow> int \<times> slab_state" where
  "slab_owner_handle_write dump_sz input count ss =
     (case input of
        None \<Rightarrow> (- EINVAL, ss)
      | Some n \<Rightarrow>
          if n = 0 \<or> dump_sz div 0x4000 < unat n then (int count, ss)
          else (int count, ss\<lparr>slab_owner_handles_size := unat n * 1024\<rparr>))"

definition slab_owner_handle_read :: "slab_state \<Rightarrow> string" where
  "slab_owner_handle_read ss = scnprintf_str 64 (dec_str (slab_owner_handles_size ss div 1024) @ '' KB'' @ [LF])"

text \<open>The part of \<^verbatim>\<open>md_debugfs_slabowner\<close> that sets the filter to the caches that exist.\<close>

definition default_filter :: "slab_env \<Rightarrow> slab_state \<Rightarrow> slab_state" where
  "default_filter env ss =
     fold (\<lambda>i ss. if kmalloc_caches env i = None then ss
        else ss\<lparr>slab_owner_filter := set_bit i (slab_owner_filter ss)\<rparr>) [0..<Suc KMALLOC_SHIFT_HIGH] ss"

subsection \<open>The loop over the filter\<close>

text \<open>
  For \<open>i < 31\<close> the bit is \<open>2\<^sup>i\<close>; for \<open>i = 31\<close> it is the least \<^verbatim>\<open>int\<close>, whose value as an unsigned long is
  \<open>0xFFFFFFFF80000000\<close>; after that it is 0.  A filter below that value ends the loop there at the latest.  A filter that is
  not below it has bits 31 to 63, and when the caches that the loop looks at exist, the loop goes on for ever with the bit 0.
\<close>

lemma scast_bit:
  assumes "i < 31"
  shows "scast (2 ^ i :: u32) = (2 ^ i :: u64)"
  by (rule bit_word_eqI) (use assms in \<open>auto simp: bit_simps min_def\<close>)

lemma bit_31: "(2 ^ 31 :: u32) = 0x80000000" "scast (0x80000000 :: u32) = (0xFFFFFFFF80000000 :: u64)"
    "(0xFFFFFFFF80000000 :: u64) = - 0x80000000" "(4294967296 :: u32) = 0"
  by simp_all

lemma filter_31:
  assumes "(0xFFFFFFFF80000000 :: u64) \<le> f"
  shows "bit f 31" and "f AND 0xFFFFFFFF80000000 \<noteq> 0"
proof -
  have "18446744071562067968 \<le> unat f" "unat f < 18446744073709551616"
    using assms unsigned_less [of f, where ?'a = nat] by (simp_all add: word_le_nat_alt)
  then have "unat f div 2147483648 = 8589934591" by linarith
  then have "bit (unat f) 31" by (simp add: bit_iff_odd)
  then show f: "bit f 31" by (simp add: bit_unsigned_iff)
  have "bit (0xFFFFFFFF80000000 :: u64) 31" by (simp add: bit_iff_odd word_div_def)
  with f have "bit (f AND 0xFFFFFFFF80000000) 31" by (simp add: bit_and_iff)
  then show "f AND 0xFFFFFFFF80000000 \<noteq> 0" by (metis bit_0_eq bot_apply bot_bool_def)
qed

text \<open>The caches that the bits of the filter from \<open>i\<close> up to \<open>n\<close> name exist.\<close>

definition caches_exist :: "slab_env \<Rightarrow> u64 \<Rightarrow> nat \<Rightarrow> nat \<Rightarrow> bool" where
  "caches_exist env f i n \<longleftrightarrow> (\<forall>j \<in> {i..<n}. bit f j \<longrightarrow> kmalloc_caches env j \<noteq> None)"

lemma caches_exist_Suc:
  "i < n \<Longrightarrow> caches_exist env f i n \<longleftrightarrow> (bit f i \<longrightarrow> kmalloc_caches env i \<noteq> None) \<and> caches_exist env f (Suc i) n"
  unfolding caches_exist_def by (subst atLeastLessThan_eq_atLeastAtMost_diff) (auto simp: le_less Suc_le_eq)

lemma unat_exp: "i < 64 \<Longrightarrow> unat (2 ^ i :: u64) = 2 ^ i"
proof -
  assume "i < 64"
  then have "(2 :: nat) ^ i < 2 ^ 64" by (intro power_strict_increasing) auto
  then have "unat (of_nat (2 ^ i) :: u64) = 2 ^ i" by (subst unat_of_nat) simp
  then show ?thesis by simp
qed

lemma no_bits_above: "f < (2 ^ i :: u64) \<Longrightarrow> i < 64 \<Longrightarrow> i \<le> j \<Longrightarrow> \<not> bit f j"
proof
  assume "f < 2 ^ i" "i < 64" "i \<le> j" "bit f j"
  then have "bit (unat f) j" and "unat f < 2 ^ i" by (simp_all add: bit_unsigned_iff word_less_nat_alt unat_exp)
  then have "bit (take_bit i (unat f)) j" by (simp add: take_bit_nat_eq_self)
  with \<open>i \<le> j\<close> show False by (simp add: bit_take_bit_iff)
qed

lemma slab_filter_loop_ends:
  assumes "f < 0xFFFFFFFF80000000"
  shows "i \<le> 31 \<Longrightarrow> 32 - i \<le> fuel \<Longrightarrow>
    slab_filter_loop fuel env f i (2 ^ i) = (if caches_exist env f i 31 then Filter_Ok else Filter_Invalid)"
proof (induction fuel arbitrary: i)
  case (Suc fuel)
  show ?case
  proof (cases "i = 31")
    case True
    then show ?thesis using assms [unfolded bit_31(3)] by (simp add: caches_exist_def)
  next
    case False
    then have i: "i < 31" using Suc.prems by simp
    note bt = scast_bit [OF i]
    show ?thesis
    proof (cases "f < 2 ^ i")
      case True
      then have "caches_exist env f i 31" using no_bits_above [of f i] i by (auto simp: caches_exist_def)
      with True bt show ?thesis by simp
    next
      case False
      with Suc.IH [of "i + 1"] Suc.prems i bt show ?thesis
        by (simp add: caches_exist_Suc [OF i, of env f] and_exp_eq_0_iff_not_bit mult.commute)
    qed
  qed
qed simp

lemma slab_filter_loop_zero: "slab_filter_loop fuel env f i 0 = Filter_Running"
  by (induction fuel arbitrary: i) simp_all

lemma slab_filter_loop_large:
  assumes f: "0xFFFFFFFF80000000 \<le> f"
  shows "i \<le> 31 \<Longrightarrow> (caches_exist env f i 32 \<longrightarrow> slab_filter_loop fuel env f i (2 ^ i) = Filter_Running) \<and>
    (\<not> caches_exist env f i 32 \<longrightarrow> 32 - i \<le> fuel \<longrightarrow> slab_filter_loop fuel env f i (2 ^ i) = Filter_Invalid)"
proof (induction fuel arbitrary: i)
  case (Suc fuel)
  show ?case
  proof (cases "i = 31")
    case True
    have "caches_exist env f 31 32 \<longleftrightarrow> kmalloc_caches env 31 \<noteq> None"
      using filter_31(1) [OF f] caches_exist_Suc [of 31 32 env f] by (simp add: caches_exist_def)
    then show ?thesis
      using True f [unfolded bit_31(3)] filter_31(2) [OF f, unfolded bit_31(3)]
      by (auto simp: bit_31(4) not_less slab_filter_loop_zero)
  next
    case False
    then have i: "i < 31" using Suc.prems by simp
    note bt = scast_bit [OF i]
    have "(2 :: nat) ^ i \<le> 2 ^ 30" using i by (intro power_increasing) auto
    then have "(2 ^ i :: u64) \<le> f" using f i by (simp add: word_le_nat_alt unat_exp)
    with Suc.IH [of "i + 1"] i bt show ?thesis
      by (auto simp add: caches_exist_Suc [of i 32 env f] and_exp_eq_0_iff_not_bit mult.commute not_less)
  qed
qed simp

lemma filter_write_ends:
  assumes "f < 0xFFFFFFFF80000000"
  shows "slab_owner_filter_write env (Some f) count ss =
    Some (if caches_exist env f 0 31 then (int count, ss\<lparr>slab_owner_filter := f\<rparr>) else (- EINVAL, ss))"
  using slab_filter_loop_ends [OF assms, of 0 SLAB_FILTER_FUEL env]
  by (simp add: SLAB_FILTER_FUEL_def slab_owner_filter_write_def)

subsection \<open>The dump of a large cache leaves its region\<close>

text \<open>
  The buffer moves behind the name of the cache, but the size is still that of the whole region.  Each record
  makes progress, and the one that reaches the size is written beyond the region.
\<close>

lemma scnprintf_at_bound:
  assumes "scnprintf_at cap off sz out b = Some (n, b')" and "0 < sz"
  shows "n = length (scnprintf_str sz out) \<and> off + n < cap"
proof -
  have "length (snprintf_str sz out) = length (scnprintf_str sz out) + 1"
    using assms(2) by (simp add: snprintf_str_def scnprintf_str_def)
  with assms show ?thesis
    by (auto simp: scnprintf_at_def put_chars_def snprintf_str_def elim!: bind_SomeE split: if_splits)
qed

lemma track_entries_bound:
  assumes "track_entries env cap off sz ret es b = Some (n, b')" and "off + ret < cap" and "ret < sz"
  shows "ret \<le> n \<and> n < sz \<and> off + n < cap"
  using assms
proof (induction es arbitrary: ret b)
  case (Cons e es)
  obtain m b1 where m: "scnprintf_at cap (off + ret) (sz - ret) (obj_str env e @ [LF]) b = Some (m, b1)"
    using Cons.prems(1) by (auto elim!: bind_SomeE)
  with scnprintf_at_bound [OF m] Cons.prems(3) length_scnprintf_str [of "sz - ret" "obj_str env e @ [LF]"]
  have "off + (ret + m) < cap" "ret + m < sz" by auto
  moreover have "if int (ret + m) = int sz - 1 then n = ret + m
      else track_entries env cap off sz (ret + m) es b1 = Some (n, b')"
    using Cons.prems(1) m by (auto simp: Let_def split: if_splits)
  ultimately show ?case using Cons.IH [of "ret + m" b1] by (auto split: if_splits)
qed simp

lemma scnprintf_at_progress:
  assumes "scnprintf_at cap off sz (xs @ [LF]) b = Some (n, b')" and "0 < sz" and "cap < off + sz"
  shows "0 < n \<and> n < sz \<and> off + n < cap"
  using scnprintf_at_bound [OF assms(1,2)] assms(3) by (auto simp: scnprintf_str_def)

lemma track_record_progress:
  assumes run: "track_record env cap off sz obj handle entries found b = Some (n, b')" and sz: "0 < sz" "cap < off + sz"
  shows "0 < n \<and> off + n < cap"
proof -
  have line: "\<exists>xs. track_line env obj handle k = xs @ [LF]" for k by (auto simp: track_line_def)
  let ?line = "track_line env obj handle (if found then 0 else length entries)"
  from run obtain m b1 where m: "scnprintf_at cap off sz ?line b = Some (m, b1)"
    and rest: "n = m \<or> track_entries env cap off sz m entries b1 = Some (n, b')"
    by (cases found) (auto simp: track_record_def elim!: bind_SomeE split: if_split_asm)
  obtain xs where "?line = xs @ [LF]" using line by blast
  with m have "0 < m \<and> m < sz \<and> off + m < cap" using scnprintf_at_progress [OF _ sz] by metis
  with rest track_entries_bound [of env cap off sz m entries b1 n b'] show ?thesis by auto
qed

lemma dump_tracking_progress:
  assumes run: "dump_tracking env cap dump_sz obj t (ss, pb, b) = Some (ss', pb', b')"
    and t: "track_addr t \<noteq> 0" and pb: "pb_offset pb + 1 < pb_size pb" "cap < pb_buf pb + pb_size pb"
  shows "\<exists>n > 0. pb_offset pb + n + 1 < pb_size pb \<and> pb' = pb\<lparr>pb_offset := pb_offset pb + n\<rparr>"
proof -
  let ?off = "pb_buf pb + pb_offset pb" and ?sz = "pb_size pb - pb_offset pb"
  have sz: "0 < ?sz" "cap < ?off + ?sz" using pb by simp_all
  have "\<exists>n. pb' = pb\<lparr>pb_offset := pb_offset pb + n\<rparr> \<and> 0 < n \<and> ?off + n < cap"
  proof (cases "config_stacktrace env")
    case False
    with run t show ?thesis
      using scnprintf_at_progress [OF _ sz, where xs = "obj_str env obj @ '' '' @ obj_str env (track_addr t)"]
      by (auto simp: dump_tracking_def elim!: bind_SomeE)
  next
    case True
    with run t show ?thesis
      using track_record_progress [OF _ sz] by (auto simp: dump_tracking_def Let_def elim!: bind_SomeE)
  qed
  then show ?thesis using pb by auto
qed

text \<open>\<open>tracked\<close> counts the objects that have a record.\<close>

definition tracked :: "slab_page \<Rightarrow> nat" where
  "tracked pg = length (filter (\<lambda>(obj, t). track_addr t \<noteq> 0) pg)"

lemma each_object_progress:
  assumes "each_object env cap dump_sz pg (ss, pb, b) = Some (ss', pb', b')"
    and "pb_offset pb + 1 < pb_size pb" "cap < pb_buf pb + pb_size pb"
  shows "\<exists>n \<ge> tracked pg. pb_offset pb + n + 1 < pb_size pb \<and> pb' = pb\<lparr>pb_offset := pb_offset pb + n\<rparr>"
  using assms
proof (induction pg arbitrary: ss pb b)
  case Nil
  then show ?case by (auto simp: tracked_def intro!: exI [of _ 0])
next
  case (Cons x pg)
  obtain obj t where x: "x = (obj, t)" by (cases x)
  from Cons.prems(1) obtain ss1 pb1 b1 where
    one: "dump_tracking env cap dump_sz obj t (ss, pb, b) = Some (ss1, pb1, b1)"
    and rest: "each_object env cap dump_sz pg (ss1, pb1, b1) = Some (ss', pb', b')"
    by (auto simp: x elim!: bind_SomeE)
  show ?case
  proof (cases "track_addr t = 0")
    case True
    then have "(ss1, pb1, b1) = (ss, pb, b)" using one by (simp add: dump_tracking_def)
    with True rest Cons.IH [of ss pb b] Cons.prems(2,3) show ?thesis by (auto simp: tracked_def x)
  next
    case False
    from dump_tracking_progress [OF one False Cons.prems(2,3)] obtain k where k: "0 < k" "pb_offset pb + k + 1 < pb_size pb"
      "pb1 = pb\<lparr>pb_offset := pb_offset pb + k\<rparr>" by blast
    from Cons.IH [OF rest] k Cons.prems(3) obtain n where "tracked pg \<le> n" "pb_offset pb + k + n + 1 < pb_size pb"
      "pb' = pb1\<lparr>pb_offset := pb_offset pb + k + n\<rparr>" by auto
    with k False show ?thesis by (intro exI [of _ "k + n"]) (auto simp: tracked_def x)
  qed
qed

lemma each_page_progress:
  assumes "each_page env cap dump_sz pgs (ss, pb, b) = Some (over, ss', pb', b')"
    and "pb_offset pb + 1 < pb_size pb" "cap < pb_buf pb + pb_size pb"
  shows "\<exists>n \<ge> sum_list (map tracked pgs). pb_offset pb + n + 1 < pb_size pb \<and> pb' = pb\<lparr>pb_offset := pb_offset pb + n\<rparr>"
  using assms
proof (induction pgs arbitrary: ss pb b)
  case (Cons pg pgs)
  from Cons.prems(1) obtain ss1 pb1 b1 where
    one: "each_object env cap dump_sz pg (ss, pb, b) = Some (ss1, pb1, b1)"
    and rest: "if exhausted (ss1, pb1, b1) then (over, ss', pb', b') = (True, ss1, pb1, b1)
       else each_page env cap dump_sz pgs (ss1, pb1, b1) = Some (over, ss', pb', b')"
    by (auto elim!: bind_SomeE split: if_split_asm)
  from each_object_progress [OF one Cons.prems(2,3)] obtain k where k: "tracked pg \<le> k" "pb_offset pb + k + 1 < pb_size pb"
    "pb1 = pb\<lparr>pb_offset := pb_offset pb + k\<rparr>" by blast
  then have "\<not> exhausted (ss1, pb1, b1)" by (simp add: exhausted_def)
  with rest Cons.IH [of ss1 pb1 b1] k Cons.prems(3) obtain n where n: "sum_list (map tracked pgs) \<le> n"
    "pb_offset pb + k + n + 1 < pb_size pb" "pb' = pb1\<lparr>pb_offset := pb_offset pb + k + n\<rparr>" by auto
  with k show ?case by (intro exI [of _ "k + n"]) auto
qed (auto intro!: exI [of _ 0])

text \<open>A cache with more tracked objects than the region has bytes makes the dump leave the region.\<close>

lemma md_dump_slabowner_overrun:
  assumes f: "bit (slab_owner_filter ss) i" "\<forall>j < i. \<not> bit (slab_owner_filter ss) j" "i \<le> KMALLOC_SHIFT_HIGH"
    and s: "kmalloc_caches env i = Some s" "length (slab_name s) + 2 < dump_sz"
    and n: "cache_nodes s = nd # nds" "nr_slabs nd \<noteq> 0" "dump_sz \<le> sum_list (map tracked (node_partial nd))"
  shows "md_dump_slabowner env dump_sz dump_sz (ss, b) = None"
proof -
  let ?st = "(ss, \<lparr>pb_buf = 0, pb_size = dump_sz, pb_offset = 0\<rparr>, b)" and ?h = "slab_name s @ [LF]"
  have skip: "each_cache env cap dump_sz ([j..<i] @ is) st = each_cache env cap dump_sz is st" if "fst st = ss" "j \<le> i" for cap j "is" st
    using that(2)
  proof (induction "i - j" arbitrary: j)
    case (Suc k)
    then have "j < i" "[j..<i] = j # [Suc j..<i]" by (auto simp: upt_conv_Cons)
    with Suc f(2) that(1) show ?case by auto
  qed simp
  have up: "[0..<Suc KMALLOC_SHIFT_HIGH] = [0..<i] @ i # [Suc i..<Suc KMALLOC_SHIFT_HIGH]"
    using f(3) upt_add_eq_append [of 0 i "Suc KMALLOC_SHIFT_HIGH - i"] by (simp add: upt_conv_Cons del: upt_Suc)
  obtain b1 where b1: "scnprintf_at dump_sz 0 dump_sz ?h b = Some (length ?h, b1)"
    using s(2) by (simp add: scnprintf_at_def put_chars_def snprintf_str_def scnprintf_str_def)
  let ?pb = "\<lparr>pb_buf = length ?h, pb_size = dump_sz, pb_offset = 0\<rparr>"
  have adv: "advance dump_sz ?h ?st = Some (False, ss, ?pb, b1)"
    using b1 s(2) by (simp add: advance_def)
  have "each_page env dump_sz dump_sz (node_partial nd) (ss, ?pb, b1) = None"
  proof (rule ccontr)
    assume "each_page env dump_sz dump_sz (node_partial nd) (ss, ?pb, b1) \<noteq> None"
    then obtain ov ss' pb' b' where "each_page env dump_sz dump_sz (node_partial nd) (ss, ?pb, b1) = Some (ov, ss', pb', b')" by auto
    from each_page_progress [OF this] s(2) n(3) show False by auto
  qed
  then have "each_node env dump_sz dump_sz (cache_nodes s) (ss, ?pb, b1) = None" using n by simp
  then have "each_cache env dump_sz dump_sz [0..<Suc KMALLOC_SHIFT_HIGH] ?st = None"
    unfolding up using skip [of ?st 0 dump_sz "i # [Suc i..<Suc KMALLOC_SHIFT_HIGH]"] f(1) s(1) adv
    by (simp del: upt_Suc)
  then show ?thesis by (simp add: md_dump_slabowner_def del: upt_Suc)
qed

end
