(* ===== verification/Debug_Files.thy ===== *)
theory Debug_Files
  imports Mem_Resize Slab_Owner
begin

text \<open>
  The files in debugfs through which the memory dumps of \<^verbatim>\<open>minidump/minidump_memory.c\<close> are set up: the files of each dump,
  created with the dump, and the handlers that their \<^verbatim>\<open>file_operations\<close> name.
\<close>

subsection \<open>Files\<close>

datatype debugfs_file =
    Page_Owner_Dump_Size | Page_Owner_Filter | Page_Owner_Handles_Size | Page_Owner_Call_Sites
  | Slab_Owner_Dump_Size | Slab_Owner_Filter | Slab_Owner_Handles_Size
  | Dma_Buf_Info_Size | Dma_Buf_Procs_Size

primrec file_name :: "debugfs_file \<Rightarrow> string" where
  "file_name Page_Owner_Dump_Size = ''page_owner_dump_size_mb''"
| "file_name Page_Owner_Filter = ''page_owner_filter''"
| "file_name Page_Owner_Handles_Size = ''page_owner_handles_size_kb''"
| "file_name Page_Owner_Call_Sites = ''page_owner_call_sites''"
| "file_name Slab_Owner_Dump_Size = ''slab_owner_dump_size_mb''"
| "file_name Slab_Owner_Filter = ''slab_owner_filter''"
| "file_name Slab_Owner_Handles_Size = ''slab_owner_handles_size_kb''"
| "file_name Dma_Buf_Info_Size = ''dma_buf_info_size_mb''"
| "file_name Dma_Buf_Procs_Size = ''dma_buf_procs_size_mb''"

type_synonym debugfs_dir = "debugfs_file list"

definition md_debugfs_pageowner :: "debugfs_dir \<Rightarrow> debugfs_dir" where
  "md_debugfs_pageowner dir = dir @ [Page_Owner_Dump_Size, Page_Owner_Filter, Page_Owner_Handles_Size, Page_Owner_Call_Sites]"

definition md_debugfs_slabowner :: "slab_env \<Rightarrow> debugfs_dir \<times> slab_state \<Rightarrow> debugfs_dir \<times> slab_state" where
  "md_debugfs_slabowner env st =
     (fst st @ [Slab_Owner_Dump_Size, Slab_Owner_Filter, Slab_Owner_Handles_Size], default_filter env (snd st))"

definition md_debugfs_dmabufinfo :: "debugfs_dir \<Rightarrow> debugfs_dir" where
  "md_debugfs_dmabufinfo dir = dir @ [Dma_Buf_Info_Size]"

definition md_debugfs_dmabufprocs :: "debugfs_dir \<Rightarrow> debugfs_dir" where
  "md_debugfs_dmabufprocs dir = dir @ [Dma_Buf_Procs_Size]"

subsection \<open>Reading and writing\<close>

text \<open>
  What a user writes: the bytes, if they can be copied, their number, and what \<^verbatim>\<open>kstrtoull_from_user\<close> makes of them.
  \<open>uw_alloc\<close> is the outcome of an allocation.
\<close>

record user_write =
  uw_bytes :: "string option"
  uw_count :: nat
  uw_number :: "u64 option"
  uw_alloc :: bool

text \<open>The settings: of the page owner dump, of the slab owner dump, and the buffers.\<close>

type_synonym settings = "owner_state \<times> slab_state \<times> mem_state"

definition on_owner :: "int \<times> owner_state \<Rightarrow> settings \<Rightarrow> (int \<times> settings) option" where
  "on_owner r s = Some (fst r, snd r, snd s)"

definition on_mem :: "(int \<times> mem_state) option \<Rightarrow> settings \<Rightarrow> (int \<times> settings) option" where
  "on_mem r s = map_option (\<lambda>(n, m). (n, fst s, fst (snd s), m)) r"

definition on_slab :: "(int \<times> slab_state) option \<Rightarrow> settings \<Rightarrow> (int \<times> settings) option" where
  "on_slab r s = map_option (\<lambda>(n, ss). (n, fst s, ss, snd (snd s))) r"

fun debugfs_write :: "mem_env \<Rightarrow> slab_env \<Rightarrow> debugfs_file \<times> user_write \<Rightarrow> settings \<Rightarrow> (int \<times> settings) option" where
  "debugfs_write env senv (Page_Owner_Dump_Size, w) s =
     on_mem (page_owner_dump_size_write env (uw_number w) (uw_count w) (snd (snd s))) s"
| "debugfs_write env senv (Page_Owner_Filter, w) s =
     on_owner (page_owner_filter_write (uw_number w) (uw_count w) (fst s)) s"
| "debugfs_write env senv (Page_Owner_Handles_Size, w) s =
     on_owner (page_owner_handle_write (unat (dump_size (snd (snd s)) PAGEOWNER)) (uw_number w) (uw_count w) (fst s)) s"
| "debugfs_write env senv (Page_Owner_Call_Sites, w) s =
     on_owner (page_owner_call_site_write (uw_alloc w) (uw_bytes w) (uw_count w) (fst s)) s"
| "debugfs_write env senv (Slab_Owner_Dump_Size, w) s =
     on_mem (slab_owner_dump_size_write env (uw_number w) (uw_count w) (snd (snd s))) s"
| "debugfs_write env senv (Slab_Owner_Filter, w) s =
     on_slab (slab_owner_filter_write senv (uw_number w) (uw_count w) (fst (snd s))) s"
| "debugfs_write env senv (Slab_Owner_Handles_Size, w) s =
     on_slab (Some (slab_owner_handle_write (unat (dump_size (snd (snd s)) SLABOWNER)) (uw_number w) (uw_count w) (fst (snd s)))) s"
| "debugfs_write env senv (Dma_Buf_Info_Size, w) s =
     on_mem (dma_buf_info_size_write env (uw_number w) (uw_count w) (snd (snd s))) s"
| "debugfs_write env senv (Dma_Buf_Procs_Size, w) s =
     on_mem (dma_buf_procs_size_write env (uw_number w) (uw_count w) (snd (snd s))) s"

text \<open>Reading returns the text that \<^verbatim>\<open>simple_read_from_buffer\<close> hands out, or an error.\<close>

fun debugfs_read :: "bool \<Rightarrow> nat \<Rightarrow> debugfs_file \<Rightarrow> settings \<Rightarrow> int + string" where
  "debugfs_read alloc count Page_Owner_Dump_Size s = Inr (page_owner_dump_size_read (snd (snd s)))"
| "debugfs_read alloc count Page_Owner_Filter s = Inr (page_owner_filter_read (fst s))"
| "debugfs_read alloc count Page_Owner_Handles_Size s = Inr (page_owner_handle_read (fst s))"
| "debugfs_read alloc count Page_Owner_Call_Sites s = page_owner_call_site_read alloc count (fst s)"
| "debugfs_read alloc count Slab_Owner_Dump_Size s = Inr (slab_owner_dump_size_read (snd (snd s)))"
| "debugfs_read alloc count Slab_Owner_Filter s = Inr (slab_owner_filter_read (fst (snd s)))"
| "debugfs_read alloc count Slab_Owner_Handles_Size s = Inr (slab_owner_handle_read (fst (snd s)))"
| "debugfs_read alloc count Dma_Buf_Info_Size s = Inr (dma_buf_info_size_read (snd (snd s)))"
| "debugfs_read alloc count Dma_Buf_Procs_Size s = Inr (dma_buf_procs_size_read (snd (snd s)))"

end
