(* ===== verification/Page_Text.thy ===== *)
theory Page_Text
  imports Page_Owner
begin

text \<open>
  What the page owner dump says: with the default filter, as long as the text stays in front of the handle table, it
  holds one record for every allocated page, in order, with the stack at the first page that has it.
\<close>

subsection \<open>The text as a function of the pages\<close>

text \<open>
  The text of the dump as a function of the pages: \<open>seen\<close> are the handles in the table, which has room for \<open>q\<close>.
\<close>

function pages_from :: "owner_env \<Rightarrow> nat \<Rightarrow> (nat \<times> u32) list" where
  "pages_from env pfn =
     (if max_pfn env \<le> pfn then []
      else case page_verdict env pfn of
        Skip n \<Rightarrow> pages_from env (n + 1)
      | Dump h \<Rightarrow> (pfn, h) # pages_from env (pfn + 1))"
  by pat_completeness auto
termination
  by (relation "measure (\<lambda>(env, pfn). max_pfn env - pfn)") (auto dest: page_verdict_Skip)

declare pages_from.simps [simp del]

definition entries_text :: "owner_env \<Rightarrow> u64 list \<Rightarrow> string" where
  "entries_text env es = concat (map (\<lambda>e. ptr_str env e @ [LF]) es)"

definition page_text :: "owner_env \<Rightarrow> u32 list \<Rightarrow> nat \<Rightarrow> u32 \<Rightarrow> string" where
  "page_text env seen pfn h = (if h \<in> set seen then owner_line pfn h 0
     else owner_line pfn h (length (depot_fetch env h)) @ entries_text env (depot_fetch env h))"

definition see :: "nat \<Rightarrow> u32 list \<Rightarrow> u32 \<Rightarrow> u32 list" where
  "see q seen h = (if h \<in> set seen \<or> q \<le> length seen then seen else seen @ [h])"

fun owner_text :: "owner_env \<Rightarrow> nat \<Rightarrow> u32 list \<Rightarrow> (nat \<times> u32) list \<Rightarrow> string" where
  "owner_text env q seen [] = []"
| "owner_text env q seen ((pfn, h) # ps) = page_text env seen pfn h @ owner_text env q (see q seen h) ps"

subsection \<open>The handle table\<close>

lemma get_int_write:
  assumes "0 \<le> off" "off + 4 \<le> int cap"
  shows "get_int cap (arr_write b (nat off) (int_bytes w)) off = Some w"
proof -
  let ?n = "unat w" and ?b = "arr_write b (nat off) (int_bytes w)"
  have m: "of_char (char_of k :: char) = (k mod 256 :: nat)" for k by simp
  have bytes: "?b (nat off) = char_of ?n" "?b (nat off + 1) = char_of (?n div 256)"
    "?b (nat off + 2) = char_of (?n div 65536)" "?b (nat off + 3) = char_of (?n div 16777216)"
    by (simp_all add: arr_write_def int_bytes_def Let_def)
  have n: "?n < 2 ^ 32" using unsigned_less [of w] by simp
  define a c d where "a = ?n div 256" and "c = a div 256" and "d = c div 256"
  have abc: "?n div 65536 = c" "?n div 16777216 = d" by (simp_all add: a_def c_def d_def div_mult2_eq [symmetric])
  have "d < 256" unfolding abc(2) [symmetric] using n by (simp add: div_less_iff_less_mult)
  then have "d mod 256 = d" by simp
  moreover have "?n = ?n mod 256 + 256 * a" "a = a mod 256 + 256 * c" "c = c mod 256 + 256 * d"
    unfolding a_def c_def d_def by simp_all
  ultimately have eq: "?n mod 256 + 256 * (?n div 256 mod 256) + 65536 * (?n div 65536 mod 256) + 16777216 * (?n div 16777216 mod 256) = ?n"
    unfolding abc a_def [symmetric] by linarith
  show ?thesis unfolding get_int_def Let_def bytes m eq using assms by simp
qed

lemma get_int_same:
  assumes "same_outside lo hi b b'" and "off + 4 \<le> int lo \<or> int hi \<le> off" and "0 \<le> off"
  shows "get_int cap b' off = get_int cap b off"
  using assms by (auto simp: get_int_def Let_def same_outside_def nat_less_iff le_nat_iff)

definition handles_rep :: "nat \<Rightarrow> int \<Rightarrow> u32 list \<Rightarrow> char arr \<Rightarrow> bool" where
  "handles_rep cap base seen b \<longleftrightarrow> (\<forall>i < length seen. get_int cap b (base + 4 * int i) = Some (seen ! i))"

lemma scan_handles_rep:
  "handles_rep cap base seen b \<Longrightarrow> i + n = length seen \<Longrightarrow>
   scan_handles cap base h i n b = Some (h \<in> set (drop i seen))"
proof (induction n arbitrary: i)
  case (Suc n)
  then have "drop i seen = seen ! i # drop (Suc i) seen" by (simp add: Cons_nth_drop_Suc)
  with Suc show ?case by (auto simp: handles_rep_def)
qed simp

lemma found_stack_rep:
  assumes rep: "handles_rep cap (int dump_sz - int (page_owner_handles_size os)) seen b" and n: "nr_handles os = length seen"
    and q: "page_owner_handles_size os = 4 * q" "4 * q \<le> dump_sz" "dump_sz \<le> cap"
  shows "\<exists>b'. found_stack cap dump_sz h (os, b) = Some (h \<in> set seen, os\<lparr>nr_handles := length (see q seen h)\<rparr>, b') \<and>
     handles_rep cap (int dump_sz - int (page_owner_handles_size os)) (see q seen h) b' \<and>
     same_outside (dump_sz - 4 * q) dump_sz b b'"
proof -
  let ?base = "int dump_sz - int (page_owner_handles_size os)"
  have scan: "scan_handles cap ?base h 0 (nr_handles os) b = Some (h \<in> set seen)"
    using scan_handles_rep [OF rep, of 0 "length seen" h] n by simp
  have keep: "os\<lparr>nr_handles := length seen\<rparr> = os" using n by simp
  show ?thesis
  proof (cases "h \<in> set seen \<or> q \<le> length seen")
    case True
    then show ?thesis using scan rep n q(1) keep by (auto simp: found_stack_def see_def)
  next
    case False
    let ?off = "?base + 4 * int (length seen)"
    let ?b = "arr_write b (nat ?off) (int_bytes h)"
    have off: "0 \<le> ?off" "nat ?off = dump_sz - 4 * q + 4 * length seen" "?off + 4 \<le> int dump_sz"
      using q False by linarith+
    have len: "length (int_bytes h) = 4" by (simp add: int_bytes_def Let_def)
    have put: "put_int cap ?off h b = Some ?b" using off len q(3) by (auto simp: put_int_def put_chars_def)
    have same: "same_outside (nat ?off) dump_sz b ?b" using off len by (auto simp: same_outside_def arr_write_def)
    have "get_int cap ?b (?base + 4 * int i) = Some ((seen @ [h]) ! i)" if "i < length (seen @ [h])" for i
    proof (cases "i = length seen")
      case True
      then show ?thesis using get_int_write [OF off(1), of cap b h] off q by simp
    next
      case no: False
      then have "get_int cap ?b (?base + 4 * int i) = get_int cap b (?base + 4 * int i)"
        using that off q by (intro get_int_same [OF same]) auto
      then show ?thesis using rep that no by (simp add: handles_rep_def nth_append)
    qed
    moreover have "same_outside (dump_sz - 4 * q) dump_sz b ?b" using same off by (auto elim: same_outside_mono)
    ultimately show ?thesis using False scan put n q(1)
      by (auto simp: found_stack_def see_def handles_rep_def)
  qed
qed

lemma scnprintf_at_exact:
  assumes "length out < sz" and "off + length out + 1 \<le> cap"
  shows "\<exists>b'. scnprintf_at cap off sz out b = Some (length out, b') \<and>
     arr_list b' (off + length out) = arr_list b off @ out \<and> same_outside off (off + length out + 1) b b'"
proof -
  let ?b = "arr_write b off (out @ [NUL])"
  have "snprintf_str sz out = out @ [NUL]" "scnprintf_str sz out = out"
    using assms by (simp_all add: snprintf_str_def scnprintf_str_def)
  then have "scnprintf_at cap off sz out b = Some (length out, ?b)"
    using assms by (simp add: scnprintf_at_def put_chars_def)
  moreover have "arr_list ?b (off + length out) = arr_list b off @ out"
    by (auto simp: list_eq_iff_nth_eq nth_append arr_write_def)
  moreover have "same_outside off (off + length out + 1) b ?b" by (auto simp: same_outside_def arr_write_def)
  ultimately show ?thesis by blast
qed

lemma dump_entries_text:
  assumes "ret + length (entries_text env es) + 1 < count" and "off + count \<le> cap"
  shows "\<exists>b'. dump_entries env cap off count ret es b = Some (ret + length (entries_text env es), b') \<and>
     arr_list b' (off + ret + length (entries_text env es)) = arr_list b (off + ret) @ entries_text env es \<and>
     same_outside (off + ret) (off + ret + length (entries_text env es) + 1) b b'"
  using assms
proof (induction es arbitrary: ret b)
  case (Cons e es)
  let ?out = "ptr_str env e @ [LF]" and ?r = "ret + length (ptr_str env e @ [LF])"
  have split: "entries_text env (e # es) = ?out @ entries_text env es" by (simp add: entries_text_def)
  obtain b1 where b1: "scnprintf_at cap (off + ret) (count - ret) ?out b = Some (length ?out, b1)"
    "arr_list b1 (off + ret + length ?out) = arr_list b (off + ret) @ ?out"
    "same_outside (off + ret) (off + ret + length ?out + 1) b b1"
    using scnprintf_at_exact [of ?out "count - ret" "off + ret" cap b] Cons.prems unfolding split by fastforce
  have "?r + length (entries_text env es) + 1 < count" using Cons.prems(1) unfolding split by simp
  from Cons.IH [OF this Cons.prems(2), of b1] obtain b' where
    b': "dump_entries env cap off count ?r es b1 = Some (?r + length (entries_text env es), b')"
     "arr_list b' (off + ?r + length (entries_text env es)) = arr_list b1 (off + ?r) @ entries_text env es"
     "same_outside (off + ?r) (off + ?r + length (entries_text env es) + 1) b1 b'" by blast
  have ne: "int ?r \<noteq> int count - 1" using Cons.prems(1) unfolding split by simp
  have "dump_entries env cap off count ret (e # es) b = Some (?r + length (entries_text env es), b')"
    using b1(1) b'(1) ne by (simp del: of_nat_add)
  moreover have "same_outside (off + ret) (off + ret + length (entries_text env (e # es)) + 1) b b'"
    using b1(3) b'(3) unfolding split
    by (auto intro!: same_outside_trans [of _ _ b b1 b'] elim: same_outside_mono)
  ultimately show ?case using b1(2) b'(2) unfolding split by (simp add: add.assoc)
qed (simp add: entries_text_def)


lemma arr_list_same:
  assumes "same_outside lo hi b b'" and "n \<le> lo"
  shows "arr_list b' n = arr_list b n"
  using assms by (auto simp: same_outside_def intro: arr_seg_cong)

lemma handles_rep_same:
  assumes "handles_rep cap base seen b" and "same_outside lo hi b b'" and "int hi \<le> base"
  shows "handles_rep cap base seen b'"
  unfolding handles_rep_def
proof (intro allI impI)
  fix i assume "i < length seen"
  moreover have "get_int cap b' (base + 4 * int i) = get_int cap b (base + 4 * int i)"
    using assms(3) by (intro get_int_same [OF assms(2)]) auto
  ultimately show "get_int cap b' (base + 4 * int i) = Some (seen ! i)" using assms(1) by (simp add: handles_rep_def)
qed

subsection \<open>The dump writes that text\<close>

text \<open>
  The state of a dump with the default filter that has written \<open>tx\<close> and the handles \<open>seen\<close>.
\<close>

definition dump_rep :: "nat \<Rightarrow> nat \<Rightarrow> nat \<Rightarrow> u32 list \<Rightarrow> string \<Rightarrow> owner_state \<times> char arr \<Rightarrow> bool" where
  "dump_rep cap dump_sz q seen tx st \<longleftrightarrow> page_owner_filter (fst st) = 0xF \<and>
     page_owner_handles_size (fst st) = 4 * q \<and> nr_handles (fst st) = length seen \<and>
     handles_rep cap (int dump_sz - 4 * int q) seen (snd st) \<and> arr_list (snd st) (length tx) = tx"

lemma dump_page_text:
  assumes rep: "dump_rep cap dump_sz q seen tx st" and q: "0 < q" "4 * q \<le> dump_sz" "dump_sz \<le> cap"
    and fits: "length tx + length (page_text env seen pfn h) < dump_sz - 4 * q"
    and off: "length tx + count = dump_sz"
  shows "\<exists>st'. dump_page_owner_md env cap dump_sz (length tx) count pfn pg h st = Some (length (page_text env seen pfn h), st') \<and>
     dump_rep cap dump_sz q (see q seen h) (tx @ page_text env seen pfn h) st'"
proof -
  obtain os b where st: "st = (os, b)" by (cases st)
  let ?es = "depot_fetch env h" and ?off = "length tx" and ?base = "int dump_sz - 4 * int q"
  from rep have os: "page_owner_filter os = 0xF" "page_owner_handles_size os = 4 * q" "nr_handles os = length seen"
    and hr: "handles_rep cap ?base seen b" and tx: "arr_list b ?off = tx" by (simp_all add: dump_rep_def st)
  obtain b1 where b1: "found_stack cap dump_sz h (os, b) = Some (h \<in> set seen, os\<lparr>nr_handles := length (see q seen h)\<rparr>, b1)"
     "handles_rep cap ?base (see q seen h) b1" "same_outside (dump_sz - 4 * q) dump_sz b b1"
    using found_stack_rep [of cap dump_sz os seen b q h] hr os q by auto
  have tx1: "arr_list b1 ?off = tx" using arr_list_same [OF b1(3), of ?off] fits tx by simp
  have not_behind: "\<not> int dump_sz - int (page_owner_handles_size os) < int ?off" using fits os(2) q(2) by simp
  let ?n = "if h \<in> set seen then 0 else length ?es" and ?fs = "if h \<in> set seen then [] else ?es"
  let ?line = "owner_line pfn h ?n"
  have pt: "page_text env seen pfn h = ?line @ entries_text env ?fs" by (simp add: page_text_def entries_text_def)
  have count: "length (page_text env seen pfn h) + 1 < count" using fits off q by linarith
  obtain b2 where b2: "scnprintf_at cap ?off count ?line b1 = Some (length ?line, b2)"
     "arr_list b2 (?off + length ?line) = arr_list b1 ?off @ ?line" "same_outside ?off (?off + length ?line + 1) b1 b2"
    using scnprintf_at_exact [of ?line count ?off cap b1] count off q(3) unfolding pt by fastforce
  have "length ?line + length (entries_text env ?fs) + 1 < count" using count unfolding pt by simp
  from dump_entries_text [OF this, of ?off cap b2] obtain b3 where
    b3: "dump_entries env cap ?off count (length ?line) ?fs b2 = Some (length ?line + length (entries_text env ?fs), b3)"
     "arr_list b3 (?off + length ?line + length (entries_text env ?fs)) = arr_list b2 (?off + length ?line) @ entries_text env ?fs"
     "same_outside (?off + length ?line) (?off + length ?line + length (entries_text env ?fs) + 1) b2 b3"
    using off q(3) by auto
  have ne: "int (length ?line) \<noteq> int count - 1" using count unfolding pt by simp
  have fin: "int (?off + length ?line + length (entries_text env ?fs) + 1) \<le> ?base" "int (?off + length ?line + 1) \<le> ?base"
    using fits q(2) unfolding pt by simp_all
  have hr3: "handles_rep cap ?base (see q seen h) b3"
    by (rule handles_rep_same [OF handles_rep_same [OF b1(2) b2(3) fin(2)] b3(3) fin(1)])
  have "dump_page_owner_md env cap dump_sz ?off count pfn pg h (os, b) =
      Some (length (page_text env seen pfn h), os\<lparr>nr_handles := length (see q seen h)\<rparr>, b3)"
    using os(1) not_behind b1(1) b2(1) b3(1) ne unfolding pt
    by (cases "h \<in> set seen") (auto simp: dump_page_owner_md_def Let_def entries_text_def)
  then show ?thesis using os hr3 b3(2) b2(2) tx1 unfolding st
    by (auto simp: dump_rep_def pt add.assoc)
qed

lemma owner_loop_text:
  assumes "dump_rep cap dump_sz q seen tx st" and "0 < q" "4 * q \<le> dump_sz" "dump_sz \<le> cap"
    and "length tx + length (owner_text env q seen (pages_from env pfn)) < dump_sz - 4 * q"
    and "length tx + left = dump_sz"
  shows "\<exists>st' seen'. owner_loop env cap dump_sz pfn (length tx) left st = Some st' \<and>
     dump_rep cap dump_sz q seen' (tx @ owner_text env q seen (pages_from env pfn)) st'"
  using assms
proof (induction "max_pfn env - pfn" arbitrary: pfn tx left seen st rule: less_induct)
  case less
  show ?case
  proof (cases "max_pfn env \<le> pfn")
    case True
    then have "pages_from env pfn = []" by (subst pages_from.simps) simp
    with True less.prems(1) show ?thesis by (subst owner_loop.simps) auto
  next
    case False
    show ?thesis
    proof (cases "page_verdict env pfn")
      case (Skip n)
      then have lt: "max_pfn env - (n + 1) < max_pfn env - pfn" using page_verdict_Skip [OF Skip] False by linarith
      have "pages_from env pfn = pages_from env (n + 1)" using Skip False by (subst pages_from.simps) simp
      with less.hyps [OF lt less.prems(1-4) _ less.prems(6)] less.prems(5) Skip False show ?thesis
        by (subst owner_loop.simps) simp
    next
      case (Dump h)
      let ?t = "page_text env seen pfn h" and ?ps = "pages_from env (pfn + 1)"
      have ps: "pages_from env pfn = (pfn, h) # ?ps" using Dump False by (subst pages_from.simps) simp
      have "length tx + length ?t < dump_sz - 4 * q" using less.prems(5) by (simp add: ps)
      from dump_page_text [OF less.prems(1-4) this less.prems(6)] obtain st1 where
        st1: "dump_page_owner_md env cap dump_sz (length tx) left pfn (page_at env pfn) h st = Some (length ?t, st1)"
        "dump_rep cap dump_sz q (see q seen h) (tx @ ?t) st1" by blast
      have lt: "max_pfn env - (pfn + 1) < max_pfn env - pfn" using False by simp
      have "length (tx @ ?t) + length (owner_text env q (see q seen h) ?ps) < dump_sz - 4 * q"
        "length (tx @ ?t) + (left - length ?t) = dump_sz" using less.prems(5,6) by (simp_all add: ps)
      from less.hyps [OF lt st1(2) less.prems(2-4) this] obtain st' seen' where
        "owner_loop env cap dump_sz (pfn + 1) (length (tx @ ?t)) (left - length ?t) st1 = Some st'"
        "dump_rep cap dump_sz q seen' ((tx @ ?t) @ owner_text env q (see q seen h) ?ps) st'" by blast
      moreover have "int (length ?t) \<noteq> int left - 1" using less.prems(2,5,6) by (simp add: ps)
      ultimately show ?thesis using st1(1) Dump False
        by (subst owner_loop.simps) (auto simp: ps case_prod_unfold)
    qed
  qed
qed

end
