(* ===== verification/Dma_Buf.thy ===== *)
theory Dma_Buf
  imports Slab_Owner Page_Text
begin

text \<open>
  The dma-buf dumps, from \<^verbatim>\<open>minidump/minidump_memory.c\<close>: a list of all buffers (\<^verbatim>\<open>md_dma_buf_info\<close>) and a list of the
  buffers that each process holds (\<^verbatim>\<open>md_dma_buf_procs\<close>).  The locks that \<^verbatim>\<open>dump_bufinfo\<close> takes are part of the state:
  the reservations that are locked, and how often the RCU read lock is held.
\<close>

subsection \<open>Buffers and processes\<close>

record dma_fence =
  fence_driver :: string
  fence_timeline :: string
  fence_signaled :: bool

text \<open>A shared fence comes with the outcome of \<^verbatim>\<open>dma_fence_get_rcu\<close>.\<close>

record dma_buf =
  db_id :: nat
  db_size :: u64
  db_flags :: u32
  db_mode :: u32
  db_file_count :: int
  db_exp_name :: string
  db_ino :: u64
  db_name :: "string option"
  resv_lock_result :: int
  fence_excl :: "dma_fence option"
  shared_fences :: "(dma_fence \<times> bool) list"
  attachments :: "string list"

record dma_priv =
  dp_buf :: priv_buf
  dp_count :: nat
  dp_size :: u64
  resv_held :: "nat list"
  rcu_depth :: nat

type_synonym dma_dump = "dma_priv \<times> char arr"

definition size_line :: "dma_buf \<Rightarrow> string" where
  "size_line d = pad_zero 8 (dec_str (unat (db_size d))) @ [TAB] @ pad_zero 8 (hex_str (unat (db_flags d))) @ [TAB] @
     pad_zero 8 (hex_str (unat (db_mode d))) @ [TAB] @ pad_zero 8 (int_str (db_file_count d)) @ [TAB] @ db_exp_name d @ [TAB] @
     pad_zero 8 (dec_str (unat (db_ino d))) @ [TAB] @ (case db_name d of None \<Rightarrow> '''' | Some nm \<Rightarrow> nm) @ [LF]"

definition fence_line :: "string \<Rightarrow> dma_fence \<Rightarrow> string" where
  "fence_line what f = [TAB] @ what @ '' fence: '' @ fence_driver f @ '' '' @ fence_timeline f @ '' '' @
     (if fence_signaled f then '''' else ''un'') @ ''signalled'' @ [LF]"

definition attached_line :: string where "attached_line = [TAB] @ ''Attached Devices:'' @ [LF]"

definition devices_line :: "nat \<Rightarrow> string" where
  "devices_line n = ''Total '' @ dec_str n @ '' devices attached'' @ [LF, LF]"

definition title_line :: string where
  "title_line = pad_right 8 ''size'' @ [TAB] @ pad_right 8 ''flags'' @ [TAB] @ pad_right 8 ''mode'' @ [TAB] @
     pad_right 8 ''count'' @ [TAB] @ ''exp_name'' @ [TAB] @ pad_right 8 ''ino'' @ [LF]"

definition total_line :: "nat \<Rightarrow> u64 \<Rightarrow> string" where
  "total_line n sz = [LF] @ ''Total '' @ dec_str n @ '' objects, '' @ dec_str (unat sz) @ '' bytes'' @ [LF]"

subsection \<open>One buffer\<close>

text \<open>Print at the offset and move it; the first component says that the region is full.\<close>

definition emit :: "nat \<Rightarrow> string \<Rightarrow> dma_dump \<Rightarrow> (bool \<times> dma_dump) option" where
  "emit cap out st =
     (let (dp, b) = st; pb = dp_buf dp
      in do {
        (ret, b) \<leftarrow> scnprintf_at cap (pb_buf pb + pb_offset pb) (pb_size pb - pb_offset pb) out b;
        let pb = pb\<lparr>pb_offset := pb_offset pb + ret\<rparr>;
        Some (int (pb_offset pb) = int (pb_size pb) - 1, dp\<lparr>dp_buf := pb\<rparr>, b) })"

fun dump_shared :: "nat \<Rightarrow> (dma_fence \<times> bool) list \<Rightarrow> dma_dump \<Rightarrow> (bool \<times> dma_dump) option" where
  "dump_shared cap [] st = Some (False, st)"
| "dump_shared cap ((f, got) # fs) st =
     (if \<not> got then dump_shared cap fs st
      else do {
        (over, st) \<leftarrow> emit cap (fence_line ''Shared'' f) st;
        if over then Some (True, st) else dump_shared cap fs st })"

fun dump_attached :: "nat \<Rightarrow> string list \<Rightarrow> dma_dump \<Rightarrow> (bool \<times> dma_dump) option" where
  "dump_attached cap [] st = Some (False, st)"
| "dump_attached cap (d # ds) st = do {
     (over, st) \<leftarrow> emit cap ([TAB] @ d @ [LF]) st;
     if over then Some (True, st) else dump_attached cap ds st }"

definition rcu_read_lock :: "dma_dump \<Rightarrow> dma_dump" where
  "rcu_read_lock st = ((fst st)\<lparr>rcu_depth := rcu_depth (fst st) + 1\<rparr>, snd st)"
definition rcu_read_unlock :: "dma_dump \<Rightarrow> dma_dump" where
  "rcu_read_unlock st = ((fst st)\<lparr>rcu_depth := rcu_depth (fst st) - 1\<rparr>, snd st)"
definition dma_resv_lock :: "nat \<Rightarrow> dma_dump \<Rightarrow> dma_dump" where
  "dma_resv_lock r st = ((fst st)\<lparr>resv_held := r # resv_held (fst st)\<rparr>, snd st)"
definition dma_resv_unlock :: "nat \<Rightarrow> dma_dump \<Rightarrow> dma_dump" where
  "dma_resv_unlock r st = ((fst st)\<lparr>resv_held := remove1 r (resv_held (fst st))\<rparr>, snd st)"

text \<open>The loop on the sequence counter ends with a consistent view of the fences, which the buffer's fields are.\<close>

definition dump_bufinfo :: "nat \<Rightarrow> dma_buf \<Rightarrow> dma_dump \<Rightarrow> (int \<times> dma_dump) option" where
  "dump_bufinfo cap d st =
     (if resv_lock_result d \<noteq> 0 then Some (- ENOSPC, st)
      else do {
        (over, st) \<leftarrow> emit cap (size_line d) (dma_resv_lock (db_id d) st);
        if over then Some (- ENOSPC, st)
        else do {
          let st = rcu_read_lock st;
          (over, st) \<leftarrow> (case fence_excl d of
             None \<Rightarrow> Some (False, st) | Some f \<Rightarrow> emit cap (fence_line ''Exclusive'' f) st);
          if over then Some (- ENOSPC, st)
          else do {
            (over, st) \<leftarrow> dump_shared cap (shared_fences d) st;
            if over then Some (- ENOSPC, st)
            else do {
              (over, st) \<leftarrow> emit cap attached_line (rcu_read_unlock st);
              if over then Some (- ENOSPC, st)
              else do {
                (over, st) \<leftarrow> dump_attached cap (attachments d) st;
                if over then Some (- ENOSPC, st)
                else do {
                  (over, st) \<leftarrow> emit cap (devices_line (length (attachments d))) (dma_resv_unlock (db_id d) st);
                  if over then Some (- ENOSPC, st)
                  else Some (0, (fst st)\<lparr>dp_count := dp_count (fst st) + 1, dp_size := dp_size (fst st) + db_size d\<rparr>, snd st)
                } } } } } })"

text \<open>The kernel's \<^verbatim>\<open>get_each_dmabuf\<close> stops at the first result that is not 0.\<close>

fun get_each_dmabuf :: "nat \<Rightarrow> dma_buf list \<Rightarrow> dma_dump \<Rightarrow> dma_dump option" where
  "get_each_dmabuf cap [] st = Some st"
| "get_each_dmabuf cap (d # ds) st = do {
     (ret, st) \<leftarrow> dump_bufinfo cap d st;
     if ret \<noteq> 0 then Some st else get_each_dmabuf cap ds st }"

definition init_priv :: "nat \<Rightarrow> dma_priv" where
  "init_priv dump_sz = \<lparr>dp_buf = \<lparr>pb_buf = 0, pb_size = dump_sz, pb_offset = 0\<rparr>, dp_count = 0, dp_size = 0,
     resv_held = [], rcu_depth = 0\<rparr>"

definition objects_line :: string where "objects_line = [LF] @ ''Dma-buf Objects:'' @ [LF]"

definition md_dma_buf_info :: "nat \<Rightarrow> bool \<Rightarrow> dma_buf list \<Rightarrow> nat \<Rightarrow> char arr \<Rightarrow> dma_dump option" where
  "md_dma_buf_info cap in_task ds dump_sz b =
     (if \<not> in_task then Some (init_priv dump_sz, b)
      else do {
        (_, st) \<leftarrow> emit cap objects_line (init_priv dump_sz, b);
        (_, st) \<leftarrow> emit cap title_line st;
        st \<leftarrow> get_each_dmabuf cap ds st;
        (_, b) \<leftarrow> scnprintf_at cap (pb_offset (dp_buf (fst st))) (dump_sz - pb_offset (dp_buf (fst st)))
           (total_line (dp_count (fst st)) (dp_size (fst st))) (snd st);
        Some (fst st, b) })"

subsection \<open>The buffers of the processes\<close>

text \<open>A table of open files has an identity; a file is a dma-buf or something else.\<close>

record files_struct =
  files_id :: nat
  open_files :: "dma_buf option list"

record proc_thread =
  thread_is_leader :: bool
  thread_files :: "files_struct option"

record process =
  proc_comm :: string
  proc_tgid :: int
  leader_files :: "files_struct option"
  proc_threads :: "proc_thread list"

definition DMA_BUF_HASH_SIZE :: nat where "DMA_BUF_HASH_SIZE = 2 ^ 20"

type_synonym procs_dump = "(nat \<Rightarrow> bool) \<times> dma_dump"

definition proc_line :: "process \<Rightarrow> string" where
  "proc_line p = [LF] @ proc_comm p @ '' (PID '' @ int_str (proc_tgid p) @ '')'' @ [LF] @ ''DMA Buffers:'' @ [LF]"

text \<open>\<open>dma_hash\<close> stands for the kernel's \<^verbatim>\<open>jhash\<close> of the buffer.\<close>

definition get_dma_info ::
  "nat \<Rightarrow> (dma_buf \<Rightarrow> u32) \<Rightarrow> process \<Rightarrow> dma_buf option \<Rightarrow> procs_dump \<Rightarrow> (int \<times> procs_dump) option" where
  "get_dma_info cap dma_hash p file st =
     (case file of
        None \<Rightarrow> Some (0, st)
      | Some d \<Rightarrow> do {
          let (seen, dd) = st;
          (over, dd) \<leftarrow> (if dp_count (fst dd) = 0 then emit cap (proc_line p) dd else Some (False, dd));
          if over then Some (- EINVAL, seen, dd)
          else do {
            let index = unat (dma_hash d) mod DMA_BUF_HASH_SIZE;
            if seen index then Some (0, seen, dd)
            else do {
              let seen = seen(index := True);
              let dd = ((fst dd)\<lparr>dp_count := dp_count (fst dd) + 1\<rparr>, snd dd);
              (over, dd) \<leftarrow> emit cap title_line dd;
              if over then Some (- EINVAL, seen, dd)
              else do {
                (over, dd) \<leftarrow> emit cap (size_line d) dd;
                if over then Some (- EINVAL, seen, dd)
                else Some (0, seen, (fst dd)\<lparr>dp_size := dp_size (fst dd) + db_size d\<rparr>, snd dd) } } } })"

text \<open>The kernel's \<^verbatim>\<open>iterate_fd\<close> stops at the first result that is not 0 and returns it.\<close>

fun iterate_fd ::
  "nat \<Rightarrow> (dma_buf \<Rightarrow> u32) \<Rightarrow> process \<Rightarrow> dma_buf option list \<Rightarrow> procs_dump \<Rightarrow> (int \<times> procs_dump) option" where
  "iterate_fd cap dma_hash p [] st = Some (0, st)"
| "iterate_fd cap dma_hash p (f # fs) st = do {
     (ret, st) \<leftarrow> get_dma_info cap dma_hash p f st;
     if ret \<noteq> 0 then Some (ret, st) else iterate_fd cap dma_hash p fs st }"

text \<open>The files of a thread that are searched: its own ones, and those of the leader once.\<close>

definition own_files :: "process \<Rightarrow> proc_thread \<Rightarrow> dma_buf option list option" where
  "own_files p t =
     (case thread_files t of
        None \<Rightarrow> None
      | Some fs \<Rightarrow>
          if map_option files_id (leader_files p) \<noteq> Some (files_id fs) \<or> thread_is_leader t
          then Some (open_files fs) else None)"

text \<open>
  The variable \<open>ret\<close> is tested after every thread, also when no files were searched, and keeps its value from one process to
  the next; the result is that value and whether the dump is over.
\<close>

fun each_thread ::
  "nat \<Rightarrow> (dma_buf \<Rightarrow> u32) \<Rightarrow> process \<Rightarrow> proc_thread list \<Rightarrow> int \<Rightarrow> procs_dump \<Rightarrow> (int \<times> bool \<times> procs_dump) option" where
  "each_thread cap dma_hash p [] ret st = Some (ret, False, st)"
| "each_thread cap dma_hash p (t # ts) ret st = do {
     (ret, st) \<leftarrow> (case own_files p t of None \<Rightarrow> Some (ret, st) | Some fs \<Rightarrow> iterate_fd cap dma_hash p fs st);
     if ret \<noteq> 0 then Some (ret, True, st) else each_thread cap dma_hash p ts ret st }"

fun each_process :: "nat \<Rightarrow> (dma_buf \<Rightarrow> u32) \<Rightarrow> process list \<Rightarrow> int \<Rightarrow> procs_dump \<Rightarrow> procs_dump option" where
  "each_process cap dma_hash [] ret st = Some st"
| "each_process cap dma_hash (p # ps) ret st = do {
     (ret, over, seen, dd) \<leftarrow> each_thread cap dma_hash p (proc_threads p) ret st;
     if over then Some (seen, dd)
     else if dp_count (fst dd) = 0 then each_process cap dma_hash ps ret (seen, dd)
     else do {
       let pb = dp_buf (fst dd);
       (over, dd) \<leftarrow> emit cap (total_line (dp_count (fst dd)) (dp_size (fst dd))) dd;
       let ret = int (pb_offset (dp_buf (fst dd))) - int (pb_offset pb);
       if over then Some (seen, dd)
       else each_process cap dma_hash ps ret
         (\<lambda>_. False, (fst dd)\<lparr>dp_count := 0, dp_size := 0\<rparr>, snd dd) } }"

definition md_dma_buf_procs ::
  "nat \<Rightarrow> (dma_buf \<Rightarrow> u32) \<Rightarrow> process list \<Rightarrow> nat \<Rightarrow> procs_dump \<Rightarrow> procs_dump option" where
  "md_dma_buf_procs cap dma_hash ps dump_sz st =
     map_option (\<lambda>(seen, dd). (seen, rcu_read_unlock dd))
       (each_process cap dma_hash ps 0 (fst st, rcu_read_lock (init_priv dump_sz, snd (snd st))))"

subsection \<open>The dumps stay in their regions\<close>

definition dd_ok :: "nat \<Rightarrow> char arr \<Rightarrow> dma_dump \<Rightarrow> bool" where
  "dd_ok dump_sz b0 st \<longleftrightarrow> pb_buf (dp_buf (fst st)) = 0 \<and> pb_size (dp_buf (fst st)) = dump_sz \<and>
     pb_offset (dp_buf (fst st)) < dump_sz \<and> same_outside 0 dump_sz b0 (snd st)"

lemma dd_ok_locks [simp]:
  "dd_ok n b0 (rcu_read_lock st) = dd_ok n b0 st" "dd_ok n b0 (rcu_read_unlock st) = dd_ok n b0 st"
  "dd_ok n b0 (dma_resv_lock r st) = dd_ok n b0 st" "dd_ok n b0 (dma_resv_unlock r st) = dd_ok n b0 st"
  "dd_ok n b0 (dp\<lparr>dp_count := c\<rparr>, b) = dd_ok n b0 (dp, b)" "dd_ok n b0 (dp\<lparr>dp_size := z\<rparr>, b) = dd_ok n b0 (dp, b)"
  by (simp_all add: dd_ok_def rcu_read_lock_def rcu_read_unlock_def dma_resv_lock_def dma_resv_unlock_def)

lemma emit_ok:
  assumes "dd_ok n b0 st" and "n \<le> cap"
  obtains over st' where "emit cap out st = Some (over, st')" and "dd_ok n b0 st'"
proof -
  obtain dp b where st: "st = (dp, b)" by (cases st)
  let ?o = "pb_offset (dp_buf dp)"
  have ok: "pb_buf (dp_buf dp) = 0" "pb_size (dp_buf dp) = n" "?o < n" "same_outside 0 n b0 b"
    using assms(1) by (simp_all add: dd_ok_def st)
  obtain k b' where b': "scnprintf_at cap ?o (n - ?o) out b = Some (k, b')" "k \<le> n - ?o - 1" "same_outside ?o n b b'"
    using scnprintf_at_inside [of ?o "n - ?o" cap out b] ok(3) assms(2) by auto
  have "same_outside 0 n b0 b'" using same_outside_trans [OF ok(4)] same_outside_mono [OF b'(3), of 0 n] by simp
  moreover have "?o + k < n" using b'(2) ok(3) by linarith
  ultimately show thesis using that ok b'(1) by (auto simp: emit_def dd_ok_def st Let_def)
qed

lemma emit_ex: "dd_ok n b0 st \<Longrightarrow> n \<le> cap \<Longrightarrow> \<exists>over st'. emit cap out st = Some (over, st') \<and> dd_ok n b0 st'"
  by (blast elim: emit_ok)

lemma dump_shared_ok:
  assumes "n \<le> cap"
  shows "dd_ok n b0 st \<Longrightarrow> \<exists>over st'. dump_shared cap fs st = Some (over, st') \<and> dd_ok n b0 st'"
proof (induction fs arbitrary: st)
  case (Cons f fs)
  obtain g got where f: "f = (g, got)" by (cases f)
  obtain over st1 where "emit cap (fence_line ''Shared'' g) st = Some (over, st1)" "dd_ok n b0 st1"
    using emit_ok [OF Cons.prems assms] by blast
  with Cons show ?case by (cases over; cases got) (simp_all add: f del: split_paired_Ex)
qed auto

lemma dump_attached_ok:
  assumes "n \<le> cap"
  shows "dd_ok n b0 st \<Longrightarrow> \<exists>over st'. dump_attached cap ds st = Some (over, st') \<and> dd_ok n b0 st'"
proof (induction ds arbitrary: st)
  case (Cons d ds)
  obtain over st1 where "emit cap ([TAB] @ d @ [LF]) st = Some (over, st1)" "dd_ok n b0 st1"
    using emit_ok [OF Cons.prems assms] by blast
  with Cons show ?case by (cases over) (simp_all del: split_paired_Ex)
qed auto

lemma dd_ok_fst: "dd_ok n b0 st \<Longrightarrow> dd_ok n b0 ((fst st)\<lparr>dp_count := c\<rparr>, snd st)"
    "dd_ok n b0 st \<Longrightarrow> dd_ok n b0 ((fst st)\<lparr>dp_size := z\<rparr>, snd st)"
    "dd_ok n b0 st \<Longrightarrow> dd_ok n b0 ((fst st)\<lparr>dp_count := c, dp_size := z\<rparr>, snd st)"
  by (simp_all add: dd_ok_def)

lemma dump_bufinfo_ok:
  assumes ok: "dd_ok n b0 st" and cap: "n \<le> cap"
  shows "\<exists>ret st'. dump_bufinfo cap d st = Some (ret, st') \<and> dd_ok n b0 st'"
proof -
  obtain o1 s1 where s1: "emit cap (size_line d) (dma_resv_lock (db_id d) st) = Some (o1, s1)" "dd_ok n b0 s1"
    using emit_ok [OF _ cap, of b0 "dma_resv_lock (db_id d) st"] ok by (metis dd_ok_locks(1,2,3,4))
  have "\<exists>o2 s2. (case fence_excl d of None \<Rightarrow> Some (False, rcu_read_lock s1)
      | Some f \<Rightarrow> emit cap (fence_line ''Exclusive'' f) (rcu_read_lock s1)) = Some (o2, s2) \<and> dd_ok n b0 s2"
  proof (cases "fence_excl d")
    case (Some f)
    then show ?thesis using emit_ex [OF _ cap, of b0 "rcu_read_lock s1"] s1(2) by (simp del: split_paired_Ex)
  qed (use s1(2) in \<open>simp del: split_paired_Ex\<close>)
  then obtain o2 s2 where s2: "(case fence_excl d of None \<Rightarrow> Some (False, rcu_read_lock s1)
      | Some f \<Rightarrow> emit cap (fence_line ''Exclusive'' f) (rcu_read_lock s1)) = Some (o2, s2)" "dd_ok n b0 s2" by blast
  obtain o3 s3 where s3: "dump_shared cap (shared_fences d) s2 = Some (o3, s3)" "dd_ok n b0 s3"
    using dump_shared_ok [OF cap s2(2)] by blast
  obtain o4 s4 where s4: "emit cap attached_line (rcu_read_unlock s3) = Some (o4, s4)" "dd_ok n b0 s4"
    using emit_ok [OF _ cap, of b0 "rcu_read_unlock s3"] s3(2) by (metis dd_ok_locks(1,2,3,4))
  obtain o5 s5 where s5: "dump_attached cap (attachments d) s4 = Some (o5, s5)" "dd_ok n b0 s5"
    using dump_attached_ok [OF cap s4(2)] by blast
  obtain o6 s6 where s6: "emit cap (devices_line (length (attachments d))) (dma_resv_unlock (db_id d) s5) = Some (o6, s6)" "dd_ok n b0 s6"
    using emit_ok [OF _ cap, of b0 "dma_resv_unlock (db_id d) s5"] s5(2) by (metis dd_ok_locks(1,2,3,4))
  show ?thesis
    using ok s1 s2 s3 s4 s5 s6 dd_ok_fst(3) [OF s6(2)] by (simp add: dump_bufinfo_def del: split_paired_Ex)
qed

lemma get_each_dmabuf_ok:
  assumes "n \<le> cap"
  shows "dd_ok n b0 st \<Longrightarrow> \<exists>st'. get_each_dmabuf cap ds st = Some st' \<and> dd_ok n b0 st'"
proof (induction ds arbitrary: st)
  case (Cons d ds)
  obtain ret st1 where "dump_bufinfo cap d st = Some (ret, st1)" "dd_ok n b0 st1"
    using dump_bufinfo_ok [OF Cons.prems assms] by blast
  with Cons show ?case by (cases "ret = 0") (simp_all del: split_paired_Ex)
qed (simp del: split_paired_Ex)

lemma init_priv_ok: "0 < n \<Longrightarrow> dd_ok n b (init_priv n, b)"
  by (simp add: dd_ok_def init_priv_def)

lemma md_dma_buf_info_ok:
  assumes "0 < n" and cap: "n \<le> cap"
  shows "\<exists>dp b'. md_dma_buf_info cap in_task ds n b = Some (dp, b') \<and> same_outside 0 n b b'"
proof (cases in_task)
  case True
  obtain o1 s1 where s1: "emit cap objects_line (init_priv n, b) = Some (o1, s1)" "dd_ok n b s1"
    using emit_ok [OF init_priv_ok [OF assms(1)] cap] by blast
  obtain o2 s2 where s2: "emit cap title_line s1 = Some (o2, s2)" "dd_ok n b s2"
    using emit_ok [OF s1(2) cap] by blast
  obtain s3 where s3: "get_each_dmabuf cap ds s2 = Some s3" "dd_ok n b s3"
    using get_each_dmabuf_ok [OF cap s2(2)] by blast
  let ?o = "pb_offset (dp_buf (fst s3))"
  have o: "?o < n" "same_outside 0 n b (snd s3)" using s3(2) by (simp_all add: dd_ok_def)
  obtain k b' where "scnprintf_at cap ?o (n - ?o) (total_line (dp_count (fst s3)) (dp_size (fst s3))) (snd s3) = Some (k, b')"
    "same_outside ?o n (snd s3) b'"
    using scnprintf_at_inside [of ?o "n - ?o" cap "total_line (dp_count (fst s3)) (dp_size (fst s3))" "snd s3"] o(1) cap by auto
  with True s1 s2 s3 same_outside_trans [OF o(2)] same_outside_mono [of ?o n _ b' 0 n] show ?thesis
    by (auto simp: md_dma_buf_info_def)
qed (simp add: md_dma_buf_info_def)

text \<open>The list of the processes.\<close>

lemma get_dma_info_ok:
  assumes ok: "dd_ok n b0 (snd st)" and cap: "n \<le> cap"
  shows "\<exists>ret st'. get_dma_info cap dma_hash p f st = Some (ret, st') \<and> dd_ok n b0 (snd st')"
proof (cases f)
  case (Some d)
  obtain seen dd where st: "st = (seen, dd)" by (cases st)
  have "\<exists>o1 d1. (if dp_count (fst dd) = 0 then emit cap (proc_line p) dd else Some (False, dd)) = Some (o1, d1) \<and> dd_ok n b0 d1"
    using emit_ex [OF _ cap, of b0 dd "proc_line p"] ok by (simp add: st del: split_paired_Ex)
  then obtain o1 d1 where d1: "(if dp_count (fst dd) = 0 then emit cap (proc_line p) dd else Some (False, dd)) = Some (o1, d1)"
    "dd_ok n b0 d1" by blast
  let ?e = "((fst d1)\<lparr>dp_count := dp_count (fst d1) + 1\<rparr>, snd d1)"
  obtain o2 d2 where d2: "emit cap title_line ?e = Some (o2, d2)" "dd_ok n b0 d2"
    using emit_ok [OF dd_ok_fst(1) [OF d1(2)] cap] by blast
  obtain o3 d3 where d3: "emit cap (size_line d) d2 = Some (o3, d3)" "dd_ok n b0 d3"
    using emit_ok [OF d2(2) cap] by blast
  show ?thesis
    using d1 d2 d3 dd_ok_fst(2) [OF d3(2)] by (simp add: get_dma_info_def Some st Let_def del: split_paired_Ex)
qed (use ok in \<open>simp add: get_dma_info_def\<close>)

lemma iterate_fd_ok:
  assumes "n \<le> cap"
  shows "dd_ok n b0 (snd st) \<Longrightarrow> \<exists>ret st'. iterate_fd cap dma_hash p fs st = Some (ret, st') \<and> dd_ok n b0 (snd st')"
proof (induction fs arbitrary: st)
  case (Cons f fs)
  obtain ret st1 where st1: "get_dma_info cap dma_hash p f st = Some (ret, st1)" "dd_ok n b0 (snd st1)"
    using get_dma_info_ok [OF Cons.prems assms] by blast
  with Cons.IH [OF st1(2)] show ?case by (cases "ret = 0") (simp_all del: split_paired_Ex)
qed (simp del: split_paired_Ex)

lemma each_thread_ok:
  assumes "n \<le> cap"
  shows "dd_ok n b0 (snd st) \<Longrightarrow> \<exists>r over st'. each_thread cap dma_hash p ts ret st = Some (r, over, st') \<and> dd_ok n b0 (snd st')"
proof (induction ts arbitrary: ret st)
  case (Cons t ts)
  have "\<exists>r st1. (case own_files p t of None \<Rightarrow> Some (ret, st) | Some fs \<Rightarrow> iterate_fd cap dma_hash p fs st) = Some (r, st1) \<and>
      dd_ok n b0 (snd st1)"
    using iterate_fd_ok [OF assms Cons.prems] Cons.prems by (cases "own_files p t") (simp_all del: split_paired_Ex)
  then obtain r st1 where st1: "(case own_files p t of None \<Rightarrow> Some (ret, st) | Some fs \<Rightarrow> iterate_fd cap dma_hash p fs st) = Some (r, st1)"
    "dd_ok n b0 (snd st1)" by blast
  with Cons.IH [OF st1(2)] show ?case by (cases "r = 0") (simp_all del: split_paired_Ex)
qed (simp del: split_paired_Ex)

lemma each_process_ok:
  assumes cap: "n \<le> cap"
  shows "dd_ok n b0 (snd st) \<Longrightarrow> \<exists>st'. each_process cap dma_hash ps ret st = Some st' \<and> dd_ok n b0 (snd st')"
proof (induction ps arbitrary: ret st)
  case (Cons p ps)
  obtain r over seen dd where t: "each_thread cap dma_hash p (proc_threads p) ret st = Some (r, over, seen, dd)" "dd_ok n b0 dd"
    using each_thread_ok [OF cap Cons.prems, of dma_hash p "proc_threads p" ret] by auto
  obtain o1 d1 where d1: "emit cap (total_line (dp_count (fst dd)) (dp_size (fst dd))) dd = Some (o1, d1)" "dd_ok n b0 d1"
    using emit_ok [OF t(2) cap] by blast
  let ?r = "int (pb_offset (dp_buf (fst d1))) - int (pb_offset (dp_buf (fst dd)))"
  have "dd_ok n b0 (snd (\<lambda>_ :: nat. False, (fst d1)\<lparr>dp_count := 0, dp_size := 0\<rparr>, snd d1))"
    using dd_ok_fst(3) [OF d1(2)] by simp
  from Cons.IH [OF this, of ?r] Cons.IH [of "(seen, dd)" r] t d1 show ?case
    by (simp add: Let_def del: split_paired_Ex)
qed (simp del: split_paired_Ex)

lemma md_dma_buf_procs_ok:
  assumes "0 < n" and "n \<le> cap"
  shows "\<exists>seen' dp b'. md_dma_buf_procs cap dma_hash ps n (seen, dp0, b) = Some (seen', dp, b') \<and> same_outside 0 n b b'"
proof -
  have "dd_ok n b (snd (seen, rcu_read_lock (init_priv n, b)))" using init_priv_ok [OF assms(1)] by simp
  from each_process_ok [OF assms(2) this, of dma_hash ps 0] show ?thesis
    by (auto simp: md_dma_buf_procs_def rcu_read_unlock_def dd_ok_def)
qed

subsection \<open>Locks\<close>

text \<open>
  A buffer that is printed leaves the locks as they were.  When the region is full already at the first line, the
  reservation stays locked.
\<close>

lemma emit_locks:
  "emit cap out st = Some (over, st') \<Longrightarrow> resv_held (fst st') = resv_held (fst st) \<and> rcu_depth (fst st') = rcu_depth (fst st)"
  by (cases st) (auto simp: emit_def Let_def elim!: bind_SomeE)

lemma dump_shared_locks:
  "dump_shared cap fs st = Some (over, st') \<Longrightarrow> resv_held (fst st') = resv_held (fst st) \<and> rcu_depth (fst st') = rcu_depth (fst st)"
  by (induction fs arbitrary: st) (auto elim!: bind_SomeE dest!: emit_locks split: if_split_asm)

lemma dump_attached_locks:
  "dump_attached cap ds st = Some (over, st') \<Longrightarrow> resv_held (fst st') = resv_held (fst st) \<and> rcu_depth (fst st') = rcu_depth (fst st)"
  by (induction ds arbitrary: st) (auto elim!: bind_SomeE dest!: emit_locks split: if_split_asm)

lemma dump_bufinfo_locks:
  assumes "dump_bufinfo cap d st = Some (0, st')"
  shows "resv_held (fst st') = resv_held (fst st) \<and> rcu_depth (fst st') = rcu_depth (fst st)"
  using assms unfolding dump_bufinfo_def Let_def
  by (auto simp: ENOSPC_def rcu_read_lock_def rcu_read_unlock_def dma_resv_lock_def dma_resv_unlock_def elim!: bind_SomeE
      dest!: emit_locks dump_shared_locks dump_attached_locks split: if_split_asm option.split_asm)

lemma dump_bufinfo_leak:
  assumes ok: "dd_ok n b0 st" and cap: "n \<le> cap" and lock: "resv_lock_result d = 0"
    and full: "n \<le> pb_offset (dp_buf (fst st)) + length (size_line d) + 1"
  shows "\<exists>st'. dump_bufinfo cap d st = Some (- ENOSPC, st') \<and> resv_held (fst st') = db_id d # resv_held (fst st)"
proof -
  obtain dp b where st: "st = (dp, b)" by (cases st)
  let ?o = "pb_offset (dp_buf dp)"
  have o: "?o < n" "pb_buf (dp_buf dp) = 0" "pb_size (dp_buf dp) = n" using ok by (simp_all add: dd_ok_def st)
  obtain k b' where k: "scnprintf_at cap ?o (n - ?o) (size_line d) b = Some (k, b')"
    using scnprintf_at_inside [of ?o "n - ?o" cap "size_line d" b] o(1) cap by auto
  then have "k = n - ?o - 1"
    using scnprintf_at_bound [OF k] o(1) full by (simp add: scnprintf_str_def st)
  then show ?thesis
    using k o lock by (simp add: dump_bufinfo_def emit_def dma_resv_lock_def st Let_def)
qed

subsection \<open>A process without files ends the dump\<close>

text \<open>
  The length of the line with the totals is still in \<open>ret\<close> when the next process is looked at; if its first thread has
  no files of its own to search, as that of a process that has exited, the dump takes it for an error and stops.
\<close>

lemma procs_stop_early:
  assumes p: "each_thread cap dma_hash p (proc_threads p) ret st = Some (r, False, seen, dd)" "dp_count (fst dd) \<noteq> 0"
    and total: "emit cap (total_line (dp_count (fst dd)) (dp_size (fst dd))) dd = Some (False, dd')"
      "pb_offset (dp_buf (fst dd)) \<noteq> pb_offset (dp_buf (fst dd'))"
    and z: "proc_threads z = t # ts" "own_files z t = None"
  shows "each_process cap dma_hash (p # z # ps) ret st =
     Some (\<lambda>_. False, (fst dd')\<lparr>dp_count := 0, dp_size := 0\<rparr>, snd dd')"
  using assms by simp

end
