(* ===== verification/Slab_Bound.thy ===== *)
theory Slab_Bound
  imports Slab_Owner
begin

text \<open>
  The slab owner dump stays in its region as long as its text is shorter than the region.
\<close>

subsection \<open>One object\<close>

definition slab_ok :: "slab_state \<Rightarrow> bool" where
  "slab_ok ss \<longleftrightarrow> 4 dvd slab_owner_handles_size ss \<and> 4 * num_handles ss \<le> slab_owner_handles_size ss"

lemma find_stack_inside:
  assumes ok: "slab_ok ss" and sz: "slab_owner_handles_size ss \<le> dump_sz" "dump_sz \<le> cap"
  shows "\<exists>r m b'. find_stack cap dump_sz handle (ss, b) = Some (r, ss\<lparr>num_handles := m\<rparr>, b') \<and>
     slab_ok (ss\<lparr>num_handles := m\<rparr>) \<and> same_outside 0 dump_sz b b'"
proof -
  let ?base = "int dump_sz - int (slab_owner_handles_size ss)" and ?n = "num_handles ss"
  obtain r where r: "scan_handles cap ?base handle 0 ?n b = Some r"
    using scan_handles_ok [of ?base 0 ?n cap handle b] ok sz by (auto simp: slab_ok_def)
  show ?thesis
  proof (cases "r \<or> \<not> 4 * ?n < slab_owner_handles_size ss")
    case True
    have "ss\<lparr>num_handles := ?n\<rparr> = ss" by simp
    with True r ok show ?thesis by (intro exI [of _ r] exI [of _ ?n] exI [of _ b]) (auto simp: find_stack_def)
  next
    case False
    from ok have room: "4 * ?n + 4 \<le> slab_owner_handles_size ss" using False by (auto simp: slab_ok_def)
    have "nat (?base + 4 * int ?n) + 4 \<le> dump_sz" using room sz(1) by linarith
    then obtain b' where b': "put_int cap (?base + 4 * int ?n) handle b = Some b'" "same_outside (nat (?base + 4 * int ?n)) dump_sz b b'"
      using put_int_inside [of "?base + 4 * int ?n" dump_sz cap handle b] sz by auto
    with False r room ok show ?thesis
      by (intro exI [of _ False] exI [of _ "?n + 1"] exI [of _ b'])
        (auto simp: find_stack_def slab_ok_def elim: same_outside_mono)
  qed
qed

text \<open>An output that is short enough stays in front of \<open>hi\<close>, whatever the size that is given for it.\<close>

lemma scnprintf_at_short:
  assumes "off + length out < hi" and "hi \<le> cap"
  shows "\<exists>n b'. scnprintf_at cap off sz out b = Some (n, b') \<and> n \<le> length out \<and> same_outside 0 hi b b'"
proof -
  have l: "length (snprintf_str sz out) \<le> length out + 1" "length (scnprintf_str sz out) \<le> length out"
    by (simp_all add: snprintf_str_def scnprintf_str_def)
  then have "put_chars cap off (snprintf_str sz out) b = Some (arr_write b off (snprintf_str sz out))"
    using assms by (simp add: put_chars_def)
  moreover have "same_outside 0 hi b (arr_write b off (snprintf_str sz out))"
    using assms l by (auto simp: same_outside_def arr_write_def)
  ultimately show ?thesis using l by (simp add: scnprintf_at_def)
qed

definition entries_len :: "slab_env \<Rightarrow> u64 list \<Rightarrow> nat" where
  "entries_len env es = sum_list (map (\<lambda>e. length (obj_str env e) + 1) es)"

lemma track_entries_short:
  "off + ret + entries_len env es < hi \<Longrightarrow> hi \<le> cap \<Longrightarrow>
   \<exists>n b'. track_entries env cap off sz ret es b = Some (n, b') \<and> n \<le> ret + entries_len env es \<and> same_outside 0 hi b b'"
proof (induction es arbitrary: ret b)
  case (Cons e es)
  obtain n b1 where b1: "scnprintf_at cap (off + ret) (sz - ret) (obj_str env e @ [LF]) b = Some (n, b1)"
    "n \<le> length (obj_str env e) + 1" "same_outside 0 hi b b1"
    using scnprintf_at_short [of "off + ret" "obj_str env e @ [LF]" hi cap "sz - ret" b] Cons.prems
    by (auto simp: entries_len_def)
  have "off + (ret + n) + entries_len env es < hi" using Cons.prems(1) b1(2) by (simp add: entries_len_def)
  from Cons.IH [OF this Cons.prems(2), of b1] obtain m b' where
    "track_entries env cap off sz (ret + n) es b1 = Some (m, b')" "m \<le> ret + n + entries_len env es" "same_outside 0 hi b1 b'" by blast
  with b1 same_outside_trans [OF b1(3)] show ?case by (auto simp: Let_def entries_len_def)
qed simp

definition record_len :: "slab_env \<Rightarrow> u64 \<Rightarrow> u32 \<Rightarrow> u64 list \<Rightarrow> nat" where
  "record_len env obj handle es = length (track_line env obj handle (length es)) + entries_len env es"

lemma length_dec_str_pos: "1 \<le> length (dec_str n)"
  by (cases "dec_str n") simp_all

lemma track_record_short:
  assumes "off + record_len env obj handle es < hi" and "hi \<le> cap"
  shows "\<exists>n b'. track_record env cap off sz obj handle es found b = Some (n, b') \<and> n \<le> record_len env obj handle es \<and>
     same_outside 0 hi b b'"
proof -
  let ?line = "track_line env obj handle (if found then 0 else length es)"
  have "length ?line \<le> length (track_line env obj handle (length es))"
    using length_dec_str_pos [of "length es"] by (simp add: track_line_def dec_str_small)
  then have l: "off + length ?line + entries_len env es < hi" using assms(1) by (simp add: record_len_def)
  then obtain n b1 where b1: "scnprintf_at cap off sz ?line b = Some (n, b1)" "n \<le> length ?line" "same_outside 0 hi b b1"
    using scnprintf_at_short [of off ?line hi cap sz b] assms(2) by auto
  have "off + n + entries_len env es < hi" using l b1(2) by simp
  from track_entries_short [OF this assms(2), of sz b1] obtain m b' where
    "track_entries env cap off sz n es b1 = Some (m, b')" "m \<le> n + entries_len env es" "same_outside 0 hi b1 b'" by blast
  with b1 \<open>length ?line \<le> _\<close> same_outside_trans [OF b1(3)] show ?thesis
    by (cases found) (auto simp: track_record_def record_len_def)
qed

subsection \<open>All objects\<close>

text \<open>The settings stay what they are, and \<open>k\<close> more characters fit.\<close>

definition slab_fit :: "nat \<Rightarrow> nat \<Rightarrow> u64 \<Rightarrow> char arr \<Rightarrow> nat \<Rightarrow> slab_dump \<Rightarrow> bool" where
  "slab_fit dump_sz h f b0 k st \<longleftrightarrow> (let (ss, pb, b) = st
     in slab_ok ss \<and> slab_owner_handles_size ss = h \<and> slab_owner_filter ss = f \<and>
        pb_buf pb + pb_offset pb + k < dump_sz \<and> same_outside 0 dump_sz b0 b)"

definition object_len :: "slab_env \<Rightarrow> u64 \<times> track \<Rightarrow> nat" where
  "object_len env x = (let (obj, t) = x; es = takeWhile (\<lambda>a. a \<noteq> 0) (track_addrs t)
     in if track_addr t = 0 then 0
        else if config_stacktrace env then record_len env obj (hash_stack env es) es
        else length (obj_str env obj @ '' '' @ obj_str env (track_addr t) @ [LF]))"

lemma dump_tracking_short:
  assumes fit: "slab_fit dump_sz h f b0 (object_len env (obj, t) + k) st" and cap: "dump_sz \<le> cap"
  shows "\<exists>st'. dump_tracking env cap dump_sz obj t st = Some st' \<and> slab_fit dump_sz h f b0 k st'"
proof (cases "track_addr t = 0")
  case True
  with fit show ?thesis by (cases st) (auto simp: dump_tracking_def object_len_def)
next
  case addr: False
  obtain ss pb b where st: "st = (ss, pb, b)" by (cases st)
  let ?off = "pb_buf pb + pb_offset pb" and ?sz = "pb_size pb - pb_offset pb"
  have r: "slab_ok ss" "slab_owner_handles_size ss = h" "slab_owner_filter ss = f"
    "?off + object_len env (obj, t) + k < dump_sz" "same_outside 0 dump_sz b0 b" using fit by (simp_all add: st slab_fit_def)
  show ?thesis
  proof (cases "config_stacktrace env")
    case False
    let ?out = "obj_str env obj @ '' '' @ obj_str env (track_addr t) @ [LF]"
    have len: "object_len env (obj, t) = length ?out" using False addr by (simp add: object_len_def)
    obtain n b' where n: "scnprintf_at cap ?off ?sz ?out b = Some (n, b')" "n \<le> length ?out" "same_outside 0 dump_sz b b'"
      using scnprintf_at_short [of ?off ?out dump_sz cap ?sz b] r(4) cap unfolding len by auto
    have "dump_tracking env cap dump_sz obj t st = Some (ss, pb\<lparr>pb_offset := pb_offset pb + n\<rparr>, b')"
      using False addr n(1) by (simp add: dump_tracking_def st)
    moreover have "slab_fit dump_sz h f b0 k (ss, pb\<lparr>pb_offset := pb_offset pb + n\<rparr>, b')"
      using r n(2) same_outside_trans [OF r(5) n(3)] unfolding len by (simp add: slab_fit_def)
    ultimately show ?thesis by blast
  next
    case True
    let ?es = "takeWhile (\<lambda>a. a \<noteq> 0) (track_addrs t)"
    let ?hd = "hash_stack env ?es"
    have len: "object_len env (obj, t) = record_len env obj ?hd ?es" using True addr by (simp add: object_len_def Let_def)
    let ?find = "if int dump_sz - int (slab_owner_handles_size ss) < int ?off then Some (False, ss, b)
        else find_stack cap dump_sz ?hd (ss, b)"
    have "\<exists>found m b1. ?find = Some (found, ss\<lparr>num_handles := m\<rparr>, b1) \<and> slab_ok (ss\<lparr>num_handles := m\<rparr>) \<and> same_outside 0 dump_sz b b1"
    proof (cases "int dump_sz - int (slab_owner_handles_size ss) < int ?off")
      case True
      have "ss\<lparr>num_handles := num_handles ss\<rparr> = ss" by simp
      with True r(1) show ?thesis by (intro exI [of _ False] exI [of _ "num_handles ss"] exI [of _ b]) simp
    next
      case False
      then show ?thesis using find_stack_inside [OF r(1), of dump_sz cap ?hd b] cap by auto
    qed
    then obtain found m b1 where f: "?find = Some (found, ss\<lparr>num_handles := m\<rparr>, b1)"
      "slab_ok (ss\<lparr>num_handles := m\<rparr>)" "same_outside 0 dump_sz b b1" by blast
    obtain n b' where n: "track_record env cap ?off ?sz obj ?hd ?es found b1 = Some (n, b')" "n \<le> record_len env obj ?hd ?es"
      "same_outside 0 dump_sz b1 b'" using track_record_short [of ?off env obj ?hd ?es dump_sz cap ?sz found b1] r(4) cap unfolding len by auto
    have "dump_tracking env cap dump_sz obj t st = Some (ss\<lparr>num_handles := m\<rparr>, pb\<lparr>pb_offset := pb_offset pb + n\<rparr>, b')"
      using True addr f(1) n(1) by (simp add: dump_tracking_def st Let_def)
    moreover have "slab_fit dump_sz h f b0 k (ss\<lparr>num_handles := m\<rparr>, pb\<lparr>pb_offset := pb_offset pb + n\<rparr>, b')"
      using r f(2) n(2) same_outside_trans [OF r(5) same_outside_trans [OF f(3) n(3)]] unfolding len by (simp add: slab_fit_def)
    ultimately show ?thesis by blast
  qed
qed

definition page_len :: "slab_env \<Rightarrow> slab_page \<Rightarrow> nat" where
  "page_len env pg = sum_list (map (object_len env) pg)"

lemma each_object_short:
  assumes "dump_sz \<le> cap"
  shows "slab_fit dump_sz h f b0 (page_len env pg + k) st \<Longrightarrow>
    \<exists>st'. each_object env cap dump_sz pg st = Some st' \<and> slab_fit dump_sz h f b0 k st'"
proof (induction pg arbitrary: st)
  case (Cons x pg)
  obtain obj t where x: "x = (obj, t)" by (cases x)
  have "slab_fit dump_sz h f b0 (object_len env (obj, t) + (page_len env pg + k)) st"
    using Cons.prems by (simp add: x page_len_def add.assoc)
  from dump_tracking_short [OF this assms] obtain st1 where "dump_tracking env cap dump_sz obj t st = Some st1"
    "slab_fit dump_sz h f b0 (page_len env pg + k) st1" by blast
  with Cons.IH show ?case by (simp add: x)
qed (simp add: page_len_def)

definition pages_len :: "slab_env \<Rightarrow> slab_page list \<Rightarrow> nat" where
  "pages_len env pgs = sum_list (map (page_len env) pgs)"

lemma slab_fit_less: "slab_fit dump_sz h f b0 k st \<Longrightarrow> j \<le> k \<Longrightarrow> slab_fit dump_sz h f b0 j st"
  by (auto simp: slab_fit_def split: prod.splits)

lemma each_page_short:
  assumes "dump_sz \<le> cap"
  shows "slab_fit dump_sz h f b0 (pages_len env pgs + k) st \<Longrightarrow>
    \<exists>over st'. each_page env cap dump_sz pgs st = Some (over, st') \<and> slab_fit dump_sz h f b0 k st'"
proof (induction pgs arbitrary: st)
  case (Cons pg pgs)
  have "slab_fit dump_sz h f b0 (page_len env pg + (pages_len env pgs + k)) st"
    using Cons.prems by (simp add: pages_len_def add.assoc)
  from each_object_short [OF assms this] obtain st1 where st1: "each_object env cap dump_sz pg st = Some st1"
    "slab_fit dump_sz h f b0 (pages_len env pgs + k) st1" by blast
  from Cons.IH [OF st1(2)] slab_fit_less [OF st1(2), of k] st1(1) show ?case by (cases "exhausted st1") auto
qed (simp add: pages_len_def)

definition nodes_len :: "slab_env \<Rightarrow> cache_node list \<Rightarrow> nat" where
  "nodes_len env ns = sum_list (map (\<lambda>n. pages_len env (node_partial n) + pages_len env (node_full n)) ns)"

lemma each_node_short:
  assumes "dump_sz \<le> cap"
  shows "slab_fit dump_sz h f b0 (nodes_len env ns + k) st \<Longrightarrow>
    \<exists>over st'. each_node env cap dump_sz ns st = Some (over, st') \<and> slab_fit dump_sz h f b0 k st'"
proof (induction ns arbitrary: st)
  case (Cons n ns)
  let ?p = "pages_len env (node_partial n)" and ?q = "pages_len env (node_full n)" and ?r = "nodes_len env ns + k"
  have all: "slab_fit dump_sz h f b0 (?p + (?q + ?r)) st" using Cons.prems by (simp add: nodes_len_def add.assoc)
  show ?case
  proof (cases "nr_slabs n = 0")
    case True
    with Cons.IH slab_fit_less [OF all, of ?r] show ?thesis by simp
  next
    case False
    from each_page_short [OF assms all] obtain o1 st1 where 1: "each_page env cap dump_sz (node_partial n) st = Some (o1, st1)"
      "slab_fit dump_sz h f b0 (?q + ?r) st1" by blast
    from each_page_short [OF assms 1(2)] obtain o2 st2 where 2: "each_page env cap dump_sz (node_full n) st1 = Some (o2, st2)"
      "slab_fit dump_sz h f b0 ?r st2" by blast
    from Cons.IH [OF 2(2)] 1 2 False slab_fit_less [OF 1(2), of k] slab_fit_less [OF 2(2), of k] show ?thesis
      by (cases o1; cases o2) auto
  qed
qed (simp add: nodes_len_def)

subsection \<open>All caches\<close>

lemma advance_short:
  assumes fit: "slab_fit dump_sz h f b0 (length out + k) st" and "dump_sz \<le> cap"
  shows "\<exists>over st'. advance cap out st = Some (over, st') \<and> slab_fit dump_sz h f b0 k st'"
proof -
  obtain ss pb b where st: "st = (ss, pb, b)" by (cases st)
  have r: "pb_buf pb + pb_offset pb + length out + k < dump_sz" "same_outside 0 dump_sz b0 b"
    using fit by (simp_all add: st slab_fit_def)
  then obtain n b' where "scnprintf_at cap (pb_buf pb) (pb_size pb) out b = Some (n, b')" "n \<le> length out" "same_outside 0 dump_sz b b'"
    using scnprintf_at_short [of "pb_buf pb" out dump_sz cap "pb_size pb" b] assms(2) by auto
  with r fit same_outside_trans [OF r(2)] show ?thesis by (auto simp: advance_def st slab_fit_def)
qed

definition cache_len :: "slab_env \<Rightarrow> u64 \<Rightarrow> nat \<Rightarrow> nat" where
  "cache_len env f i = (if \<not> bit f i then 0 else case kmalloc_caches env i of None \<Rightarrow> 0
     | Some s \<Rightarrow> length (slab_name s) + 1 + nodes_len env (cache_nodes s) + 1)"

lemma each_cache_short:
  assumes cap: "dump_sz \<le> cap"
  shows "slab_fit dump_sz h f b0 (sum_list (map (cache_len env f) is)) st \<Longrightarrow>
    \<exists>st'. each_cache env cap dump_sz is st = Some st' \<and> slab_fit dump_sz h f b0 0 st'"
proof (induction "is" arbitrary: st)
  case (Cons i "is")
  let ?r = "sum_list (map (cache_len env f) is)"
  have f: "slab_owner_filter (fst st) = f" using Cons.prems by (auto simp: slab_fit_def split: prod.splits)
  show ?case
  proof (cases "bit f i \<and> kmalloc_caches env i \<noteq> None")
    case False
    with f Cons.IH slab_fit_less [OF Cons.prems, of ?r] show ?thesis by (auto split: option.split)
  next
    case True
    then obtain s where s: "bit f i" "kmalloc_caches env i = Some s" by blast
    let ?n = "nodes_len env (cache_nodes s)"
    have "slab_fit dump_sz h f b0 (length (slab_name s @ [LF]) + (?n + (length [LF] + ?r))) st"
      using Cons.prems s by (simp add: cache_len_def [of env f i] add.assoc)
    from advance_short [OF this cap] obtain o1 st1 where 1: "advance cap (slab_name s @ [LF]) st = Some (o1, st1)"
      "slab_fit dump_sz h f b0 (?n + (length [LF] + ?r)) st1" by blast
    from each_node_short [OF cap 1(2)] obtain o2 st2 where 2: "each_node env cap dump_sz (cache_nodes s) st1 = Some (o2, st2)"
      "slab_fit dump_sz h f b0 (length [LF] + ?r) st2" by blast
    from advance_short [OF 2(2) cap] obtain o3 st3 where 3: "advance cap [LF] st2 = Some (o3, st3)" "slab_fit dump_sz h f b0 ?r st3"
      by blast
    from Cons.IH [OF 3(2)] slab_fit_less [OF 1(2), of 0] slab_fit_less [OF 2(2), of 0] slab_fit_less [OF 3(2), of 0] 1(1) 2(1) 3(1) s f
    show ?thesis by (cases o1; cases o2; cases o3) simp_all
  qed
qed (simp add: slab_fit_def)

text \<open>The number of characters that the dump prints at most.\<close>

definition slab_len :: "slab_env \<Rightarrow> u64 \<Rightarrow> nat" where
  "slab_len env f = sum_list (map (cache_len env f) [0..<Suc KMALLOC_SHIFT_HIGH])"

text \<open>A dump whose text is shorter than its region stays in the region, and keeps the table of handles in order.\<close>

lemma md_dump_slabowner_fits:
  assumes "slab_ok ss" and "dump_sz \<le> cap" and "slab_len env (slab_owner_filter ss) < dump_sz"
  shows "\<exists>ss' b'. md_dump_slabowner env cap dump_sz (ss, b) = Some (ss', b') \<and> slab_ok ss' \<and> same_outside 0 dump_sz b b'"
proof -
  have "slab_fit dump_sz (slab_owner_handles_size ss) (slab_owner_filter ss) b (slab_len env (slab_owner_filter ss))
      (ss, \<lparr>pb_buf = 0, pb_size = dump_sz, pb_offset = 0\<rparr>, b)" using assms by (simp add: slab_fit_def)
  from each_cache_short [OF assms(2) this [unfolded slab_len_def]] show ?thesis
    by (auto simp: md_dump_slabowner_def slab_fit_def simp del: upt_Suc)
qed

subsection \<open>The settings\<close>

lemma slab_writes_ok:
  assumes "slab_ok ss" and "num_handles ss = 0"
  shows "slab_ok (snd (slab_owner_handle_write d i n ss)) \<and> num_handles (snd (slab_owner_handle_write d i n ss)) = 0"
  using assms by (auto simp: slab_ok_def slab_owner_handle_write_def split: option.split)

lemma slab_filter_write_ok:
  assumes "slab_ok ss" and "num_handles ss = 0" and "\<And>f. i = Some f \<Longrightarrow> f < 0xFFFFFFFF80000000"
  shows "\<exists>r ss'. slab_owner_filter_write env i n ss = Some (r, ss') \<and> slab_ok ss' \<and> num_handles ss' = 0"
proof (cases i)
  case (Some f)
  with assms filter_write_ends [of f env n ss] show ?thesis by (auto simp: slab_ok_def)
qed (use assms in \<open>simp add: slab_owner_filter_write_def\<close>)

lemma default_filter_ok: "slab_ok ss \<Longrightarrow> num_handles ss = 0 \<Longrightarrow> slab_ok (default_filter env ss) \<and> num_handles (default_filter env ss) = 0"
proof -
  have "slab_ok (fold g is ss) \<and> num_handles (fold g is ss) = 0"
    if "slab_ok ss \<and> num_handles ss = 0" "\<And>i ss. slab_ok ss \<and> num_handles ss = 0 \<Longrightarrow> slab_ok (g i ss) \<and> num_handles (g i ss) = 0" for g :: "nat \<Rightarrow> slab_state \<Rightarrow> slab_state" and "is" ss
    using that by (induction "is" arbitrary: ss) auto
  note step = this
  assume "slab_ok ss" "num_handles ss = 0"
  then show ?thesis unfolding default_filter_def by (intro step) (auto simp: slab_ok_def)
qed

end
