(* ===== verification/Md_Panic.thy ===== *)
theory Md_Panic
  imports Md_Sched Md_Context Md_Stats Debug_Files Dma_Buf Slab_Bound
begin

text \<open>
  The panic dump as a whole, from \<^verbatim>\<open>minidump/minidump_log.c\<close>: the registration of its buffers, the notifiers of a dying
  CPU, and \<^verbatim>\<open>md_dump_process\<close>, which fills all buffers once.
\<close>

subsection \<open>Buffers and their registration\<close>

datatype panic_buf = KRUNQUEUE | KCNTXT | MEMINFO | SLABINFO | KMODULES

primrec panic_name :: "panic_buf \<Rightarrow> string" where
  "panic_name KRUNQUEUE = ''KRUNQUEUE''"
| "panic_name KCNTXT = ''KCNTXT''"
| "panic_name MEMINFO = ''MEMINFO''"
| "panic_name SLABINFO = ''SLABINFO''"
| "panic_name KMODULES = ''KMODULES''"

text \<open>\<open>all_tasks\<close> is \<^verbatim>\<open>CONFIG_MINIDUMP_ALL_TASK_INFO\<close>.\<close>

primrec panic_pages :: "bool \<Rightarrow> panic_buf \<Rightarrow> nat" where
  "panic_pages all_tasks KRUNQUEUE = (if all_tasks then 150 else 8)"
| "panic_pages all_tasks KCNTXT = 32"
| "panic_pages all_tasks MEMINFO = 1"
| "panic_pages all_tasks SLABINFO = 8"
| "panic_pages all_tasks KMODULES = 8"

text \<open>The objects that are allocated: the text of a buffer and its \<^verbatim>\<open>struct seq_buf\<close>.\<close>

datatype heap_obj = Text_Obj u64 | Seq_Obj panic_buf

record panic_state =
  seq_bufs :: "panic_buf \<Rightarrow> seq_buf option"
  heap_live :: "heap_obj list"
  ps_align_offset :: nat
  md_in_oops_handler :: bool
  md_handle_done :: bool
  die_cpu :: int
  regs_before_stop :: "nat \<Rightarrow> pt_regs"
  ps_owner :: owner_state
  ps_slab :: slab_state
  dma_buf_hash :: "nat \<Rightarrow> bool"
  ps_mem :: mem_state
  minidump_dir :: debugfs_dir

text \<open>Before anything is registered.\<close>

definition init_panic_state :: "md_globals \<Rightarrow> panic_state" where
  "init_panic_state s = \<lparr>seq_bufs = (\<lambda>_. None), heap_live = [], ps_align_offset = 0, md_in_oops_handler = False,
     md_handle_done = False, die_cpu = - 1, regs_before_stop = (\<lambda>_. zero_regs), ps_owner = init_owner, ps_slab = init_slab,
     dma_buf_hash = (\<lambda>_. False), ps_mem = init_mem s,
     minidump_dir = []\<rparr>"

record reg_env =
  text_alloc :: "panic_buf \<Rightarrow> u64 option"
  seq_alloc :: "panic_buf \<Rightarrow> bool"
  mem_env_of :: mem_env
  config_all_tasks :: bool
  config_cpu_context :: bool
  config_slub_debug :: bool
  config_page_owner :: bool
  page_owner_symbol :: bool
  slub_debug_symbol :: "bool option"

text \<open>The debug symbols that say whether the kernel keeps page and slab owners; the second may be missing.\<close>

definition is_page_owner_enabled :: "reg_env \<Rightarrow> bool" where
  "is_page_owner_enabled env = page_owner_symbol env"

definition is_slub_debug_enabled :: "reg_env \<Rightarrow> bool" where
  "is_slub_debug_enabled env = (case slub_debug_symbol env of None \<Rightarrow> False | Some b \<Rightarrow> b)"

definition panic_region :: "string \<Rightarrow> u64 \<Rightarrow> u64 \<Rightarrow> u64 \<Rightarrow> md_region" where
  "panic_region name va pa sz = \<lparr>mdr_name = strscpy_str name (MAX_NAME_LENGTH + 1), mdr_id = 0, virt_addr = va,
     phys_addr = pa, mdr_size = sz\<rparr>"

definition md_register_minidump_entry ::
  "bool \<Rightarrow> string \<Rightarrow> u64 \<Rightarrow> u64 \<Rightarrow> u64 \<Rightarrow> md_globals \<Rightarrow> (int \<times> md_globals) option" where
  "md_register_minidump_entry alloc name va pa sz s =
     msm_minidump_add_region alloc (Some (panic_region name va pa sz)) s"

definition set_md :: "md_globals \<Rightarrow> panic_state \<Rightarrow> panic_state" where
  "set_md s st = st\<lparr>ps_mem := (ps_mem st)\<lparr>mem_md := s\<rparr>\<rparr>"

definition set_mem :: "dump_kind \<Rightarrow> char arr \<Rightarrow> panic_state \<Rightarrow> panic_state" where
  "set_mem k b st = st\<lparr>ps_mem := (ps_mem st)\<lparr>dump_mem := (dump_mem (ps_mem st))(k := b)\<rparr>\<rparr>"

definition free_obj :: "heap_obj \<Rightarrow> panic_state \<Rightarrow> panic_state" where
  "free_obj x st = st\<lparr>heap_live := remove1 x (heap_live st)\<rparr>"

definition new_obj :: "heap_obj \<Rightarrow> panic_state \<Rightarrow> panic_state" where
  "new_obj x st = st\<lparr>heap_live := x # heap_live st\<rparr>"

definition md_register_panic_entries :: "reg_env \<Rightarrow> nat \<Rightarrow> panic_buf \<Rightarrow> panic_state \<Rightarrow> (int \<times> panic_state) option" where
  "md_register_panic_entries env num_pages k st =
     (let sz = num_pages * PAGE_SIZE
      in case text_alloc env k of
           None \<Rightarrow> Some (- EINVAL, st)
         | Some p \<Rightarrow>
             let st = new_obj (Text_Obj p) st
             in if \<not> seq_alloc env k then Some (- EINVAL, free_obj (Text_Obj p) st)
                else do {
                  let st = new_obj (Seq_Obj k) st;
                  (ret, s) \<leftarrow> md_register_minidump_entry (mem_alloc (mem_env_of env)) (panic_name k) p
                     (mem_virt_to_phys (mem_env_of env) p) (of_nat sz) (mem_md (ps_mem st));
                  let st = set_md s st;
                  if ret < 0 then Some (ret, free_obj (Text_Obj p) (free_obj (Seq_Obj k) st))
                  else Some (0, st\<lparr>seq_bufs := (seq_bufs st)(k := Some (seq_buf_init sz))\<rparr>) })"

definition register_dump :: "reg_env \<Rightarrow> dump_kind \<Rightarrow> panic_state \<Rightarrow> panic_state option" where
  "register_dump env k st = do {
     (_, m) \<leftarrow> md_register_memory_dump (mem_env_of env) (ucast (dump_size (ps_mem st) k)) (dump_name k) (ps_mem st);
     Some (st\<lparr>ps_mem := m\<rparr>) }"

definition register_buf :: "reg_env \<Rightarrow> panic_buf \<Rightarrow> panic_state \<Rightarrow> panic_state option" where
  "register_buf env k st = do {
     (_, st) \<leftarrow> md_register_panic_entries env (panic_pages (config_all_tasks env) k) k st;
     Some st }"

definition register_page_owner :: "reg_env \<Rightarrow> panic_state \<Rightarrow> panic_state option" where
  "register_page_owner env st = do {
     st \<leftarrow> register_dump env PAGEOWNER st;
     Some (st\<lparr>minidump_dir := md_debugfs_pageowner (minidump_dir st)\<rparr>) }"

definition register_slab_owner :: "reg_env \<Rightarrow> slab_env \<Rightarrow> panic_state \<Rightarrow> panic_state option" where
  "register_slab_owner env senv st = do {
     st \<leftarrow> register_dump env SLABOWNER st;
     let (dir, ss) = md_debugfs_slabowner senv (minidump_dir st, ps_slab st);
     Some (st\<lparr>minidump_dir := dir, ps_slab := ss\<rparr>) }"

definition md_register_panic_data :: "reg_env \<Rightarrow> slab_env \<Rightarrow> panic_state \<Rightarrow> panic_state option" where
  "md_register_panic_data env senv st = do {
     st \<leftarrow> register_buf env KRUNQUEUE st;
     st \<leftarrow> (if config_cpu_context env then register_buf env KCNTXT st else Some st);
     st \<leftarrow> register_buf env MEMINFO st;
     st \<leftarrow> (if config_slub_debug env then register_buf env SLABINFO st else Some st);
     st \<leftarrow> (if config_page_owner env \<and> is_page_owner_enabled env then register_page_owner env st else Some st);
     st \<leftarrow> (if config_slub_debug env \<and> is_slub_debug_enabled env then register_slab_owner env senv st else Some st);
     st \<leftarrow> register_dump env DMA_INFO st;
     let st = st\<lparr>minidump_dir := md_debugfs_dmabufinfo (minidump_dir st)\<rparr>;
     st \<leftarrow> register_dump env DMA_PROC st;
     Some (st\<lparr>minidump_dir := md_debugfs_dmabufprocs (minidump_dir st)\<rparr>) }"

subsection \<open>The dump\<close>

text \<open>What the kernel holds when it dies.\<close>

record panic_env =
  pe_page_offset :: u64
  pe_kmem :: kmem
  this_cpu :: nat
  panic_regs :: pt_regs
  possible_cpus :: "nat list"
  run_queues :: "(nat \<times> rq) list"
  threads :: "sched_task list"
  config_walt :: bool
  pe_all_tasks :: bool
  pe_cpu_context :: bool
  counters :: mem_counters
  config_debug_slab :: bool
  slab_trylock :: bool
  slab_list :: "(kmem_cache \<times> slabinfo) list"
  pe_owner :: owner_env
  pe_slab :: slab_env
  pe_in_task :: bool
  dma_bufs :: "dma_buf list"
  pe_dma_hash :: "dma_buf \<Rightarrow> u32"
  processes :: "process list"

definition upd_buf :: "panic_buf \<Rightarrow> (seq_buf \<Rightarrow> seq_buf) \<Rightarrow> panic_state \<Rightarrow> panic_state" where
  "upd_buf k f st = st\<lparr>seq_bufs := (seq_bufs st)(k := map_option f (seq_bufs st k))\<rparr>"

definition md_die_context_notify :: "panic_env \<Rightarrow> pt_regs \<Rightarrow> panic_state \<Rightarrow> int \<times> panic_state" where
  "md_die_context_notify env r st =
     (if md_in_oops_handler st then (0, st)
      else if seq_bufs st KCNTXT = None then (0, st\<lparr>md_in_oops_handler := False\<rparr>)
      else let st = st\<lparr>die_cpu := int (this_cpu env)\<rparr>;
               st = upd_buf KCNTXT (seq_buf_printf ([LF] @ ''DIE CPU : '' @ int_str (die_cpu st) @ [LF])) st;
               st = upd_buf KCNTXT (md_reg_context_data (pe_page_offset env) (pe_kmem env) r) st
           in (0, st\<lparr>md_in_oops_handler := False\<rparr>))"

definition md_ipi_stop :: "nat \<Rightarrow> pt_regs \<Rightarrow> panic_state \<Rightarrow> panic_state" where
  "md_ipi_stop cpu r st = st\<lparr>regs_before_stop := (regs_before_stop st)(cpu := r)\<rparr>"

definition dump_context :: "panic_env \<Rightarrow> panic_state \<Rightarrow> panic_state" where
  "dump_context env st =
     (if \<not> pe_cpu_context env \<or> seq_bufs st KCNTXT = None then st
      else let st = (if int (this_cpu env) \<noteq> die_cpu st
                     then upd_buf KCNTXT (md_dump_panic_regs (pe_page_offset env) (pe_kmem env) (this_cpu env) (panic_regs env)) st
                     else st)
           in upd_buf KCNTXT (md_dump_other_cpus_context (pe_page_offset env) (pe_kmem env) (regs_before_stop st)
                (possible_cpus env)) st)"

definition dump_pages_of :: "panic_env \<Rightarrow> panic_state \<Rightarrow> panic_state option" where
  "dump_pages_of env st =
     (if dump_addr (ps_mem st) PAGEOWNER = None then Some st
      else do {
        (os, b) \<leftarrow> md_dump_pageowner (pe_owner env) (dump_cap (ps_mem st) PAGEOWNER) (unat (dump_size (ps_mem st) PAGEOWNER))
           (ps_owner st, dump_mem (ps_mem st) PAGEOWNER);
        Some (set_mem PAGEOWNER b (st\<lparr>ps_owner := os\<rparr>)) })"

definition dump_slabs_of :: "panic_env \<Rightarrow> panic_state \<Rightarrow> panic_state option" where
  "dump_slabs_of env st =
     (if dump_addr (ps_mem st) SLABOWNER = None then Some st
      else do {
        (ss, b) \<leftarrow> md_dump_slabowner (pe_slab env) (dump_cap (ps_mem st) SLABOWNER) (unat (dump_size (ps_mem st) SLABOWNER))
           (ps_slab st, dump_mem (ps_mem st) SLABOWNER);
        Some (set_mem SLABOWNER b (st\<lparr>ps_slab := ss\<rparr>)) })"

definition dump_dma_info_of :: "panic_env \<Rightarrow> panic_state \<Rightarrow> panic_state option" where
  "dump_dma_info_of env st =
     (if dump_addr (ps_mem st) DMA_INFO = None then Some st
      else do {
        (_, b) \<leftarrow> md_dma_buf_info (dump_cap (ps_mem st) DMA_INFO) (pe_in_task env) (dma_bufs env)
           (unat (dump_size (ps_mem st) DMA_INFO)) (dump_mem (ps_mem st) DMA_INFO);
        Some (set_mem DMA_INFO b st) })"

definition dump_dma_procs_of :: "panic_env \<Rightarrow> panic_state \<Rightarrow> panic_state option" where
  "dump_dma_procs_of env st =
     (if dump_addr (ps_mem st) DMA_PROC = None then Some st
      else do {
        (h, _, b) \<leftarrow> md_dma_buf_procs (dump_cap (ps_mem st) DMA_PROC) (pe_dma_hash env) (processes env)
           (unat (dump_size (ps_mem st) DMA_PROC)) (dma_buf_hash st, init_priv 0, dump_mem (ps_mem st) DMA_PROC);
        Some (set_mem DMA_PROC b (st\<lparr>dma_buf_hash := h\<rparr>)) })"

text \<open>\<^verbatim>\<open>atomic_add_unless(&md_handle_done, 1, 1)\<close> lets the first caller pass.\<close>

definition md_dump_process :: "panic_env \<Rightarrow> panic_state \<Rightarrow> panic_state option" where
  "md_dump_process env st =
     (if md_in_oops_handler st then Some st
      else if md_handle_done st then Some st
      else do {
        let st = st\<lparr>md_handle_done := True, md_in_oops_handler := True\<rparr>;
        let st = dump_context env st;
        (q, n) \<leftarrow> md_dump_runqueues (config_walt env) (pe_all_tasks env) (run_queues env) (threads env)
           (seq_bufs st KRUNQUEUE, ps_align_offset st);
        let st = st\<lparr>seq_bufs := (seq_bufs st)(KRUNQUEUE := q), ps_align_offset := n\<rparr>;
        let st = upd_buf MEMINFO (md_dump_meminfo (counters env)) st;
        let st = upd_buf SLABINFO (md_dump_slabinfo (config_debug_slab env) (slab_trylock env) (slab_list env)) st;
        st \<leftarrow> dump_pages_of env st;
        st \<leftarrow> dump_slabs_of env st;
        st \<leftarrow> dump_dma_info_of env st;
        st \<leftarrow> dump_dma_procs_of env st;
        Some (st\<lparr>md_in_oops_handler := False\<rparr>) })"

definition md_panic_handler :: "panic_env \<Rightarrow> panic_state \<Rightarrow> (int \<times> panic_state) option" where
  "md_panic_handler env st = do { st \<leftarrow> md_dump_process env st; Some (0, st) }"

subsection \<open>Registration leaves nothing behind when it fails\<close>

lemma register_panic_entries_cases:
  assumes "md_register_panic_entries env n k st = Some (ret, st')"
  shows "ret < 0 \<and> st' = st \<or>
    ret = 0 \<and> (\<exists>p. text_alloc env k = Some p \<and> heap_live st' = Seq_Obj k # Text_Obj p # heap_live st \<and>
      seq_bufs st' = (seq_bufs st)(k := Some (seq_buf_init (n * PAGE_SIZE))) \<and>
      (\<exists>r. msm_minidump_add_region (mem_alloc (mem_env_of env)) (Some (panic_region (panic_name k) p
        (mem_virt_to_phys (mem_env_of env) p) (of_nat (n * PAGE_SIZE)))) (mem_md (ps_mem st)) = Some (r, mem_md (ps_mem st')) \<and> 0 \<le> r))"
proof (cases "text_alloc env k")
  case None
  then show ?thesis using assms by (auto simp: md_register_panic_entries_def errno_defs)
next
  case (Some p)
  show ?thesis
  proof (cases "seq_alloc env k")
    case False
    then show ?thesis using assms Some
      by (auto simp: md_register_panic_entries_def errno_defs new_obj_def free_obj_def)
  next
    case True
    let ?e = "panic_region (panic_name k) p (mem_virt_to_phys (mem_env_of env) p) (of_nat (n * PAGE_SIZE))"
    from assms Some True obtain r s where
      r: "msm_minidump_add_region (mem_alloc (mem_env_of env)) (Some ?e) (mem_md (ps_mem st)) = Some (r, s)"
      by (auto simp: md_register_panic_entries_def md_register_minidump_entry_def new_obj_def Let_def elim!: bind_SomeE)
    show ?thesis
    proof (cases "r < 0")
      case neg: True
      with add_region_cases [OF r] have "s = mem_md (ps_mem st)" by auto
      with assms Some True r neg show ?thesis
        by (auto simp: md_register_panic_entries_def md_register_minidump_entry_def new_obj_def free_obj_def set_md_def)
    next
      case False
      with assms Some True r show ?thesis
        by (auto simp: md_register_panic_entries_def md_register_minidump_entry_def new_obj_def set_md_def)
    qed
  qed
qed

subsection \<open>The dump is made once\<close>

lemma upd_buf_simps [simp]:
  "seq_bufs (upd_buf k f st) = (seq_bufs st)(k := map_option f (seq_bufs st k))"
  "md_handle_done (upd_buf k f st) = md_handle_done st" "ps_mem (upd_buf k f st) = ps_mem st"
  "ps_owner (upd_buf k f st) = ps_owner st" "ps_slab (upd_buf k f st) = ps_slab st"
  "ps_align_offset (upd_buf k f st) = ps_align_offset st"
  "dma_buf_hash (upd_buf k f st) = dma_buf_hash st" "die_cpu (upd_buf k f st) = die_cpu st"
  "regs_before_stop (upd_buf k f st) = regs_before_stop st"
  by (simp_all add: upd_buf_def)

lemma dump_context_simps [simp]:
  "md_handle_done (dump_context env st) = md_handle_done st" "ps_mem (dump_context env st) = ps_mem st"
  "ps_owner (dump_context env st) = ps_owner st" "ps_slab (dump_context env st) = ps_slab st"
  "ps_align_offset (dump_context env st) = ps_align_offset st" "dma_buf_hash (dump_context env st) = dma_buf_hash st"
  by (simp_all add: dump_context_def Let_def)

lemma set_mem_simps [simp]:
  "seq_bufs (set_mem k b st) = seq_bufs st" "md_handle_done (set_mem k b st) = md_handle_done st"
  "ps_owner (set_mem k b st) = ps_owner st" "ps_slab (set_mem k b st) = ps_slab st" "dump_addr (ps_mem (set_mem k b st)) = dump_addr (ps_mem st)"
  "dump_size (ps_mem (set_mem k b st)) = dump_size (ps_mem st)" "mem_md (ps_mem (set_mem k b st)) = mem_md (ps_mem st)"
  "dump_cap (ps_mem (set_mem k b st)) = dump_cap (ps_mem st)" "cma_live (ps_mem (set_mem k b st)) = cma_live (ps_mem st)"
  "dump_mem (ps_mem (set_mem k b st)) = (dump_mem (ps_mem st))(k := b)"
  by (simp_all add: set_mem_def dump_cap_def fun_eq_iff split: option.split)

lemma dump_of_done:
  "dump_pages_of env st = Some st' \<Longrightarrow> md_handle_done st' = md_handle_done st"
  "dump_slabs_of env st = Some st' \<Longrightarrow> md_handle_done st' = md_handle_done st"
  "dump_dma_info_of env st = Some st' \<Longrightarrow> md_handle_done st' = md_handle_done st"
  "dump_dma_procs_of env st = Some st' \<Longrightarrow> md_handle_done st' = md_handle_done st"
  by (auto simp: dump_pages_of_def dump_slabs_of_def dump_dma_info_of_def dump_dma_procs_of_def elim!: bind_SomeE split: if_split_asm)

lemma md_dump_process_done:
  assumes "md_dump_process env st = Some st'" and "\<not> md_in_oops_handler st"
  shows "md_handle_done st' \<and> \<not> md_in_oops_handler st'"
  using assms by (auto simp: md_dump_process_def Let_def dest!: dump_of_done elim!: bind_SomeE split: if_split_asm)

lemma md_dump_process_again: "md_handle_done st \<Longrightarrow> md_dump_process env st = Some st"
  by (simp add: md_dump_process_def)

subsection \<open>What the dump contains\<close>

definition context_text :: "panic_env \<Rightarrow> panic_state \<Rightarrow> string" where
  "context_text env st =
     (if \<not> pe_cpu_context env then []
      else (if int (this_cpu env) \<noteq> die_cpu st
      then ''PANIC CPU : '' @ dec_str (this_cpu env) @ [LF] @ regs_text (pe_page_offset env) (pe_kmem env) (panic_regs env)
      else []) @ others_text (pe_page_offset env) (pe_kmem env) (regs_before_stop st) (possible_cpus env))"

text \<open>The memory dumps lie in their regions.\<close>

definition dumps_ready :: "panic_state \<Rightarrow> bool" where
  "dumps_ready st \<longleftrightarrow> owner_ok (ps_owner st) \<and> slab_ok (ps_slab st) \<and> (\<forall>k. dump_addr (ps_mem st) k \<noteq> None \<longrightarrow>
     0 < unat (dump_size (ps_mem st) k) \<and> unat (dump_size (ps_mem st) k) \<le> dump_cap (ps_mem st) k)"

text \<open>
  The panic dump can run: the buffers are in order, the memory dumps lie in their regions, the slab owner dump is off or
  its text is shorter than its region (which it leaves otherwise), and the build is one without WALT (which follows a pointer
  that was never set).
\<close>

definition slab_fits :: "panic_env \<Rightarrow> panic_state \<Rightarrow> bool" where
  "slab_fits env st \<longleftrightarrow> dump_addr (ps_mem st) SLABOWNER \<noteq> None \<longrightarrow>
     slab_len (pe_slab env) (slab_owner_filter (ps_slab st)) < unat (dump_size (ps_mem st) SLABOWNER)"

definition panic_ready :: "panic_env \<Rightarrow> panic_state \<Rightarrow> bool" where
  "panic_ready env st \<longleftrightarrow> \<not> md_in_oops_handler st \<and> \<not> md_handle_done st \<and> \<not> config_walt env \<and>
     (\<forall>k m. seq_bufs st k = Some m \<longrightarrow> seq_wf m) \<and> slab_fits env st \<and> dumps_ready st"

text \<open>A memory dump changes nothing but the bytes of its region and the settings and tables it keeps.\<close>

definition only_dumps :: "panic_state \<Rightarrow> panic_state \<Rightarrow> bool" where
  "only_dumps st st' \<longleftrightarrow> seq_bufs st' = seq_bufs st \<and> dump_addr (ps_mem st') = dump_addr (ps_mem st) \<and>
     dump_size (ps_mem st') = dump_size (ps_mem st) \<and> mem_md (ps_mem st') = mem_md (ps_mem st) \<and>
     (\<forall>k. same_outside 0 (unat (dump_size (ps_mem st) k)) (dump_mem (ps_mem st) k) (dump_mem (ps_mem st') k))"

lemma only_dumps_refl: "only_dumps st st"
  by (simp add: only_dumps_def same_outside_def)

lemma only_dumps_trans: "only_dumps a b \<Longrightarrow> only_dumps b c \<Longrightarrow> only_dumps a c"
  unfolding only_dumps_def by (auto intro: same_outside_trans)

lemma dump_context_text:
  assumes "\<forall>m. seq_bufs st KCNTXT = Some m \<longrightarrow> seq_wf m"
  shows "seq_bufs (dump_context env st) =
     (seq_bufs st)(KCNTXT := map_option (seq_buf_printf (context_text env st)) (seq_bufs st KCNTXT))"
proof (cases "seq_bufs st KCNTXT")
  case (Some m)
  then have wf: "seq_wf m" using assms by simp
  show ?thesis
  proof (cases "pe_cpu_context env")
    case True
    with Some wf show ?thesis
      by (simp add: dump_context_def context_text_def md_dump_panic_regs_def md_reg_context_data_text
          md_dump_other_cpus_context_text seq_buf_printf_append Let_def)
  next
    case False
    with Some wf show ?thesis by (simp add: dump_context_def context_text_def seq_buf_printf_Nil fun_upd_idem)
  qed
qed (simp add: dump_context_def fun_upd_idem)

lemma dump_pages_of_ok:
  assumes "dumps_ready st"
  shows "\<exists>st'. dump_pages_of env st = Some st' \<and> only_dumps st st' \<and> dumps_ready st' \<and> ps_slab st' = ps_slab st"
proof (cases "dump_addr (ps_mem st) PAGEOWNER = None")
  case True
  then show ?thesis using assms by (simp add: dump_pages_of_def only_dumps_refl)
next
  case False
  let ?n = "unat (dump_size (ps_mem st) PAGEOWNER)" and ?b = "dump_mem (ps_mem st) PAGEOWNER"
  have ok: "owner_ok (ps_owner st)" "0 < ?n" "?n \<le> dump_cap (ps_mem st) PAGEOWNER"
    using assms False by (auto simp: dumps_ready_def)
  obtain m b where "md_dump_pageowner (pe_owner env) (dump_cap (ps_mem st) PAGEOWNER) ?n (ps_owner st, ?b) =
      Some ((ps_owner st)\<lparr>nr_handles := m\<rparr>, b)" "same_outside 0 ?n ?b b" "owner_ok ((ps_owner st)\<lparr>nr_handles := m\<rparr>)"
    using owner_loop_inside [OF ok(1), where off = 0 and left = ?n and dump_sz = ?n and cap = "dump_cap (ps_mem st) PAGEOWNER"
        and env = "pe_owner env" and b = ?b and pfn = "first_pfn (pe_owner env) (min_low_pfn (pe_owner env))"] ok(2,3)
    unfolding md_dump_pageowner_def by auto
  with False assms show ?thesis by (simp add: dump_pages_of_def only_dumps_def dumps_ready_def same_outside_def)
qed

lemma dump_slabs_of_ok:
  assumes "dumps_ready st" and "slab_fits env st"
  shows "\<exists>st'. dump_slabs_of env st = Some st' \<and> only_dumps st st' \<and> dumps_ready st'"
proof (cases "dump_addr (ps_mem st) SLABOWNER = None")
  case True
  then show ?thesis using assms by (simp add: dump_slabs_of_def only_dumps_refl)
next
  case False
  let ?n = "unat (dump_size (ps_mem st) SLABOWNER)" and ?b = "dump_mem (ps_mem st) SLABOWNER"
  have "slab_ok (ps_slab st)" "?n \<le> dump_cap (ps_mem st) SLABOWNER" "slab_len (pe_slab env) (slab_owner_filter (ps_slab st)) < ?n"
    using assms False by (auto simp: dumps_ready_def slab_fits_def)
  from md_dump_slabowner_fits [OF this, of ?b] obtain ss b where
    "md_dump_slabowner (pe_slab env) (dump_cap (ps_mem st) SLABOWNER) ?n (ps_slab st, ?b) = Some (ss, b)" "slab_ok ss"
    "same_outside 0 ?n ?b b" by blast
  with False assms(1) show ?thesis by (simp add: dump_slabs_of_def only_dumps_def dumps_ready_def same_outside_def)
qed

lemma dump_dma_info_of_ok:
  assumes "dumps_ready st"
  shows "\<exists>st'. dump_dma_info_of env st = Some st' \<and> only_dumps st st' \<and> dumps_ready st'"
proof (cases "dump_addr (ps_mem st) DMA_INFO = None")
  case True
  then show ?thesis using assms by (simp add: dump_dma_info_of_def only_dumps_refl)
next
  case False
  let ?n = "unat (dump_size (ps_mem st) DMA_INFO)" and ?b = "dump_mem (ps_mem st) DMA_INFO"
  have "0 < ?n" "?n \<le> dump_cap (ps_mem st) DMA_INFO" using assms False by (auto simp: dumps_ready_def)
  then obtain dp b where "md_dma_buf_info (dump_cap (ps_mem st) DMA_INFO) (pe_in_task env) (dma_bufs env) ?n ?b = Some (dp, b)"
    "same_outside 0 ?n ?b b" using md_dma_buf_info_ok [of ?n "dump_cap (ps_mem st) DMA_INFO"] by blast
  with False assms show ?thesis by (simp add: dump_dma_info_of_def only_dumps_def dumps_ready_def same_outside_def)
qed

lemma dump_dma_procs_of_ok:
  assumes "dumps_ready st"
  shows "\<exists>st'. dump_dma_procs_of env st = Some st' \<and> only_dumps st st' \<and> dumps_ready st'"
proof (cases "dump_addr (ps_mem st) DMA_PROC = None")
  case True
  then show ?thesis using assms by (simp add: dump_dma_procs_of_def only_dumps_refl)
next
  case False
  let ?n = "unat (dump_size (ps_mem st) DMA_PROC)" and ?b = "dump_mem (ps_mem st) DMA_PROC"
  have "0 < ?n" "?n \<le> dump_cap (ps_mem st) DMA_PROC" using assms False by (auto simp: dumps_ready_def)
  then obtain h dp b where "md_dma_buf_procs (dump_cap (ps_mem st) DMA_PROC) (pe_dma_hash env) (processes env) ?n
      (dma_buf_hash st, init_priv 0, ?b) = Some (h, dp, b)" "same_outside 0 ?n ?b b"
    using md_dma_buf_procs_ok [of ?n "dump_cap (ps_mem st) DMA_PROC" "pe_dma_hash env" "processes env" "dma_buf_hash st" "init_priv 0" ?b]
    by auto
  with False assms show ?thesis by (simp add: dump_dma_procs_of_def only_dumps_def dumps_ready_def same_outside_def)
qed

text \<open>All memory dumps, one after the other.\<close>

lemma memory_dumps_ok:
  assumes "dumps_ready st" and "slab_fits env st"
  obtains a a' b c where "dump_pages_of env st = Some a" and "dump_slabs_of env a = Some a'"
    and "dump_dma_info_of env a' = Some b" and "dump_dma_procs_of env b = Some c" and "only_dumps st c"
proof -
  obtain a where a: "dump_pages_of env st = Some a" "only_dumps st a" "dumps_ready a" "ps_slab a = ps_slab st"
    using dump_pages_of_ok [OF assms(1)] by blast
  have "slab_fits env a" using assms(2) a(2,4) by (simp add: slab_fits_def only_dumps_def)
  then obtain a' where a': "dump_slabs_of env a = Some a'" "only_dumps a a'" "dumps_ready a'" using dump_slabs_of_ok [OF a(3)] by blast
  obtain b where b: "dump_dma_info_of env a' = Some b" "only_dumps a' b" "dumps_ready b"
    using dump_dma_info_of_ok [OF a'(3)] by blast
  obtain c where c: "dump_dma_procs_of env b = Some c" "only_dumps b c" using dump_dma_procs_of_ok [OF b(3)] by blast
  have "only_dumps st c" using a(2) a'(2) b(2) c(2) only_dumps_trans by blast
  with that a(1) a'(1) b(1) c(1) show thesis by blast
qed

lemma md_dump_process_text:
  assumes ready: "panic_ready env st"
  defines "printed \<equiv> \<lambda>k out. map_option (seq_buf_printf out) (seq_bufs st k)"
  shows "\<exists>st'. md_dump_process env st = Some st' \<and>
     seq_bufs st' KCNTXT = printed KCNTXT (context_text env st) \<and>
     seq_bufs st' KRUNQUEUE = printed KRUNQUEUE (runq_text (pe_all_tasks env) (ps_align_offset st) (run_queues env) (threads env)) \<and>
     seq_bufs st' MEMINFO = printed MEMINFO (meminfo_text (counters env)) \<and>
     seq_bufs st' SLABINFO = printed SLABINFO (slabinfo_text (config_debug_slab env) (slab_trylock env) (slab_list env)) \<and>
     (\<forall>k. same_outside 0 (unat (dump_size (ps_mem st) k)) (dump_mem (ps_mem st) k) (dump_mem (ps_mem st') k))"
proof -
  let ?q = "runq_text (pe_all_tasks env) (ps_align_offset st) (run_queues env) (threads env)"
  let ?s = "slabinfo_text (config_debug_slab env) (slab_trylock env) (slab_list env)"
  let ?st0 = "st\<lparr>md_handle_done := True, md_in_oops_handler := True\<rparr>"
  let ?st1 = "dump_context env ?st0"
  from ready have wf: "\<And>k m. seq_bufs st k = Some m \<Longrightarrow> seq_wf m" and dumps: "dumps_ready st"
    and slab: "slab_fits env st"
    and conf: "\<not> config_walt env" "\<not> md_in_oops_handler st" "\<not> md_handle_done st"
    by (auto simp: panic_ready_def)
  have "context_text env ?st0 = context_text env st" by (simp add: context_text_def)
  then have st1: "seq_bufs ?st1 = (seq_bufs st)(KCNTXT := printed KCNTXT (context_text env st))"
    using dump_context_text [of ?st0 env] wf by (simp add: printed_def)
  have q: "md_dump_runqueues False (pe_all_tasks env) (run_queues env) (threads env) (seq_bufs ?st1 KRUNQUEUE, ps_align_offset ?st1) =
      Some (printed KRUNQUEUE ?q, ps_align_offset st)"
  proof (cases "seq_bufs st KRUNQUEUE")
    case (Some m)
    then show ?thesis using md_dump_runqueues_text [OF wf [OF Some]] st1 by (simp add: printed_def)
  qed (simp add: st1 md_dump_runqueues_def printed_def)
  define st2 where "st2 = upd_buf SLABINFO (md_dump_slabinfo (config_debug_slab env) (slab_trylock env) (slab_list env)) (upd_buf MEMINFO (md_dump_meminfo (counters env))
      (?st1\<lparr>seq_bufs := (seq_bufs ?st1)(KRUNQUEUE := printed KRUNQUEUE ?q), ps_align_offset := ps_align_offset st\<rparr>))"
  have mem: "map_option (md_dump_meminfo (counters env)) (seq_bufs st MEMINFO) = printed MEMINFO (meminfo_text (counters env))"
    using wf [of MEMINFO] by (cases "seq_bufs st MEMINFO") (simp_all add: printed_def md_dump_meminfo_text)
  have slabs: "map_option (md_dump_slabinfo (config_debug_slab env) (slab_trylock env) (slab_list env)) (seq_bufs st SLABINFO) = printed SLABINFO ?s"
    using wf [of SLABINFO] by (cases "seq_bufs st SLABINFO") (simp_all add: printed_def md_dump_slabinfo_text)
  have st2: "ps_mem st2 = ps_mem st" "ps_owner st2 = ps_owner st" "ps_slab st2 = ps_slab st"
    "seq_bufs st2 = (seq_bufs st)(KCNTXT := printed KCNTXT (context_text env st), KRUNQUEUE := printed KRUNQUEUE ?q,
       MEMINFO := printed MEMINFO (meminfo_text (counters env)),
       SLABINFO := printed SLABINFO ?s)"
    by (simp_all add: st2_def st1 mem slabs)
  have "dumps_ready st2" "slab_fits env st2" using dumps slab st2 by (simp_all add: dumps_ready_def slab_fits_def)
  then obtain a a' b c where run: "dump_pages_of env st2 = Some a" "dump_slabs_of env a = Some a'"
    "dump_dma_info_of env a' = Some b" "dump_dma_procs_of env b = Some c" "only_dumps st2 c" by (rule memory_dumps_ok)
  have "md_dump_process env st = Some (c\<lparr>md_in_oops_handler := False\<rparr>)"
    using conf q run(1-4) by (simp add: md_dump_process_def Let_def st2_def [symmetric])
  then show ?thesis using run(5) st2 by (auto simp: only_dumps_def)
qed

subsection \<open>Dying CPUs before the panic\<close>

text \<open>
  Every oops that the die notifier sees prints a line and the registers into the buffer that the panic uses later.
\<close>

definition die_text :: "panic_env \<times> pt_regs \<Rightarrow> string" where
  "die_text d = [LF] @ ''DIE CPU : '' @ dec_str (this_cpu (fst d)) @ [LF] @
     regs_text (pe_page_offset (fst d)) (pe_kmem (fst d)) (snd d)"

definition die_run :: "(panic_env \<times> pt_regs) list \<Rightarrow> panic_state \<Rightarrow> panic_state" where
  "die_run dies st = fold (\<lambda>(env, r) st. snd (md_die_context_notify env r st)) dies st"

lemma die_notify_text:
  assumes "\<not> md_in_oops_handler st" and "seq_bufs st KCNTXT = Some m" and "seq_wf m"
  shows "\<exists>c. snd (md_die_context_notify env r st) = st\<lparr>die_cpu := c,
     seq_bufs := (seq_bufs st)(KCNTXT := Some (seq_buf_printf (die_text (env, r)) m)), md_in_oops_handler := False\<rparr>"
  using assms
  by (auto simp: md_die_context_notify_def upd_buf_def die_text_def int_str_def md_reg_context_data_text
      seq_buf_printf_append Let_def)

lemma die_run_text:
  assumes "\<not> md_in_oops_handler st" and "seq_bufs st KCNTXT = Some m" and "seq_wf m"
  shows "\<exists>c. die_run dies st = st\<lparr>die_cpu := c,
     seq_bufs := (seq_bufs st)(KCNTXT := Some (seq_buf_printf (concat (map die_text dies)) m)), md_in_oops_handler := False\<rparr>"
  using assms
proof (induction dies arbitrary: st m)
  case Nil
  then show ?case by (intro exI [of _ "die_cpu st"]) (simp add: die_run_def fun_upd_idem)
next
  case (Cons d dies)
  obtain env r where d: "d = (env, r)" by (cases d)
  obtain c where c: "snd (md_die_context_notify env r st) = st\<lparr>die_cpu := c,
     seq_bufs := (seq_bufs st)(KCNTXT := Some (seq_buf_printf (die_text (env, r)) m)), md_in_oops_handler := False\<rparr>"
    (is "_ = ?st") using die_notify_text [OF Cons.prems] by blast
  have "die_run (d # dies) st = die_run dies ?st" by (simp add: die_run_def d c)
  then show ?case
    using Cons.IH [of ?st "seq_buf_printf (die_text (env, r)) m"] Cons.prems
    by (simp add: d seq_buf_printf_append cong: if_cong)
qed

lemma die_run_ready:
  assumes "panic_ready env st" and "seq_bufs st KCNTXT = Some m"
  shows "panic_ready env ((die_run dies st)\<lparr>regs_before_stop := rb\<rparr>)"
proof -
  have wf: "\<And>k m. seq_bufs st k = Some m \<Longrightarrow> seq_wf m" "\<not> md_in_oops_handler st"
    using assms(1) by (auto simp: panic_ready_def)
  from die_run_text [OF wf(2) assms(2) wf(1) [OF assms(2)], of dies] obtain c where
    "die_run dies st = st\<lparr>die_cpu := c, seq_bufs := (seq_bufs st)(KCNTXT := Some (seq_buf_printf (concat (map die_text dies)) m)),
       md_in_oops_handler := False\<rparr>" ..
  then show ?thesis
    using assms wf by (simp add: panic_ready_def slab_fits_def dumps_ready_def)
qed

lemma seq_buf_init_text: "0 < n \<Longrightarrow> sb_chars (seq_buf_printf out (seq_buf_init n)) = take (n - 1) out"
  by (auto simp: seq_buf_printf_def seq_buf_init_def)

text \<open>One line and one set of registers take at most 24043 characters; five of them fit into 32 pages.\<close>

lemma length_die_texts:
  assumes "\<forall>d \<in> set dies. this_cpu (fst d) < 1000"
  shows "length (concat (map die_text dies)) \<le> length dies * 24043"
  using assms
proof (induction dies)
  case (Cons d dies)
  have "length (die_text d) \<le> 24043"
    using length_regs_text [of "pe_page_offset (fst d)" "pe_kmem (fst d)" "snd d"]
      length_dec_str [of "this_cpu (fst d)" 3] Cons.prems by (simp add: die_text_def)
  with Cons show ?case by simp
qed simp

lemma length_context_text:
  assumes "\<forall>c \<in> set (possible_cpus env). c < 1000" and "this_cpu env < 1000"
  shows "length (context_text env st) \<le>
    ((if int (this_cpu env) = die_cpu st then 0 else 1) + length (possible_cpus env)) * 24043"
  using length_others_text [OF assms(1), of "pe_page_offset env" "pe_kmem env" "regs_before_stop st"]
    length_regs_text [of "pe_page_offset env" "pe_kmem env" "panic_regs env"] length_dec_str [of "this_cpu env" 3] assms(2)
  by (simp add: context_text_def)

end
