(* ===== verification/Md_Trace.thy ===== *)
theory Md_Trace
  imports Md_Log
begin

text \<open>
  The function trace in the minidump, from \<^verbatim>\<open>minidump/minidump_log.c\<close>: a buffer of 2 MB into which the
  trace events are copied while the kernel is dumping its trace, and which starts again from the
  beginning when an event does not fit behind the last one.  The hooks of the kernel's trace dump
  pass flags by reference; the model passes the flag in and returns it.
\<close>

subsection \<open>Definitions\<close>

definition MD_FTRACE_BUF_SIZE :: nat where "MD_FTRACE_BUF_SIZE = 0x200000"
definition SZ_256K :: nat where "SZ_256K = 0x40000"

record trace_state =
  md_ftrace_buf_addr :: "u64 option"
  md_ftrace_mem :: "char arr"
  md_ftrace_buf_current :: nat
  minidump_ftrace_in_oops :: bool
  minidump_ftrace_dump :: bool

definition init_trace :: trace_state where
  "init_trace = \<lparr>md_ftrace_buf_addr = None, md_ftrace_mem = (\<lambda>_. NUL), md_ftrace_buf_current = 0,
     minidump_ftrace_in_oops = False, minidump_ftrace_dump = True\<rparr>"

text \<open>\<open>ev\<close> holds the \<^verbatim>\<open>size\<close> bytes of the event.\<close>

definition minidump_add_trace_event :: "string \<Rightarrow> trace_state \<Rightarrow> trace_state option" where
  "minidump_add_trace_event ev st =
     (if md_ftrace_buf_addr st = None \<or> MD_FTRACE_BUF_SIZE < length ev then Some st
      else do {
        let cur = (if MD_FTRACE_BUF_SIZE < md_ftrace_buf_current st + length ev then 0
                   else md_ftrace_buf_current st);
        mem \<leftarrow> put_chars MD_FTRACE_BUF_SIZE cur ev (md_ftrace_mem st);
        Some (st\<lparr>md_ftrace_mem := mem, md_ftrace_buf_current := cur + length ev\<rparr>) })"

definition md_trace_oops_enter :: "trace_state \<Rightarrow> bool \<times> trace_state" where
  "md_trace_oops_enter st =
     (if \<not> minidump_ftrace_in_oops st then (False, st\<lparr>minidump_ftrace_in_oops := True\<rparr>) else (True, st))"

definition md_trace_oops_exit :: "trace_state \<Rightarrow> trace_state" where
  "md_trace_oops_exit st = st\<lparr>minidump_ftrace_in_oops := False\<rparr>"

definition md_update_trace_fmt :: "bool \<Rightarrow> bool" where
  "md_update_trace_fmt format_check = False"

definition md_buf_size_check :: "nat \<Rightarrow> bool \<Rightarrow> trace_state \<Rightarrow> bool \<times> trace_state" where
  "md_buf_size_check buffer_size size_check st =
     (if \<not> minidump_ftrace_dump st then (True, st)
      else if SZ_256K + PAGE_SIZE < buffer_size then (True, st\<lparr>minidump_ftrace_dump := False\<rparr>)
      else (size_check, st))"

definition md_dump_trace_buf :: "string \<Rightarrow> bool \<Rightarrow> trace_state \<Rightarrow> (bool \<times> trace_state) option" where
  "md_dump_trace_buf ev printk_check st =
     (if minidump_ftrace_in_oops st \<and> minidump_ftrace_dump st
      then do { st \<leftarrow> minidump_add_trace_event ev st; Some (False, st) }
      else Some (printk_check, st))"

text \<open>\<open>start\<close> is the buffer that \<^verbatim>\<open>kzalloc\<close> returns.\<close>

definition ftrace_region :: "log_env \<Rightarrow> u64 \<Rightarrow> md_region" where
  "ftrace_region env p = \<lparr>mdr_name = strscpy_str ''KFTRACE'' (MAX_NAME_LENGTH + 1), mdr_id = 0, virt_addr = p,
     phys_addr = log_virt_to_phys env p, mdr_size = of_nat MD_FTRACE_BUF_SIZE\<rparr>"

definition md_register_trace_buf ::
  "log_env \<Rightarrow> u64 option \<Rightarrow> trace_state \<times> md_globals \<Rightarrow> (trace_state \<times> md_globals) option" where
  "md_register_trace_buf env start st =
     (case start of
        None \<Rightarrow> Some st
      | Some p \<Rightarrow> do {
          (_, s) \<leftarrow> msm_minidump_add_region (log_alloc env) (Some (ftrace_region env p)) (snd st);
          Some ((fst st)\<lparr>md_ftrace_buf_addr := Some p, md_ftrace_mem := (\<lambda>_. NUL)\<rparr>, s) })"

subsection \<open>What the hooks promise\<close>

text \<open>
  The specification keeps the events of the current lap, the last ones that fit into the buffer
  one behind the other.
\<close>

record trace_spec =
  lap :: "string list"
  recording :: bool
  tracing :: bool

datatype trace_hook = Trace_Enter | Trace_Exit | Trace_Size nat bool | Trace_Buf string bool

definition lap_add :: "string \<Rightarrow> string list \<Rightarrow> string list" where
  "lap_add ev es =
     (if MD_FTRACE_BUF_SIZE < length ev then es
      else if MD_FTRACE_BUF_SIZE < length (concat es) + length ev then [ev] else es @ [ev])"

fun trace_spec_step :: "trace_hook \<Rightarrow> trace_spec \<Rightarrow> (bool \<times> trace_spec) option" where
  "trace_spec_step Trace_Enter a = Some (recording a, a\<lparr>recording := True\<rparr>)"
| "trace_spec_step Trace_Exit a = Some (False, a\<lparr>recording := False\<rparr>)"
| "trace_spec_step (Trace_Size n b) a =
     Some (b \<or> \<not> tracing a \<or> SZ_256K + PAGE_SIZE < n, a\<lparr>tracing := tracing a \<and> n \<le> SZ_256K + PAGE_SIZE\<rparr>)"
| "trace_spec_step (Trace_Buf ev b) a =
     (if recording a \<and> tracing a then Some (False, a\<lparr>lap := lap_add ev (lap a)\<rparr>) else Some (b, a))"

fun trace_step :: "trace_hook \<Rightarrow> trace_state \<Rightarrow> (bool \<times> trace_state) option" where
  "trace_step Trace_Enter st = Some (md_trace_oops_enter st)"
| "trace_step Trace_Exit st = Some (False, md_trace_oops_exit st)"
| "trace_step (Trace_Size n b) st = Some (md_buf_size_check n b st)"
| "trace_step (Trace_Buf ev b) st = md_dump_trace_buf ev b st"

definition trace_rep :: "trace_spec \<Rightarrow> trace_state \<Rightarrow> bool" where
  "trace_rep a st \<longleftrightarrow> md_ftrace_buf_addr st \<noteq> None \<and> minidump_ftrace_in_oops st = recording a \<and>
     minidump_ftrace_dump st = tracing a \<and> md_ftrace_buf_current st = length (concat (lap a)) \<and>
     length (concat (lap a)) \<le> MD_FTRACE_BUF_SIZE \<and>
     arr_list (md_ftrace_mem st) (md_ftrace_buf_current st) = concat (lap a)"

lemma add_trace_event_rep:
  assumes rep: "trace_rep a st"
  shows "\<exists>st'. minidump_add_trace_event ev st = Some st' \<and> trace_rep (a\<lparr>lap := lap_add ev (lap a)\<rparr>) st'"
proof (cases "MD_FTRACE_BUF_SIZE < length ev")
  case True
  then show ?thesis using rep by (auto simp: minidump_add_trace_event_def lap_add_def)
next
  case False
  let ?es = "if MD_FTRACE_BUF_SIZE < length (concat (lap a)) + length ev then [] else lap a"
  let ?cur = "length (concat ?es)" and ?mem = "md_ftrace_mem st"
  have cur: "?cur + length ev \<le> MD_FTRACE_BUF_SIZE" using False by simp
  have lap: "lap_add ev (lap a) = ?es @ [ev]" using False by (simp add: lap_add_def)
  have "arr_list ?mem ?cur = concat ?es"
  proof -
    have "arr_list ?mem (length (concat (lap a))) = concat (lap a)" using rep by (auto simp: trace_rep_def)
    then show ?thesis by simp
  qed
  then have "arr_list (arr_write ?mem ?cur ev) (?cur + length ev) = concat (?es @ [ev])"
    using arr_seg_write [of ?mem 0 ?cur ev] by simp
  moreover have "put_chars MD_FTRACE_BUF_SIZE ?cur ev ?mem = Some (arr_write ?mem ?cur ev)"
    using cur by (simp add: put_chars_def)
  ultimately show ?thesis
    using rep False cur unfolding lap by (auto simp: minidump_add_trace_event_def trace_rep_def Let_def)
qed

interpretation trace: simulation trace_rep trace_spec_step trace_step
proof
  fix a st x r a'
  assume rep: "trace_rep a st" and spec: "trace_spec_step x a = Some (r, a')"
  show "\<exists>st'. trace_step x st = Some (r, st') \<and> trace_rep a' st'"
  proof (cases x)
    case (Trace_Buf ev b)
    then show ?thesis using rep spec add_trace_event_rep [OF rep, of ev]
      by (auto simp: md_dump_trace_buf_def trace_rep_def split: if_splits)
  qed (use rep spec in \<open>auto simp: trace_rep_def md_trace_oops_enter_def md_trace_oops_exit_def
      md_buf_size_check_def\<close>)
qed

lemma register_trace_buf_rep:
  assumes "drv_rep bs p L s" and "''KFTRACE'' \<notin> set (map mdr_name L)" and "length L < MAX_ELF_REGIONS" and "v \<noteq> 0"
  shows "\<exists>s'. md_register_trace_buf env (Some v) (init_trace, s) =
       Some (init_trace\<lparr>md_ftrace_buf_addr := Some v\<rparr>, s') \<and> drv_rep bs p (L @ [ftrace_region env v]) s'"
proof -
  have "\<exists>s'. msm_minidump_add_region (log_alloc env) (Some (ftrace_region env v)) s = Some (int (length L), s') \<and>
      drv_rep bs p (L @ [ftrace_region env v]) s' \<and> first_removed_entry s' = first_removed_entry s"
    by (rule add_region_ok [OF assms(1)])
      (use assms in \<open>auto simp: ftrace_region_def wf_region_def cstring_def NUL_def MD_FTRACE_BUF_SIZE_def
        MAX_ELF_REGIONS_def md_consts\<close>)
  then show ?thesis by (auto simp: md_register_trace_buf_def init_trace_def)
qed

end
