(* ===== verification/Md_Module.thy ===== *)
theory Md_Module
  imports Md_Panic Md_Stack Md_Trace
begin

unbundle bit_operations_syntax

text \<open>
  The remaining regions of \<^verbatim>\<open>minidump/minidump_log.c\<close>: the data of key modules, which are registered page by page, the areas of
  pstore, and \<^verbatim>\<open>msm_minidump_log_init\<close> in a build with the optional features.
\<close>

subsection \<open>Virtually mapped memory\<close>

text \<open>The pieces of a range of \<open>len\<close> bytes: each ends at the latest at the next page boundary.\<close>

function vmap_chunks :: "u64 \<Rightarrow> nat \<Rightarrow> (u64 \<times> nat) list" where
  "vmap_chunks addr len =
     (if len = 0 then []
      else let n = min len (PAGE_SIZE - unat addr mod PAGE_SIZE)
           in (addr, n) # vmap_chunks (addr + of_nat n) (len - n))"
  by pat_completeness auto
termination
proof (relation "measure (\<lambda>(addr, len). len)")
  fix addr :: u64 and len n :: nat
  assume "len \<noteq> 0" and n: "n = min len (PAGE_SIZE - unat addr mod PAGE_SIZE)"
  have "unat addr mod PAGE_SIZE < PAGE_SIZE" by (simp add: PAGE_SIZE_def)
  with n \<open>len \<noteq> 0\<close> have "0 < n" "n \<le> len" by auto
  then show "((addr + of_nat n, len - n), addr, len) \<in> measure (\<lambda>(addr, len). len)"
    using \<open>len \<noteq> 0\<close> by simp
qed simp

declare vmap_chunks.simps [simp del]

definition vmap_name :: "nat \<Rightarrow> string \<Rightarrow> string" where
  "vmap_name i name = scnprintf_str 12 (dec_str i @ ''_'' @ name)"

definition vmap_region :: "stack_env \<Rightarrow> string \<Rightarrow> nat \<Rightarrow> u64 \<times> nat \<Rightarrow> md_region" where
  "vmap_region env name i c =
     panic_region (vmap_name i name) (fst c) (vmalloc_phys env (fst c)) (of_nat (snd c))"

fun register_chunks :: "stack_env \<Rightarrow> string \<Rightarrow> nat \<Rightarrow> (u64 \<times> nat) list \<Rightarrow> md_globals \<Rightarrow> md_globals option" where
  "register_chunks env name i [] s = Some s"
| "register_chunks env name i (c # cs) s = do {
     (_, s) \<leftarrow> md_register_minidump_entry (stack_alloc env) (vmap_name i name) (fst c) (vmalloc_phys env (fst c))
        (of_nat (snd c)) s;
     register_chunks env name (i + 1) cs s }"

definition register_vmap_mem :: "stack_env \<Rightarrow> string \<Rightarrow> u64 \<Rightarrow> nat \<Rightarrow> md_globals \<Rightarrow> (int \<times> md_globals) option" where
  "register_vmap_mem env name addr len s = do {
     s \<leftarrow> register_chunks env name 0 (vmap_chunks addr len) s;
     Some (0, s) }"

subsection \<open>Modules\<close>

record kmodule =
  mod_name :: string
  core_base :: u64
  core_size :: u64
  ro_after_init_size :: u64
  mod_sections :: "(string \<times> u64) list"
  mod_live :: bool
  this_module :: bool

text \<open>\<open>md_rm_info\<close> is what the resource manager answers when asked for free regions.\<close>

record module_env =
  key_modules :: "string list"
  mod_stack_env :: stack_env
  md_rm_info :: int

fun print_sections :: "u64 \<Rightarrow> u64 \<Rightarrow> (string \<times> u64) list \<Rightarrow> panic_state \<Rightarrow> panic_state" where
  "print_sections dump_start dump_end [] st = st"
| "print_sections dump_start dump_end ((nm, a) # ss) st =
     print_sections dump_start dump_end ss
       (if dump_start \<le> a \<and> a < dump_end
        then upd_buf KMODULES (seq_buf_printf ('', '' @ nm @ '': '' @ hex_str (unat a))) st else st)"

definition module_line :: "kmodule \<Rightarrow> string" where
  "module_line m = ''name: '' @ mod_name m @ '', base: '' @ hex_str (unat (core_base m))"

definition md_module_process :: "module_env \<Rightarrow> kmodule \<Rightarrow> panic_state \<Rightarrow> (int \<times> panic_state) option" where
  "md_module_process env m st =
     (if seq_bufs st KMODULES = None then Some (0, st)
      else do {
        let st = upd_buf KMODULES (seq_buf_printf (module_line m)) st;
        st \<leftarrow> (if mod_name m \<in> set (key_modules env)
               then let dump_start = core_base m + ro_after_init_size m;
                        dump_end = core_base m + core_size m
                    in if (dump_end - dump_start) div PAGE_BYTES <
                          of_int (msm_minidump_get_available_region (md_rm_info env) (mem_md (ps_mem st)))
                       then do {
                         let st = print_sections dump_start dump_end (mod_sections m) st;
                         (_, s) \<leftarrow> register_vmap_mem (mod_stack_env env) (mod_name m) dump_start
                            (unat (dump_end - dump_start)) (mem_md (ps_mem st));
                         Some (set_md s st) }
                       else Some st
               else Some st);
        Some (0, upd_buf KMODULES (seq_buf_printf [LF]) st) })"

definition md_get_present_module :: "module_env \<Rightarrow> kmodule \<Rightarrow> panic_state \<Rightarrow> (int \<times> panic_state) option" where
  "md_get_present_module env m st = (if this_module m then Some (0, st) else md_module_process env m st)"

definition md_module_notify :: "module_env \<Rightarrow> kmodule \<Rightarrow> panic_state \<Rightarrow> (int \<times> panic_state) option" where
  "md_module_notify env m st = (if mod_live m then md_module_process env m st else Some (0, st))"

text \<open>\<open>notifier\<close> is the result of \<^verbatim>\<open>register_module_notifier\<close>; the flag says that the notifier is registered.\<close>

definition md_register_module_data :: "reg_env \<Rightarrow> int \<Rightarrow> panic_state \<Rightarrow> (bool \<times> panic_state) option" where
  "md_register_module_data env notifier st = do {
     (ret, st) \<leftarrow> md_register_panic_entries env (panic_pages (config_all_tasks env) KMODULES) KMODULES st;
     if ret \<noteq> 0 then Some (False, st)
     else Some (notifier = 0, upd_buf KMODULES (seq_buf_printf (''=== MODULE INFO ==='' @ [LF])) st) }"

subsection \<open>The areas of pstore\<close>

text \<open>
  What the device tree says: whether there is a node, where its memory is (as a resource or, failing that, as reserved
  memory), and the sizes of the areas.
\<close>

record pstore_env =
  pstore_node :: bool
  pstore_resource :: "u64 option"
  pstore_reserved :: "u64 option"
  pstore_sizes :: "string \<Rightarrow> u32 option"
  phys_to_virt :: "u64 \<Rightarrow> u64"
  pstore_alloc :: bool

definition pstore_region :: "pstore_env \<Rightarrow> string \<Rightarrow> u64 \<Rightarrow> u32 \<Rightarrow> md_region" where
  "pstore_region env name paddr sz = \<lparr>mdr_name = strscpy_str name (MAX_NAME_LENGTH + 1), mdr_id = 0,
     virt_addr = phys_to_virt env paddr, phys_addr = paddr, mdr_size = ucast sz\<rparr>"

definition pstore_areas :: "(string \<times> string) list" where
  "pstore_areas = [(''record-size'', ''KDMESG''), (''console-size'', ''KCONSOLE''), (''ftrace-size'', ''KFTRACE''),
     (''pmsg-size'', ''KPMSG'')]"

text \<open>The four blocks of the code, one after the other.\<close>

fun pstore_loop :: "pstore_env \<Rightarrow> (string \<times> string) list \<Rightarrow> u64 \<Rightarrow> md_globals \<Rightarrow> md_globals option" where
  "pstore_loop env [] paddr s = Some s"
| "pstore_loop env ((prop, name) # ps) paddr s =
     (case pstore_sizes env prop of
        None \<Rightarrow> pstore_loop env ps paddr s
      | Some sz \<Rightarrow>
          if sz = 0 then pstore_loop env ps paddr s
          else do {
            (_, s) \<leftarrow> msm_minidump_add_region (pstore_alloc env) (Some (pstore_region env name paddr sz)) s;
            pstore_loop env ps (paddr + ucast sz) s })"

definition register_pstore_info :: "pstore_env \<Rightarrow> md_globals \<Rightarrow> md_globals option" where
  "register_pstore_info env s =
     (if \<not> pstore_node env then Some s
      else case pstore_resource env of
        Some paddr \<Rightarrow> pstore_loop env pstore_areas paddr s
      | None \<Rightarrow>
          (case pstore_reserved env of
             None \<Rightarrow> Some s
           | Some paddr \<Rightarrow> pstore_loop env pstore_areas paddr s))"

subsection \<open>Initialisation with all features\<close>

text \<open>The optional features of the build, and what the kernel contributes to each of them.\<close>

record init_env =
  ie_log :: log_env
  config_stack :: bool
  config_pstore :: bool
  config_ftrace :: bool
  config_panic :: bool
  ie_stack :: stack_env
  ie_task :: task_ctx
  ie_cpus :: "nat list"
  ie_others :: "task_ctx list"
  ie_pstore :: pstore_env
  ie_ftrace_buf :: "u64 option"
  ie_panic :: reg_env
  ie_slab :: slab_env
  ie_notifier :: int

text \<open>The parts of the module's state; the tables of the driver are in \<open>in_md\<close>, and each part works on them in turn.\<close>

record init_state =
  in_log :: md_log
  in_stack :: stack_state
  in_trace :: trace_state
  in_panic :: panic_state
  in_md :: md_globals
  module_notifier :: bool
  panic_notifier :: bool
  die_notifier :: bool

definition init_stacks :: "init_env \<Rightarrow> init_state \<Rightarrow> init_state option" where
  "init_stacks env st = do {
     let v = is_vmap_stack (in_log st);
     k \<leftarrow> register_current_stack (ie_stack env) v (ie_task env) (ie_cpus env) (ie_others env)
        ((in_stack st)\<lparr>stack_md := in_md st\<rparr>);
     k \<leftarrow> register_suspend_context (ie_stack env) v (ie_task env) k;
     Some (st\<lparr>in_stack := k, in_md := stack_md k\<rparr>) }"

definition init_pstore :: "init_env \<Rightarrow> init_state \<Rightarrow> init_state option" where
  "init_pstore env st = do {
     s \<leftarrow> register_pstore_info (ie_pstore env) (in_md st);
     Some (st\<lparr>in_md := s\<rparr>) }"

definition init_ftrace :: "init_env \<Rightarrow> init_state \<Rightarrow> init_state option" where
  "init_ftrace env st = do {
     (t, s) \<leftarrow> md_register_trace_buf (ie_log env) (ie_ftrace_buf env) (in_trace st, in_md st);
     Some (st\<lparr>in_trace := t, in_md := s\<rparr>) }"

definition init_panic :: "init_env \<Rightarrow> init_state \<Rightarrow> init_state option" where
  "init_panic env st = do {
     (m, q) \<leftarrow> md_register_module_data (ie_panic env) (ie_notifier env) (set_md (in_md st) (in_panic st));
     q \<leftarrow> md_register_panic_data (ie_panic env) (ie_slab env) q;
     Some (st\<lparr>in_panic := q, in_md := mem_md (ps_mem q), module_notifier := m, panic_notifier := True,
       die_notifier := config_cpu_context (ie_panic env)\<rparr>) }"

definition log_init_features :: "init_env \<Rightarrow> init_state \<Rightarrow> init_state option" where
  "log_init_features env st = do {
     st \<leftarrow> (if config_stack env then init_stacks env st else Some st);
     st \<leftarrow> (if config_pstore env then init_pstore env st else Some st);
     st \<leftarrow> (if config_ftrace env then init_ftrace env st else Some st);
     if config_panic env then init_panic env st else Some st }"

definition log_init_all :: "init_env \<Rightarrow> init_state \<Rightarrow> (int \<times> init_state) option" where
  "log_init_all env st = do {
     (ret, lg, s) \<leftarrow> msm_minidump_log_init (ie_log env) (in_log st, in_md st);
     let st = st\<lparr>in_log := lg, in_md := s\<rparr>;
     if ret < 0 then Some (ret, st)
     else do { st \<leftarrow> log_init_features env st; Some (0, st) } }"

subsection \<open>The pieces of a range\<close>

definition chunk_bytes :: "u64 \<times> nat \<Rightarrow> u64 list" where
  "chunk_bytes c = map (\<lambda>i. fst c + of_nat i) [0..<snd c]"

lemma chunk_bytes_split: "n \<le> len \<Longrightarrow> chunk_bytes (addr, len) = chunk_bytes (addr, n) @ chunk_bytes (addr + of_nat n, len - n)"
proof -
  assume "n \<le> len"
  then have "[0..<len] = [0..<n] @ map (\<lambda>i. i + n) [0..<len - n]"
    using upt_add_eq_append [of 0 n "len - n"] by (simp add: map_add_upt)
  then show ?thesis by (simp add: chunk_bytes_def add.assoc add.commute comp_def)
qed

lemma vmap_chunks_0 [simp]: "vmap_chunks addr 0 = []"
  by (simp add: vmap_chunks.simps)

lemma vmap_chunks_step:
  assumes "0 < len"
  obtains n where "0 < n" and "n \<le> len" and "unat addr mod PAGE_SIZE + n \<le> PAGE_SIZE"
    and "n = len \<or> (unat addr + n) mod PAGE_SIZE = 0"
    and "vmap_chunks addr len = (addr, n) # vmap_chunks (addr + of_nat n) (len - n)"
proof
  let ?n = "min len (PAGE_SIZE - unat addr mod PAGE_SIZE)"
  have less: "unat addr mod PAGE_SIZE < PAGE_SIZE" by (simp add: PAGE_SIZE_def)
  then show "0 < ?n" "?n \<le> len" "unat addr mod PAGE_SIZE + ?n \<le> PAGE_SIZE" using assms by auto
  show "?n = len \<or> (unat addr + ?n) mod PAGE_SIZE = 0"
  proof (cases "?n = len")
    case False
    then have "?n = PAGE_SIZE - unat addr mod PAGE_SIZE" by (simp add: min_def split: if_splits)
    then have "(unat addr + ?n) mod PAGE_SIZE = (unat addr mod PAGE_SIZE + (PAGE_SIZE - unat addr mod PAGE_SIZE)) mod PAGE_SIZE"
      by (simp add: mod_add_left_eq)
    also have "\<dots> = 0" using less by simp
    finally show ?thesis by simp
  qed simp
  show "vmap_chunks addr len = (addr, ?n) # vmap_chunks (addr + of_nat ?n) (len - ?n)"
    using assms by (subst vmap_chunks.simps) (simp add: Let_def)
qed

text \<open>The pieces are the bytes of the range, in order and without a gap; none crosses a page boundary.\<close>

lemma vmap_chunks_cover: "concat (map chunk_bytes (vmap_chunks addr len)) = chunk_bytes (addr, len)"
proof (induction len arbitrary: addr rule: less_induct)
  case (less len)
  show ?case
  proof (cases "len = 0")
    case False
    then obtain n where "0 < n" "n \<le> len"
      "vmap_chunks addr len = (addr, n) # vmap_chunks (addr + of_nat n) (len - n)"
      by (auto elim: vmap_chunks_step [of len addr])
    then show ?thesis using less.IH [of "len - n" "addr + of_nat n"] chunk_bytes_split by simp
  qed (simp add: chunk_bytes_def)
qed

lemma vmap_chunks_inside: "(a, n) \<in> set (vmap_chunks addr len) \<Longrightarrow> 0 < n \<and> unat a mod PAGE_SIZE + n \<le> PAGE_SIZE"
proof (induction len arbitrary: addr rule: less_induct)
  case (less len)
  from less.prems have "0 < len" by (cases "len = 0") auto
  then obtain k where "0 < k" "k \<le> len" "unat addr mod PAGE_SIZE + k \<le> PAGE_SIZE"
    "vmap_chunks addr len = (addr, k) # vmap_chunks (addr + of_nat k) (len - k)"
    by (rule vmap_chunks_step)
  then show ?case using less.IH [of "len - k" "addr + of_nat k"] less.prems by auto
qed

lemma register_chunks_eq:
  "register_chunks env name i cs s =
     add_regions (stack_alloc env) (map (\<lambda>(j, c). vmap_region env name j c) (enumerate i cs)) s"
  by (induction cs arbitrary: i s)
    (auto simp: md_register_minidump_entry_def vmap_region_def intro!: Option.bind_cong split: bind_splits)

definition vmap_regions :: "stack_env \<Rightarrow> string \<Rightarrow> u64 \<Rightarrow> nat \<Rightarrow> md_region list" where
  "vmap_regions env name addr len = map (\<lambda>(j, c). vmap_region env name j c) (enumerate 0 (vmap_chunks addr len))"

lemma vmap_chunks_ok:
  assumes "(a, n) \<in> set (vmap_chunks addr len)" and "4 dvd unat addr" and "4 dvd len" and "addr \<noteq> 0"
    and "unat addr + len \<le> 2 ^ 64"
  shows "4 dvd n \<and> a \<noteq> 0"
  using assms
proof (induction len arbitrary: addr rule: less_induct)
  case (less len)
  from less.prems(1) have "0 < len" by (cases "len = 0") auto
  then obtain k where k: "0 < k" "k \<le> len" "k = len \<or> (unat addr + k) mod PAGE_SIZE = 0"
    "vmap_chunks addr len = (addr, k) # vmap_chunks (addr + of_nat k) (len - k)"
    by (rule vmap_chunks_step)
  have "4 dvd k"
  proof (cases "k = len")
    case False
    with k(3) have "(unat addr + k) mod 4096 = 0" by (simp add: PAGE_SIZE_def)
    then have "4096 dvd unat addr + k" by (rule mod_0_imp_dvd)
    then have "4 dvd unat addr + k" by (rule dvd_trans [rotated]) simp
    with less.prems(2) show ?thesis by (simp add: dvd_add_right_iff)
  qed (use less.prems in simp)
  show ?case
  proof (cases "k = len")
    case True
    then show ?thesis using k less.prems by auto
  next
    case False
    then have "unat addr + k < 2 ^ 64" using less.prems(5) k(2) by simp
    then have u: "unat (addr + of_nat k) = unat addr + k" by (simp add: unat_word_ariths unat_of_nat)
    then have "addr + of_nat k \<noteq> 0" using k(1) by (metis add_eq_0_iff_both_eq_0 less_numeral_extra(3) unsigned_0)
    moreover have "4 dvd unat (addr + of_nat k)" "4 dvd len - k" "unat (addr + of_nat k) + (len - k) \<le> 2 ^ 64"
      using u less.prems(2,3,5) \<open>4 dvd k\<close> k(2) by (simp_all add: dvd_diff_nat)
    moreover have "(a, n) = (addr, k) \<or> (a, n) \<in> set (vmap_chunks (addr + of_nat k) (len - k))"
      using less.prems(1) unfolding k(4) by simp
    ultimately show ?thesis
      using less.IH [of "len - k" "addr + of_nat k"] k(1,2) \<open>4 dvd k\<close> less.prems(4) by (elim disjE) simp_all
  qed
qed

lemma vmap_name_index:
  assumes "i < 1000"
  shows "takeWhile (\<lambda>c. c \<noteq> CHR ''_'') (vmap_name i nm) = dec_str i"
proof -
  have "length (dec_str i) \<le> 3" using length_dec_str [of i 3] assms by simp
  then have "vmap_name i nm = dec_str i @ CHR ''_'' # take (10 - length (dec_str i)) nm"
    by (simp add: vmap_name_def scnprintf_str_def take_Cons')
  moreover have "\<forall>c \<in> set (dec_str i). c \<noteq> CHR ''_''" using dec_str_no_underscore [of i] by auto
  ultimately show ?thesis using takeWhile_append2 [of "dec_str i" "\<lambda>c. c \<noteq> CHR ''_''"] by simp
qed

lemma vmap_name_inj: "i < 1000 \<Longrightarrow> j < 1000 \<Longrightarrow> vmap_name i nm = vmap_name j nm' \<Longrightarrow> i = j"
  using vmap_name_index [of i nm] vmap_name_index [of j nm'] by (simp add: dec_str_inj)

lemma cstring_take: "cstring s \<Longrightarrow> cstring (take n s)"
  by (auto simp: cstring_def dest: in_set_takeD)

lemma vmap_name_wf: "cstring nm \<Longrightarrow> cstring (vmap_name i nm)" "length (vmap_name i nm) \<le> 11"
  by (auto simp: vmap_name_def scnprintf_str_def cstring_take cstring_Cons NUL_def)

lemma vmap_region_simps [simp]:
  "mdr_name (vmap_region env nm i c) = vmap_name i nm" "virt_addr (vmap_region env nm i c) = fst c"
  "phys_addr (vmap_region env nm i c) = vmalloc_phys env (fst c)" "mdr_size (vmap_region env nm i c) = of_nat (snd c)"
  using vmap_name_wf(2) [of i nm] by (simp_all add: vmap_region_def panic_region_def md_consts)

lemma vmap_size: "(a, n) \<in> set (vmap_chunks addr len) \<Longrightarrow> unat (of_nat n :: u64) = n"
  using vmap_chunks_inside [of a n addr len] by (simp add: unat_of_nat PAGE_SIZE_def)

lemma vmap_names: "map mdr_name (vmap_regions env nm addr len) = map (\<lambda>i. vmap_name i nm) [0..<length (vmap_chunks addr len)]"
  by (rule nth_equalityI) (simp_all add: vmap_regions_def nth_enumerate_eq split_beta)

lemma distinct_vmap_names:
  "length (vmap_chunks addr len) \<le> 1000 \<Longrightarrow> distinct (map mdr_name (vmap_regions env nm addr len))"
  unfolding vmap_names by (auto simp: distinct_map inj_on_def intro: vmap_name_inj [of _ _ nm nm])

lemma vmap_chunk_regions:
  "map (\<lambda>r. (virt_addr r, unat (mdr_size r))) (vmap_regions env nm addr len) = vmap_chunks addr len"
proof (rule nth_equalityI)
  fix i assume "i < length (map (\<lambda>r. (virt_addr r, unat (mdr_size r))) (vmap_regions env nm addr len))"
  then have i: "i < length (vmap_chunks addr len)" by (simp add: vmap_regions_def)
  then show "map (\<lambda>r. (virt_addr r, unat (mdr_size r))) (vmap_regions env nm addr len) ! i = vmap_chunks addr len ! i"
    using vmap_size [of "fst (vmap_chunks addr len ! i)" "snd (vmap_chunks addr len ! i)" addr len]
    by (simp add: vmap_regions_def nth_enumerate_eq)
qed (simp add: vmap_regions_def)

lemma vmap_regions_wf:
  assumes "cstring nm" and "4 dvd unat addr" and "4 dvd len" and "addr \<noteq> 0" and "unat addr + len \<le> 2 ^ 64"
  shows "\<forall>r \<in> set (vmap_regions env nm addr len). wf_region r"
proof
  fix r assume "r \<in> set (vmap_regions env nm addr len)"
  then obtain i a n where r: "r = vmap_region env nm i (a, n)" and c: "(a, n) \<in> set (vmap_chunks addr len)"
    by (auto simp: vmap_regions_def in_set_enumerate_eq) (metis nth_mem)
  then show "wf_region r"
    using vmap_chunks_ok [OF c assms(2-5)] vmap_size [OF c] vmap_name_wf assms(1)
    by (auto simp: wf_region_def md_consts intro: order_trans [OF vmap_name_wf(2)])
qed

lemma register_vmap_mem_ok:
  assumes "drv_rep bs p L s" and "cstring nm" and "4 dvd unat addr" and "4 dvd len" and "addr \<noteq> 0"
    and "unat addr + len \<le> 2 ^ 64" and "set (map mdr_name L) \<inter> set (map mdr_name (vmap_regions env nm addr len)) = {}"
    and room: "length L + length (vmap_chunks addr len) \<le> MAX_ELF_REGIONS"
  shows "\<exists>s'. register_vmap_mem env nm addr len s = Some (0, s') \<and> drv_rep bs p (L @ vmap_regions env nm addr len) s'"
proof -
  have "distinct (map mdr_name L)" using assms(1) by (auto simp: drv_rep_def smem_rep_def table_rep_def)
  moreover have "distinct (map mdr_name (vmap_regions env nm addr len))"
    using room by (intro distinct_vmap_names) (simp add: MAX_ELF_REGIONS_def md_consts)
  ultimately have "distinct (map mdr_name (L @ vmap_regions env nm addr len))" using assms(7) by auto
  then have "\<exists>s'. add_regions (stack_alloc env) (vmap_regions env nm addr len) s = Some s' \<and>
      drv_rep bs p (L @ vmap_regions env nm addr len) s' \<and> first_removed_entry s' = first_removed_entry s"
    using room by (intro add_regions_ok [OF assms(1) vmap_regions_wf [OF assms(2-6)]]) (simp_all add: vmap_regions_def)
  then obtain s' where s': "add_regions (stack_alloc env) (vmap_regions env nm addr len) s = Some s'"
      "drv_rep bs p (L @ vmap_regions env nm addr len) s'" by blast
  then have "register_vmap_mem env nm addr len s = Some (0, s')"
    by (simp add: register_vmap_mem_def register_chunks_eq vmap_regions_def)
  with s'(2) show ?thesis by blast
qed

subsection \<open>The areas of pstore\<close>

text \<open>The areas that are present, one behind the other.\<close>

fun pstore_regions :: "pstore_env \<Rightarrow> (string \<times> string) list \<Rightarrow> u64 \<Rightarrow> md_region list" where
  "pstore_regions env [] paddr = []"
| "pstore_regions env ((prop, name) # ps) paddr =
     (case pstore_sizes env prop of
        None \<Rightarrow> pstore_regions env ps paddr
      | Some sz \<Rightarrow> if sz = 0 then pstore_regions env ps paddr
                  else pstore_region env name paddr sz # pstore_regions env ps (paddr + ucast sz))"

lemma pstore_loop_eq: "pstore_loop env ps paddr s = add_regions (pstore_alloc env) (pstore_regions env ps paddr) s"
  by (induction env ps paddr arbitrary: s rule: pstore_regions.induct)
    (auto intro!: Option.bind_cong split: option.split bind_splits)

definition pstore_base :: "pstore_env \<Rightarrow> u64 option" where
  "pstore_base env = (if \<not> pstore_node env then None
     else case pstore_resource env of Some a \<Rightarrow> Some a | None \<Rightarrow> pstore_reserved env)"

definition all_pstore :: "pstore_env \<Rightarrow> md_region list" where
  "all_pstore env = (case pstore_base env of None \<Rightarrow> [] | Some a \<Rightarrow> pstore_regions env pstore_areas a)"

lemma register_pstore_info_eq: "register_pstore_info env s = add_regions (pstore_alloc env) (all_pstore env) s"
  by (simp add: register_pstore_info_def all_pstore_def pstore_base_def pstore_loop_eq split: option.split)

lemma pstore_region_name: "length name \<le> 12 \<Longrightarrow> mdr_name (pstore_region env name a sz) = name"
  by (simp add: pstore_region_def md_consts)

definition has_area :: "pstore_env \<Rightarrow> string \<Rightarrow> bool" where
  "has_area env prop = (case pstore_sizes env prop of None \<Rightarrow> False | Some sz \<Rightarrow> sz \<noteq> 0)"

lemma pstore_region_names:
  "\<forall>q \<in> set ps. length (snd q) \<le> 12 \<Longrightarrow>
   map mdr_name (pstore_regions env ps a) = map snd (filter (has_area env \<circ> fst) ps)"
  by (induction env ps a rule: pstore_regions.induct) (simp_all add: has_area_def pstore_region_name split: option.split)

text \<open>The areas have different names, and the one of the function trace has the name that \<^verbatim>\<open>md_register_trace_buf\<close> uses.\<close>

lemma all_pstore_names:
  "map mdr_name (all_pstore env) = (if pstore_base env = None then [] else map snd (filter (has_area env \<circ> fst) pstore_areas))"
proof -
  have "\<forall>q \<in> set pstore_areas. length (snd q) \<le> 12" by (simp add: pstore_areas_def)
  then show ?thesis by (simp add: all_pstore_def pstore_region_names split: option.split)
qed

lemma distinct_all_pstore: "distinct (map mdr_name (all_pstore env))"
  unfolding all_pstore_names by (simp add: pstore_areas_def)

lemma set_all_pstore: "set (map mdr_name (all_pstore env)) \<subseteq> set (map snd pstore_areas)"
  unfolding all_pstore_names by auto

lemma length_all_pstore: "length (all_pstore env) \<le> 4"
proof -
  have "length (map mdr_name (all_pstore env)) \<le> length pstore_areas"
    unfolding all_pstore_names by simp
  then show ?thesis by (simp add: pstore_areas_def)
qed

definition pstore_ftrace :: "pstore_env \<Rightarrow> bool" where
  "pstore_ftrace env \<longleftrightarrow> pstore_base env \<noteq> None \<and> has_area env ''ftrace-size''"

lemma pstore_ftrace_name: "pstore_ftrace env \<longleftrightarrow> ''KFTRACE'' \<in> set (map mdr_name (all_pstore env))"
  unfolding all_pstore_names pstore_ftrace_def by (auto simp: pstore_areas_def)

lemma ftrace_region_wf: "v \<noteq> 0 \<Longrightarrow> wf_region (ftrace_region env v)" "mdr_name (ftrace_region env v) = ''KFTRACE''"
  by (auto simp: ftrace_region_def wf_region_def cstring_def NUL_def MD_FTRACE_BUF_SIZE_def md_consts)

text \<open>
  With pstore and the function trace, the regions are the areas of pstore and, unless pstore already has an area of
  that name, the buffer of the trace; the trace hooks get their buffer in either case.
\<close>

lemma pstore_then_ftrace:
  assumes rep: "drv_rep bs p L s" and wf: "\<forall>r \<in> set (all_pstore (ie_pstore env)). wf_region r" and v: "v \<noteq> 0"
    and free: "set (map mdr_name L) \<inter> set (map snd pstore_areas) = {}"
    and room: "length L + 5 \<le> MAX_ELF_REGIONS" and buf: "ie_ftrace_buf env = Some v" and md: "in_md st = s"
  shows "\<exists>st'. (init_pstore env st \<bind> init_ftrace env) = Some st' \<and>
    drv_rep bs p (L @ all_pstore (ie_pstore env) @
      (if pstore_ftrace (ie_pstore env) then [] else [ftrace_region (ie_log env) v])) (in_md st') \<and>
    md_ftrace_buf_addr (in_trace st') = Some v"
proof -
  let ?P = "all_pstore (ie_pstore env)" and ?e = "ftrace_region (ie_log env) v"
  have "distinct (map mdr_name L)" using rep by (auto simp: drv_rep_def smem_rep_def table_rep_def)
  then have dist: "distinct (map mdr_name (L @ ?P))"
    using distinct_all_pstore [of "ie_pstore env"] set_all_pstore [of "ie_pstore env"] free
    unfolding map_append distinct_append by blast
  have free': "''KFTRACE'' \<notin> set (map mdr_name L)" using free by (auto simp: pstore_areas_def)
  have len: "length (L @ ?P) < MAX_ELF_REGIONS" using length_all_pstore [of "ie_pstore env"] room by simp
  have "\<exists>s'. add_regions (pstore_alloc (ie_pstore env)) ?P s = Some s' \<and> drv_rep bs p (L @ ?P) s' \<and>
      first_removed_entry s' = first_removed_entry s"
    by (rule add_regions_ok [OF rep wf dist]) (use len in simp)
  then obtain s1 where s1: "add_regions (pstore_alloc (ie_pstore env)) ?P s = Some s1" "drv_rep bs p (L @ ?P) s1" by blast
  have "\<exists>r s2. msm_minidump_add_region (log_alloc (ie_log env)) (Some ?e) s1 = Some (r, s2) \<and>
     drv_rep bs p (L @ ?P @ (if pstore_ftrace (ie_pstore env) then [] else [?e])) s2"
  proof (cases "pstore_ftrace (ie_pstore env)")
    case True
    then have "msm_minidump_add_region (log_alloc (ie_log env)) (Some ?e) s1 = Some (- EEXIST, s1)"
      using len v by (intro add_region_exists [OF s1(2)])
        (auto simp: ftrace_region_wf pstore_ftrace_name MAX_ELF_REGIONS_def md_consts)
    with True s1(2) show ?thesis by simp
  next
    case False
    then have "\<exists>s'. msm_minidump_add_region (log_alloc (ie_log env)) (Some ?e) s1 = Some (int (length (L @ ?P)), s') \<and>
        drv_rep bs p ((L @ ?P) @ [?e]) s' \<and> first_removed_entry s' = first_removed_entry s1"
      using len v free' by (intro add_region_ok [OF s1(2)])
        (auto simp: ftrace_region_wf pstore_ftrace_name MAX_ELF_REGIONS_def md_consts)
    with False show ?thesis by auto
  qed
  then show ?thesis using s1(1) md buf
    by (auto simp: init_pstore_def init_ftrace_def register_pstore_info_eq md_register_trace_buf_def)
qed

end
