(* ===== verification/Panic_Buffers.thy ===== *)
theory Panic_Buffers
  imports Md_Module
begin

text \<open>
  The sequence buffers of the panic dump under all operations of \<^verbatim>\<open>minidump/minidump_log.c\<close> and \<^verbatim>\<open>minidump/minidump_memory.c\<close>
  that touch their state, in any order: registration, module events, dying and stopping CPUs, the dump itself and writes to
  the files of the memory dumps.
\<close>

subsection \<open>Operations\<close>

datatype panic_op =
    Register_Modules int
  | Register_Panic
  | Module_Present kmodule
  | Module_Event kmodule
  | Cpu_Dies pt_regs
  | Cpu_Stops nat pt_regs
  | Kernel_Panics
  | Write_File debugfs_file user_write

record op_env =
  oe_reg :: reg_env
  oe_slab :: slab_env
  oe_module :: module_env
  oe_panic :: panic_env

definition ignore_result :: "'s option \<Rightarrow> (int \<times> 's) option" where
  "ignore_result x = map_option (Pair 0) x"

text \<open>A write to a file of the minidump directory.\<close>

definition panic_write :: "mem_env \<Rightarrow> slab_env \<Rightarrow> debugfs_file \<Rightarrow> user_write \<Rightarrow> panic_state \<Rightarrow> (int \<times> panic_state) option" where
  "panic_write env senv f w st =
     map_option (\<lambda>(n, os, ss, m). (n, st\<lparr>ps_owner := os, ps_slab := ss, ps_mem := m\<rparr>))
       (debugfs_write env senv (f, w) (ps_owner st, ps_slab st, ps_mem st))"

fun panic_step :: "op_env \<Rightarrow> panic_op \<Rightarrow> panic_state \<Rightarrow> (int \<times> panic_state) option" where
  "panic_step env (Register_Modules notifier) st =
     ignore_result (map_option snd (md_register_module_data (oe_reg env) notifier st))"
| "panic_step env Register_Panic st = ignore_result (md_register_panic_data (oe_reg env) (oe_slab env) st)"
| "panic_step env (Module_Present m) st = md_get_present_module (oe_module env) m st"
| "panic_step env (Module_Event m) st = md_module_notify (oe_module env) m st"
| "panic_step env (Cpu_Dies r) st = Some (md_die_context_notify (oe_panic env) r st)"
| "panic_step env (Cpu_Stops cpu r) st = Some (0, md_ipi_stop cpu r st)"
| "panic_step env Kernel_Panics st = md_panic_handler (oe_panic env) st"
| "panic_step env (Write_File f w) st =
     (if f \<notin> set (minidump_dir st) then Some (- ENOENT, st) else panic_write (mem_env_of (oe_reg env)) (oe_slab env) f w st)"

subsection \<open>The buffers keep their shape\<close>

text \<open>Every buffer that is present has the size it was registered with, and as many characters as its length says.\<close>

definition bufs_ok :: "bool \<Rightarrow> panic_state \<Rightarrow> bool" where
  "bufs_ok all_tasks st \<longleftrightarrow>
     (\<forall>k m. seq_bufs st k = Some m \<longrightarrow> seq_wf m \<and> sb_size m = panic_pages all_tasks k * PAGE_SIZE)"

text \<open>A dump routine may only print.\<close>

definition printer :: "(seq_buf \<Rightarrow> seq_buf) \<Rightarrow> bool" where
  "printer f \<longleftrightarrow> (\<forall>m. seq_wf m \<longrightarrow> seq_wf (f m) \<and> sb_size (f m) = sb_size m)"

lemma printer_printf [intro]: "printer (seq_buf_printf out)"
  by (simp add: printer_def)

lemma bufs_ok_upd [intro]: "bufs_ok a st \<Longrightarrow> printer f \<Longrightarrow> bufs_ok a (upd_buf k f st)"
  by (auto simp: bufs_ok_def printer_def)

lemma bufs_ok_printf: "bufs_ok a st \<Longrightarrow> bufs_ok a (upd_buf k (seq_buf_printf out) st)"
  by (rule bufs_ok_upd [OF _ printer_printf])

lemma bufs_ok_same: "seq_bufs st' = seq_bufs st \<Longrightarrow> bufs_ok a st \<Longrightarrow> bufs_ok a st'"
  by (simp add: bufs_ok_def)

lemma printer_regs [intro]: "printer (md_reg_context_data page_offset mem r)"
  by (simp add: printer_def md_reg_context_data_text)

lemma printer_panic_regs [intro]: "printer (md_dump_panic_regs page_offset mem cpu r)"
  by (simp add: printer_def md_dump_panic_regs_def md_reg_context_data_text)

lemma printer_others [intro]: "printer (md_dump_other_cpus_context page_offset mem before cpus)"
  by (simp add: printer_def md_dump_other_cpus_context_text)

lemma printer_meminfo [intro]: "printer (md_dump_meminfo c)"
  by (simp add: printer_def md_dump_meminfo_text)

lemma printer_slabinfo [intro]: "printer (md_dump_slabinfo debug trylock slabs)"
  by (simp add: printer_def md_dump_slabinfo_text)

lemma runqueues_print:
  assumes "md_dump_runqueues walt all_tasks rqs ts (Some m, k) = Some (q, n)" and "seq_wf m"
  shows "\<exists>out. q = Some (seq_buf_printf out m)"
proof (cases walt)
  case True
  let ?st = "fold runq_printf (task_titles True) (dump_cpu_rqs rqs \<lparr>runq_buf = m, md_align_offset = k\<rparr>)"
  have none: "listed all_tasks ts = []" using assms(1) md_dump_runqueues_walt True by (metis option.distinct(1))
  have "dump_tasks True all_tasks ts st = Some st" for st
    using none by (induction ts) (auto simp: listed_def split: if_splits)
  then have "q = Some (runq_buf ?st)" using assms(1) True by (simp add: md_dump_runqueues_def Let_def)
  then show ?thesis using assms(2) by (auto simp: dump_cpu_rqs_text runq_printf_fold runq_printf_append)
next
  case False
  then show ?thesis using assms md_dump_runqueues_text [OF assms(2)] by auto
qed

subsection \<open>Every operation keeps it\<close>

lemma register_panic_entries_bufs:
  assumes "md_register_panic_entries env (panic_pages a k) k st = Some (ret, st')" and "bufs_ok a st"
  shows "bufs_ok a st'"
proof -
  have "sb_size (seq_buf_init n) = n" for n by (simp add: seq_buf_init_def)
  with register_panic_entries_cases [OF assms(1)] assms(2) show ?thesis
    by (auto simp: bufs_ok_def split: if_split_asm)
qed

lemma register_buf_bufs: "register_buf env k st = Some st' \<Longrightarrow> bufs_ok (config_all_tasks env) st \<Longrightarrow> bufs_ok (config_all_tasks env) st'"
  by (auto simp: register_buf_def elim!: bind_SomeE dest: register_panic_entries_bufs)

lemma register_dump_bufs: "register_dump env k st = Some st' \<Longrightarrow> bufs_ok a st \<Longrightarrow> bufs_ok a st'"
  by (auto simp: register_dump_def bufs_ok_def elim!: bind_SomeE)

lemma bufs_ok_dir [simp]: "bufs_ok a (st\<lparr>minidump_dir := d\<rparr>) = bufs_ok a st" "bufs_ok a (st\<lparr>ps_slab := y\<rparr>) = bufs_ok a st"
  by (simp_all add: bufs_ok_def)

lemma register_owner_bufs:
  "register_page_owner env st = Some st' \<Longrightarrow> bufs_ok a st \<Longrightarrow> bufs_ok a st'"
  "register_slab_owner env senv st = Some st' \<Longrightarrow> bufs_ok a st \<Longrightarrow> bufs_ok a st'"
  by (auto simp: register_page_owner_def register_slab_owner_def elim!: bind_SomeE split: prod.splits;
      erule register_dump_bufs, assumption)+

lemma register_panic_data_bufs:
  assumes "md_register_panic_data env senv st = Some st'" and "bufs_ok (config_all_tasks env) st"
  shows "bufs_ok (config_all_tasks env) st'"
  using assms unfolding md_register_panic_data_def Let_def
  by (auto elim!: bind_SomeE split: if_split_asm
      dest!: register_buf_bufs register_dump_bufs [where a = "config_all_tasks env"] register_owner_bufs [where a = "config_all_tasks env"])

lemma register_module_data_bufs:
  assumes "md_register_module_data env notifier st = Some (b, st')" and "bufs_ok (config_all_tasks env) st"
  shows "bufs_ok (config_all_tasks env) st'"
proof -
  from assms(1) obtain ret st1 where
    "md_register_panic_entries env (panic_pages (config_all_tasks env) KMODULES) KMODULES st = Some (ret, st1)"
    "bufs_ok (config_all_tasks env) st1 \<longrightarrow> bufs_ok (config_all_tasks env) st'"
    by (auto simp: bufs_ok_printf md_register_module_data_def simp del: panic_pages.simps elim!: bind_SomeE split: if_split_asm)
  with register_panic_entries_bufs  assms(2) show ?thesis by blast
qed

lemma print_sections_bufs: "bufs_ok a st \<Longrightarrow> bufs_ok a (print_sections lo hi ss st)"
  by (induction lo hi ss st rule: print_sections.induct) (simp_all add: bufs_ok_printf)

lemma module_process_bufs:
  assumes "md_module_process env m st = Some (r, st')" and "bufs_ok a st"
  shows "bufs_ok a st'"
proof -
  have md: "bufs_ok a (set_md s x) = bufs_ok a x" for s x by (simp add: bufs_ok_def set_md_def)
  from assms show ?thesis
    unfolding md_module_process_def Let_def
    by (auto simp: md elim!: bind_SomeE split: if_split_asm intro!: bufs_ok_upd print_sections_bufs printer_printf)
qed

lemma dump_context_bufs: "bufs_ok a st \<Longrightarrow> bufs_ok a (dump_context env st)"
  by (auto simp: dump_context_def Let_def)

lemma dumps_bufs:
  "dump_pages_of env st = Some st' \<Longrightarrow> bufs_ok a st \<Longrightarrow> bufs_ok a st'"
  "dump_slabs_of env st = Some st' \<Longrightarrow> bufs_ok a st \<Longrightarrow> bufs_ok a st'"
  "dump_dma_info_of env st = Some st' \<Longrightarrow> bufs_ok a st \<Longrightarrow> bufs_ok a st'"
  "dump_dma_procs_of env st = Some st' \<Longrightarrow> bufs_ok a st \<Longrightarrow> bufs_ok a st'"
  by (auto simp: dump_pages_of_def dump_slabs_of_def dump_dma_info_of_def dump_dma_procs_of_def bufs_ok_def elim!: bind_SomeE split: if_split_asm)

lemma runq_bufs:
  assumes "md_dump_runqueues walt all_tasks rqs ts (seq_bufs st KRUNQUEUE, k) = Some (q, n)" and "bufs_ok a st"
  shows "bufs_ok a (st\<lparr>seq_bufs := (seq_bufs st)(KRUNQUEUE := q), ps_align_offset := n\<rparr>)"
proof (cases "seq_bufs st KRUNQUEUE")
  case None
  then show ?thesis using assms by (auto simp: md_dump_runqueues_def bufs_ok_def)
next
  case (Some m)
  then have "seq_wf m" using assms(2) by (simp add: bufs_ok_def)
  with assms(1) Some obtain out where "q = Some (seq_buf_printf out m)" using runqueues_print by metis
  then show ?thesis using assms(2) Some by (auto simp: bufs_ok_def)
qed

lemma dump_process_bufs:
  assumes "md_dump_process env st = Some st'" and ok: "bufs_ok a st"
  shows "bufs_ok a st'"
proof -
  have flags: "bufs_ok a (x\<lparr>md_handle_done := True, md_in_oops_handler := True\<rparr>) = bufs_ok a x"
    "bufs_ok a (x\<lparr>md_in_oops_handler := False\<rparr>) = bufs_ok a x" for x by (simp_all add: bufs_ok_def)
  show ?thesis
    using assms unfolding md_dump_process_def Let_def
    by (auto simp: flags elim!: bind_SomeE split: if_split_asm dest!: dumps_bufs [where a = a] runq_bufs [where a = a]
        intro: dump_context_bufs)
qed

lemma die_notify_bufs: "bufs_ok a st \<Longrightarrow> bufs_ok a (snd (md_die_context_notify env r st))"
proof -
  assume "bufs_ok a st"
  then have "bufs_ok a (x\<lparr>md_in_oops_handler := b\<rparr>) = bufs_ok a x" "bufs_ok a (st\<lparr>die_cpu := c\<rparr>)" for x b c
    by (simp_all add: bufs_ok_def)
  with \<open>bufs_ok a st\<close> show ?thesis
    by (simp add: md_die_context_notify_def Let_def bufs_ok_upd bufs_ok_printf printer_regs del: append.simps)
qed

interpretation panic_bufs: step_invariant "bufs_ok (config_all_tasks (oe_reg env))" "panic_step env" for env
proof
  fix st x r st'
  assume ok: "bufs_ok (config_all_tasks (oe_reg env)) st" and step: "panic_step env x st = Some (r, st')"
  show "bufs_ok (config_all_tasks (oe_reg env)) st'"
  proof (cases x)
    case (Cpu_Dies rs)
    then show ?thesis using die_notify_bufs [OF ok, of "oe_panic env" rs] step by simp
  next
    case (Write_File f w)
    then show ?thesis using ok step by (auto simp: panic_write_def bufs_ok_def split: if_split_asm)
  next
    case (Cpu_Stops cpu rs)
    then show ?thesis using ok step by (auto simp: md_ipi_stop_def bufs_ok_def)
  qed (use ok step in \<open>auto simp: ignore_result_def md_get_present_module_def md_module_notify_def md_panic_handler_def
      elim!: bind_SomeE split: if_split_asm dest: register_module_data_bufs register_panic_data_bufs
      module_process_bufs dump_process_bufs\<close>)
qed

end
