(* ===== verification/Panic_Settings.thy ===== *)
theory Panic_Settings
  imports Panic_Buffers
begin

text \<open>
  From the registration of the panic dump, through any use of its files in debugfs, to the dump itself: the memory dumps keep
  to their blocks.
\<close>

subsection \<open>The state between registration and panic\<close>

definition calm :: "mem_env \<Rightarrow> elf_base \<Rightarrow> md_region list \<Rightarrow> panic_state \<Rightarrow> bool" where
  "calm env bs A st \<longleftrightarrow> (\<exists>ks. dumps_rep env bs A ks (ps_mem st)) \<and> owner_ok (ps_owner st) \<and> nr_handles (ps_owner st) = 0 \<and>
     slab_ok (ps_slab st) \<and> num_handles (ps_slab st) = 0 \<and>
     (\<forall>k m. seq_bufs st k = Some m \<longrightarrow> seq_wf m) \<and> \<not> md_handle_done st \<and> \<not> md_in_oops_handler st"

lemma calm_ready:
  assumes "calm env bs A st" and "\<not> config_walt penv" and "slab_fits penv st"
  shows "panic_ready penv st"
proof -
  from assms(1) obtain ks where rep: "dumps_rep env bs A ks (ps_mem st)" by (auto simp: calm_def)
  show ?thesis using assms dumps_rep_cap(1,2) [OF rep] by (auto simp: calm_def panic_ready_def dumps_ready_def)
qed

subsection \<open>Writes to the files\<close>

text \<open>The sizes that are written to the files are below 2 GB, and the filter for slabs is below the numbers that its loop may not end for.\<close>

definition numbers_small :: "debugfs_file \<times> user_write \<Rightarrow> bool" where
  "numbers_small x \<longleftrightarrow> (case uw_number (snd x) of None \<Rightarrow> True
     | Some n \<Rightarrow>
         if fst x \<in> {Page_Owner_Dump_Size, Slab_Owner_Dump_Size, Dma_Buf_Info_Size, Dma_Buf_Procs_Size} then unat n < 2048
         else if fst x = Slab_Owner_Filter then n < 0xFFFFFFFF80000000 else True)"

lemma register_dump_other:
  "md_register_memory_dump env n (dump_name k) st = Some (b, st') \<Longrightarrow> j \<noteq> k \<Longrightarrow> dump_addr st' j = dump_addr st j"
  by (auto simp: md_register_memory_dump_def elim!: bind_SomeE split: option.split_asm if_split_asm)

lemma dump_size_write_calm:
  assumes "dumps_rep env bs A ks m" and "cma_ok env A" and "\<And>n. input = Some n \<Longrightarrow> unat n < 2048"
  shows "\<exists>r m' ks'. dump_size_write env k input count m = Some (r, m') \<and> dumps_rep env bs A ks' m'"
proof (cases input)
  case None
  then show ?thesis using assms by (auto simp: dump_size_write_def)
next
  case (Some n)
  then obtain m' ks' where "update_dump_size env k n m = Some m'" "dumps_rep env bs A ks' m'"
    using update_dump_size_rep [OF assms(1,2)] assms(3) by blast
  then show ?thesis using Some by (auto simp: dump_size_write_def)
qed

lemma owner_writes_ok:
  assumes "owner_ok os" and "nr_handles os = 0"
  shows "owner_ok (snd (page_owner_filter_write i n os)) \<and> nr_handles (snd (page_owner_filter_write i n os)) = 0"
    and "owner_ok (snd (page_owner_handle_write d i n os)) \<and> nr_handles (snd (page_owner_handle_write d i n os)) = 0"
    and "owner_ok (snd (page_owner_call_site_write al b n os)) \<and> nr_handles (snd (page_owner_call_site_write al b n os)) = 0"
  using assms by (auto simp: owner_ok_def page_owner_filter_write_def page_owner_handle_write_def
      page_owner_call_site_write_def Let_def dvd_mult split: option.split)

lemma panic_write_calm:
  assumes calm: "calm env bs A st" and al: "cma_ok env A" and small: "numbers_small (f, w)"
  shows "\<exists>r st'. panic_write env senv f w st = Some (r, st') \<and> calm env bs A st'"
proof -
  from calm obtain ks where rep: "dumps_rep env bs A ks (ps_mem st)"
    and own: "owner_ok (ps_owner st)" "nr_handles (ps_owner st) = 0"
    and slab: "slab_ok (ps_slab st)" "num_handles (ps_slab st) = 0" by (auto simp: calm_def)
  have mem: "\<exists>r st'. map_option (\<lambda>(n, os, ss, m). (n, st\<lparr>ps_owner := os, ps_slab := ss, ps_mem := m\<rparr>))
      (on_mem (dump_size_write env k (uw_number w) c (ps_mem st)) (ps_owner st, ps_slab st, ps_mem st)) = Some (r, st') \<and>
      calm env bs A st'"
    if num: "\<And>n. uw_number w = Some n \<Longrightarrow> unat n < 2048" for k c
  proof -
    obtain r m ks' where "dump_size_write env k (uw_number w) c (ps_mem st) = Some (r, m)" "dumps_rep env bs A ks' m"
      using dump_size_write_calm [OF rep al, of "uw_number w" k c] num by blast
    with calm show ?thesis by (auto simp: on_mem_def calm_def)
  qed
  have owner: "calm env bs A (st\<lparr>ps_owner := os, ps_slab := ps_slab st, ps_mem := ps_mem st\<rparr>)"
    if "owner_ok os \<and> nr_handles os = 0" for os using calm that by (auto simp: calm_def)
  have slabs: "calm env bs A (st\<lparr>ps_owner := ps_owner st, ps_slab := ss, ps_mem := ps_mem st\<rparr>)"
    if "slab_ok ss \<and> num_handles ss = 0" for ss using calm that by (auto simp: calm_def)
  have filter: "\<exists>r ss'. slab_owner_filter_write senv (uw_number w) c (ps_slab st) = Some (r, ss') \<and> slab_ok ss' \<and> num_handles ss' = 0"
    if "f = Slab_Owner_Filter" for c by (rule slab_filter_write_ok [OF slab]) (use small that in \<open>auto simp: numbers_small_def\<close>)
  have num: "\<And>n. uw_number w = Some n \<Longrightarrow> unat n < 2048"
    if "f \<in> {Page_Owner_Dump_Size, Slab_Owner_Dump_Size, Dma_Buf_Info_Size, Dma_Buf_Procs_Size}"
    using small that by (auto simp: numbers_small_def)
  show ?thesis
  proof (cases "f = Slab_Owner_Filter")
    case True
    obtain r ss where "slab_owner_filter_write senv (uw_number w) (uw_count w) (ps_slab st) = Some (r, ss)" "slab_ok ss \<and> num_handles ss = 0"
      using filter [OF True] by blast
    with slabs show ?thesis by (simp add: True panic_write_def on_slab_def)
  next
    case False
    then show ?thesis
      using mem num owner owner_writes_ok [OF own] slabs slab_writes_ok [OF slab]
      by (cases f) (simp_all add: panic_write_def page_owner_dump_size_write_def slab_owner_dump_size_write_def
          dma_buf_info_size_write_def dma_buf_procs_size_write_def on_owner_def on_slab_def split_beta)
  qed
qed

text \<open>Any sequence of writes to the files of the directory; a file that was not created is not found.\<close>

lemma writes_calm:
  assumes "calm (mem_env_of (oe_reg oe)) bs A st" and "cma_ok (mem_env_of (oe_reg oe)) A" and "\<forall>x \<in> set ws. numbers_small x"
  shows "\<exists>rs st'. run_ops (panic_step oe) (map (\<lambda>(f, w). Write_File f w) ws) st = Some (rs, st') \<and>
     calm (mem_env_of (oe_reg oe)) bs A st'"
  using assms(1,3)
proof (induction ws arbitrary: st)
  case (Cons x ws)
  obtain f w where x: "x = (f, w)" by (cases x)
  have "\<exists>r st1. panic_step oe (Write_File f w) st = Some (r, st1) \<and> calm (mem_env_of (oe_reg oe)) bs A st1"
  proof (cases "f \<in> set (minidump_dir st)")
    case True
    with panic_write_calm [OF Cons.prems(1) assms(2)] Cons.prems(2) show ?thesis by (simp add: x)
  qed (use Cons.prems(1) in simp)
  then obtain r st1 where st1: "panic_step oe (Write_File f w) st = Some (r, st1)" "calm (mem_env_of (oe_reg oe)) bs A st1" by blast
  obtain rs st2 where "run_ops (panic_step oe) (map (\<lambda>(f, w). Write_File f w) ws) st1 = Some (rs, st2)"
    "calm (mem_env_of (oe_reg oe)) bs A st2" using Cons.IH [OF st1(2)] Cons.prems(2) by auto
  with st1(1) show ?case by (simp add: x)
qed auto

subsection \<open>Registration\<close>

text \<open>The regions of the buffers that can be allocated.\<close>

definition buf_region :: "reg_env \<Rightarrow> panic_buf \<Rightarrow> u64 \<Rightarrow> md_region" where
  "buf_region env k p = panic_region (panic_name k) p (mem_virt_to_phys (mem_env_of env) p)
     (of_nat (panic_pages (config_all_tasks env) k * PAGE_SIZE))"

definition buf_regions :: "reg_env \<Rightarrow> panic_buf list \<Rightarrow> md_region list" where
  "buf_regions env ks = concat (map (\<lambda>k. case text_alloc env k of None \<Rightarrow> [] | Some p \<Rightarrow> [buf_region env k p]) ks)"

lemma panic_name_wf: "cstring (panic_name k)" "length (panic_name k) \<le> 12"
  by (cases k; simp add: cstring_def NUL_def)+

lemma panic_name_inj [simp]: "panic_name k = panic_name k' \<longleftrightarrow> k = k'"
  by (cases k; cases k') simp_all

lemma panic_name_dump [simp]: "panic_name k \<noteq> dump_name j" "dump_name j \<noteq> panic_name k"
  by (cases k; cases j; simp)+

lemma buf_region_wf: "p \<noteq> 0 \<Longrightarrow> wf_region (buf_region env k p)" "mdr_name (buf_region env k p) = panic_name k"
proof -
  have "panic_pages a k * 4096 < 2 ^ 64" for a by (cases k) simp_all
  then have "unat (of_nat (panic_pages a k * 4096) :: u64) = panic_pages a k * 4096" for a by (simp only: unat_of_nat) simp
  then have "4 dvd unat (of_nat (panic_pages a k * 4096) :: u64)" for a by (metis dvd_mult dvd_triv_right num_double numeral_times_numeral)
  then show "p \<noteq> 0 \<Longrightarrow> wf_region (buf_region env k p)"
    using panic_name_wf [of k] by (simp add: buf_region_def panic_region_def wf_region_def PAGE_SIZE_def md_consts)
  show "mdr_name (buf_region env k p) = panic_name k"
    using panic_name_wf [of k] by (simp add: buf_region_def panic_region_def md_consts)
qed

text \<open>The buffers \<open>ks\<close> have been tried, in a state without memory dumps.\<close>

definition fresh :: "mem_env \<Rightarrow> elf_base \<Rightarrow> md_region list \<Rightarrow> panic_state \<Rightarrow> bool" where
  "fresh env bs A st \<longleftrightarrow> dumps_rep env bs A [] (ps_mem st) \<and> dump_size (ps_mem st) = default_size \<and>
     ps_owner st = init_owner \<and> ps_slab st = init_slab \<and>
     (\<forall>k m. seq_bufs st k = Some m \<longrightarrow> seq_wf m) \<and> \<not> md_handle_done st \<and> \<not> md_in_oops_handler st"

definition buf_stage :: "reg_env \<Rightarrow> elf_base \<Rightarrow> md_region list \<Rightarrow> panic_buf list \<Rightarrow> panic_state \<Rightarrow> bool" where
  "buf_stage env bs L ks st \<longleftrightarrow> (\<exists>A. fresh (mem_env_of env) bs A st \<and> set A \<subseteq> set L \<union> set (buf_regions env ks) \<and>
     length A \<le> length L + length ks)"

lemma buf_regions_append: "set (buf_regions env (ks @ ls)) = set (buf_regions env ks) \<union> set (buf_regions env ls)"
  by (simp add: buf_regions_def)

lemma buf_regions_names: "mdr_name ` set (buf_regions env ks) \<subseteq> panic_name ` set ks"
  by (auto simp: buf_regions_def buf_region_wf split: option.splits)

lemma buf_stage_skip: "buf_stage env bs L ks st \<Longrightarrow> buf_stage env bs L (ks @ [k]) st"
  unfolding buf_stage_def buf_regions_append by (elim exE conjE, intro exI conjI) auto

lemma register_buf_fails:
  assumes "text_alloc env k = None \<or> \<not> seq_alloc env k"
  shows "register_buf env k st = Some st"
  using assms
  by (cases "text_alloc env k") (auto simp: register_buf_def md_register_panic_entries_def new_obj_def free_obj_def Let_def)

lemma register_buf_stage:
  assumes stage: "buf_stage env bs L ks st" and k: "k \<notin> set ks" "panic_name k \<notin> mdr_name ` set L"
    and room: "length L + length ks + 5 \<le> MAX_ELF_REGIONS" and nz: "text_alloc env k \<noteq> Some 0"
  shows "\<exists>st'. register_buf env k st = Some st' \<and> buf_stage env bs L (ks @ [k]) st'"
proof (cases "text_alloc env k = None \<or> \<not> seq_alloc env k")
  case True
  then show ?thesis using buf_stage_skip [OF stage] register_buf_fails by blast
next
  case False
  then obtain p where p: "text_alloc env k = Some p" "seq_alloc env k" "p \<noteq> 0" using nz by auto
  from stage obtain A where fr: "fresh (mem_env_of env) bs A st" and A: "set A \<subseteq> set L \<union> set (buf_regions env ks)"
    "length A \<le> length L + length ks" by (auto simp: buf_stage_def)
  let ?e = "buf_region env k p" and ?al = "mem_alloc (mem_env_of env)"
  from fr have drv: "drv_rep bs 0 A (mem_md (ps_mem st))" by (simp add: fresh_def dumps_rep_def)
  have nm: "mdr_name ?e \<notin> set (map mdr_name A)"
  proof
    assume "mdr_name ?e \<in> set (map mdr_name A)"
    then have "panic_name k \<in> mdr_name ` set L \<union> mdr_name ` set (buf_regions env ks)"
      using A(1) by (simp add: buf_region_wf image_Un [symmetric]) (metis image_mono subsetD)
    then have "panic_name k \<in> panic_name ` set ks" using k(2) buf_regions_names [of env ks] by blast
    with k(1) show False by auto
  qed
  have "\<exists>s'. msm_minidump_add_region ?al (Some ?e) (mem_md (ps_mem st)) = Some (int (length A), s') \<and>
      drv_rep bs 0 (A @ [?e]) s' \<and> first_removed_entry s' = first_removed_entry (mem_md (ps_mem st))"
    by (rule add_region_ok [OF drv]) (use nm p(3) A(2) room in \<open>auto simp: buf_region_wf MAX_ELF_REGIONS_def md_consts\<close>)
  then obtain s' where s': "msm_minidump_add_region ?al (Some ?e) (mem_md (ps_mem st)) = Some (int (length A), s')"
    "drv_rep bs 0 (A @ [?e]) s'" by blast
  let ?st = "(set_md s' (new_obj (Seq_Obj k) (new_obj (Text_Obj p) st)))\<lparr>seq_bufs := (seq_bufs st)(k := Some (seq_buf_init
      (panic_pages (config_all_tasks env) k * PAGE_SIZE)))\<rparr>"
  have "register_buf env k st = Some ?st"
    using p(1,2) s'(1) by (simp add: register_buf_def md_register_panic_entries_def md_register_minidump_entry_def Let_def
        buf_region_def new_obj_def set_md_def)
  moreover have "fresh (mem_env_of env) bs (A @ [?e]) ?st"
    using fr s'(2) A(2) room by (auto simp: fresh_def dumps_rep_def set_md_def new_obj_def buf_region_wf)
  moreover have "?e \<in> set (buf_regions env [k])" using p(1) by (simp add: buf_regions_def)
  ultimately show ?thesis using A unfolding buf_stage_def buf_regions_append
    by (intro exI [of _ ?st] conjI exI [of _ "A @ [?e]"]) auto
qed

lemma register_dump_calm:
  assumes calm: "calm (mem_env_of env) bs A st" and al: "cma_ok (mem_env_of env) A" and k: "dump_addr (ps_mem st) k = None"
    and sz: "dump_size (ps_mem st) = default_size"
  shows "\<exists>st'. register_dump env k st = Some st' \<and> calm (mem_env_of env) bs A st' \<and> dump_size (ps_mem st') = default_size \<and>
     (\<forall>j. j \<noteq> k \<longrightarrow> dump_addr (ps_mem st') j = dump_addr (ps_mem st) j)"
proof -
  let ?n = "dump_size (ps_mem st) k"
  from calm obtain ks where rep: "dumps_rep (mem_env_of env) bs A ks (ps_mem st)" by (auto simp: calm_def)
  have "k \<notin> set ks" using rep k by (auto simp: dumps_rep_def)
  moreover have "size_ok ?n" using sz size_ok_default by simp
  ultimately consider (no) "md_register_memory_dump (mem_env_of env) (ucast ?n) (dump_name k) (ps_mem st) = Some (False, ps_mem st)"
    | (yes) m where "md_register_memory_dump (mem_env_of env) (ucast ?n) (dump_name k) (ps_mem st) = Some (True, m)"
      "dump_size m = dump_size (ps_mem st)" "dumps_rep (mem_env_of env) bs A (ks @ [k]) (set_size k ?n m)"
    using register_dump_rep [OF rep _ al, of k ?n] by blast
  then show ?thesis
  proof cases
    case no
    then show ?thesis using calm sz by (simp add: register_dump_def)
  next
    case yes
    have "set_size k ?n m = m" using yes(2) by (simp add: set_size_def)
    moreover have "dump_addr m j = dump_addr (ps_mem st) j" if "j \<noteq> k" for j
      using register_dump_other [OF yes(1) that] .
    ultimately show ?thesis using yes calm sz by (auto simp: register_dump_def calm_def)
  qed
qed

lemma calm_dir:
  "calm env bs A (st\<lparr>minidump_dir := fs\<rparr>) = calm env bs A st"
  "slab_ok ss \<Longrightarrow> num_handles ss = 0 \<Longrightarrow> calm env bs A st \<Longrightarrow> calm env bs A (st\<lparr>minidump_dir := fs, ps_slab := ss\<rparr>)"
  by (auto simp: calm_def)

lemma fresh_calm: "fresh env bs A st \<Longrightarrow> calm env bs A st \<and> dump_size (ps_mem st) = default_size \<and> dump_addr (ps_mem st) = (\<lambda>_. None)"
  by (auto simp: fresh_def calm_def dumps_rep_def init_owner_def owner_ok_def
      init_slab_def slab_ok_def)

definition panic_bufs :: "panic_buf list" where "panic_bufs = [KRUNQUEUE, KCNTXT, MEMINFO, SLABINFO]"

text \<open>The platform on which the panic dump is registered.\<close>

definition panic_platform :: "reg_env \<Rightarrow> md_region list \<Rightarrow> bool" where
  "panic_platform env L \<longleftrightarrow> cma_ok (mem_env_of env) (L @ buf_regions env panic_bufs) \<and> (\<forall>k. text_alloc env k \<noteq> Some 0) \<and>
     length L + 8 \<le> MAX_ELF_REGIONS \<and> mdr_name ` set L \<inter> (range panic_name \<union> range dump_name) = {}"

lemma panic_platform_names:
  assumes "panic_platform env L"
  shows "panic_name k \<notin> mdr_name ` set L" "\<forall>k. dump_name k \<notin> mdr_name ` set L" "length L + 8 \<le> MAX_ELF_REGIONS"
    "text_alloc env k \<noteq> Some 0"
  using assms unfolding panic_platform_def by blast+

lemma register_bufs_stage:
  assumes plat: "panic_platform env L" and init: "buf_stage env bs L [] st"
  shows "\<exists>a b c d. register_buf env KRUNQUEUE st = Some a \<and>
     (if config_cpu_context env then register_buf env KCNTXT a else Some a) = Some b \<and> register_buf env MEMINFO b = Some c \<and>
     (if config_slub_debug env then register_buf env SLABINFO c else Some c) = Some d \<and> buf_stage env bs L panic_bufs d"
proof -
  have step: "\<exists>st'. (if c then register_buf env k st else Some st) = Some st' \<and> buf_stage env bs L (ks @ [k]) st'"
    if "buf_stage env bs L ks st" and "k \<notin> set ks" and "length ks \<le> 3" for c k ks st
    using register_buf_stage [OF that(1,2)] buf_stage_skip [OF that(1)] panic_platform_names [OF plat] that(3)
    by (cases c) simp_all
  obtain a where a: "register_buf env KRUNQUEUE st = Some a" "buf_stage env bs L [KRUNQUEUE] a"
    using step [OF init, of KRUNQUEUE True] by auto
  obtain b where b: "(if config_cpu_context env then register_buf env KCNTXT a else Some a) = Some b" "buf_stage env bs L [KRUNQUEUE, KCNTXT] b"
    using step [OF a(2), of KCNTXT "config_cpu_context env"] by auto
  obtain c where c: "register_buf env MEMINFO b = Some c" "buf_stage env bs L [KRUNQUEUE, KCNTXT, MEMINFO] c"
    using step [OF b(2), of MEMINFO True] by auto
  obtain d where "(if config_slub_debug env then register_buf env SLABINFO c else Some c) = Some d" "buf_stage env bs L panic_bufs d"
    using step [OF c(2), of SLABINFO "config_slub_debug env"] by (auto simp: panic_bufs_def)
  with a b c show ?thesis by blast
qed

lemma register_panic_data_calm:
  assumes plat: "panic_platform env L" and drv: "drv_rep bs 0 L s"
  shows "\<exists>st A. md_register_panic_data env senv (init_panic_state s) = Some st \<and> calm (mem_env_of env) bs A st \<and>
     set A \<subseteq> set (L @ buf_regions env panic_bufs)"
proof -
  have "fresh (mem_env_of env) bs L (init_panic_state s)"
    using panic_platform_names [OF plat] init_mem_rep [OF drv]
    by (simp add: fresh_def init_panic_state_def) (simp add: init_mem_def)
  then have "buf_stage env bs L [] (init_panic_state s)" by (auto simp: buf_stage_def)
  from register_bufs_stage [OF plat this] obtain a b c d where bufs: "register_buf env KRUNQUEUE (init_panic_state s) = Some a"
    "(if config_cpu_context env then register_buf env KCNTXT a else Some a) = Some b" "register_buf env MEMINFO b = Some c"
    "(if config_slub_debug env then register_buf env SLABINFO c else Some c) = Some d" "buf_stage env bs L panic_bufs d" by blast
  from bufs(5) obtain A where A: "fresh (mem_env_of env) bs A d" "set A \<subseteq> set (L @ buf_regions env panic_bufs)"
    by (auto simp: buf_stage_def)
  have al: "cma_ok (mem_env_of env) A" using plat A(2) by (fastforce simp: panic_platform_def cma_ok_def)
  note d = fresh_calm [OF A(1)]
  have reg: "\<exists>st'. register_dump env k st = Some st' \<and> calm (mem_env_of env) bs A st' \<and> dump_size (ps_mem st') = default_size \<and>
      (\<forall>j. j \<noteq> k \<longrightarrow> dump_addr (ps_mem st') j = dump_addr (ps_mem st) j)"
    if "calm (mem_env_of env) bs A st \<and> dump_size (ps_mem st) = default_size" "dump_addr (ps_mem st) k = None" for k st
    using register_dump_calm [OF _ al] that by blast
  obtain e where e: "(if config_page_owner env \<and> is_page_owner_enabled env then register_page_owner env d else Some d) = Some e"
    "calm (mem_env_of env) bs A e \<and> dump_size (ps_mem e) = default_size" "\<forall>j. j \<noteq> PAGEOWNER \<longrightarrow> dump_addr (ps_mem e) j = None"
  proof (cases "config_page_owner env \<and> is_page_owner_enabled env")
    case True
    obtain e where "register_dump env PAGEOWNER d = Some e" "calm (mem_env_of env) bs A e \<and> dump_size (ps_mem e) = default_size"
      "\<forall>j. j \<noteq> PAGEOWNER \<longrightarrow> dump_addr (ps_mem e) j = None" using reg [of d PAGEOWNER] d by auto
    then show thesis using that [of "e\<lparr>minidump_dir := md_debugfs_pageowner (minidump_dir e)\<rparr>"] True
      by (simp add: register_page_owner_def calm_dir)
  qed (use d that in auto)
  obtain f where f: "(if config_slub_debug env \<and> is_slub_debug_enabled env then register_slab_owner env senv e else Some e) = Some f"
    "calm (mem_env_of env) bs A f \<and> dump_size (ps_mem f) = default_size" "dump_addr (ps_mem f) DMA_INFO = None"
    "dump_addr (ps_mem f) DMA_PROC = None"
  proof (cases "config_slub_debug env \<and> is_slub_debug_enabled env")
    case True
    obtain f where f: "register_dump env SLABOWNER e = Some f" "calm (mem_env_of env) bs A f \<and> dump_size (ps_mem f) = default_size"
      "\<forall>j. j \<noteq> SLABOWNER \<longrightarrow> dump_addr (ps_mem f) j = dump_addr (ps_mem e) j" using reg [OF e(2), of SLABOWNER] e(3) by auto
    let ?f = "f\<lparr>minidump_dir := fst (md_debugfs_slabowner senv (minidump_dir f, ps_slab f)),
        ps_slab := default_filter senv (ps_slab f)\<rparr>"
    have "calm (mem_env_of env) bs A ?f" using f(2) default_filter_ok [of "ps_slab f" senv]
      by (intro calm_dir(2)) (auto simp: calm_def)
    with f e(3) True show thesis using that [of ?f] by (simp add: register_slab_owner_def md_debugfs_slabowner_def)
  qed (use e that in auto)
  obtain g where g: "register_dump env DMA_INFO f = Some g" "calm (mem_env_of env) bs A g \<and> dump_size (ps_mem g) = default_size"
    "dump_addr (ps_mem g) DMA_PROC = None" using reg [OF f(2,3)] f(4) by auto
  let ?g = "g\<lparr>minidump_dir := md_debugfs_dmabufinfo (minidump_dir g)\<rparr>"
  obtain i where i: "register_dump env DMA_PROC ?g = Some i" "calm (mem_env_of env) bs A i"
    using reg [of ?g DMA_PROC] g(2,3) by (auto simp: calm_dir)
  have "md_register_panic_data env senv (init_panic_state s) = Some (i\<lparr>minidump_dir := md_debugfs_dmabufprocs (minidump_dir i)\<rparr>)"
    using bufs(1-4) e(1) f(1) g(1) i(1) by (simp add: md_register_panic_data_def)
  with i(2) A(2) show ?thesis by (auto simp: calm_dir)
qed

text \<open>Registration, any writes to the files, and the dump.\<close>

lemma panic_after_settings:
  assumes plat: "panic_platform (oe_reg oe) L" and drv: "drv_rep bs 0 L s" and small: "\<forall>x \<in> set ws. numbers_small x"
    and build: "\<not> config_walt (oe_panic oe)"
  shows "\<exists>a rs b. md_register_panic_data (oe_reg oe) (oe_slab oe) (init_panic_state s) = Some a \<and>
     run_ops (panic_step oe) (map (\<lambda>(f, w). Write_File f w) ws) a = Some (rs, b) \<and>
     (\<forall>k. dump_addr (ps_mem b) k \<noteq> None \<longrightarrow> dump_cap (ps_mem b) k = unat (dump_size (ps_mem b) k) \<and>
        PAGE_SIZE \<le> unat (dump_size (ps_mem b) k)) \<and>
     (slab_fits (oe_panic oe) b \<longrightarrow> (\<exists>c. md_dump_process (oe_panic oe) b = Some c \<and>
        (\<forall>k. same_outside 0 (unat (dump_size (ps_mem b) k)) (dump_mem (ps_mem b) k) (dump_mem (ps_mem c) k))))"
proof -
  let ?env = "mem_env_of (oe_reg oe)"
  obtain a A where a: "md_register_panic_data (oe_reg oe) (oe_slab oe) (init_panic_state s) = Some a" "calm ?env bs A a"
    "set A \<subseteq> set (L @ buf_regions (oe_reg oe) panic_bufs)" using register_panic_data_calm [OF plat drv] by blast
  have "cma_ok ?env A" using plat a(3) by (fastforce simp: panic_platform_def cma_ok_def)
  then obtain rs b where b: "run_ops (panic_step oe) (map (\<lambda>(f, w). Write_File f w) ws) a = Some (rs, b)" "calm ?env bs A b"
    using writes_calm [OF a(2) _ small] by blast
  then obtain ks where rep: "dumps_rep ?env bs A ks (ps_mem b)" by (auto simp: calm_def)
  have cap: "dump_cap (ps_mem b) k = unat (dump_size (ps_mem b) k) \<and> PAGE_SIZE \<le> unat (dump_size (ps_mem b) k)"
    if "dump_addr (ps_mem b) k \<noteq> None" for k
    using dumps_rep_cap [OF rep that] dvd_imp_le [of 4096 "unat (dump_size (ps_mem b) k)"] by (simp add: PAGE_SIZE_def)
  have "\<exists>c. md_dump_process (oe_panic oe) b = Some c \<and>
     (\<forall>k. same_outside 0 (unat (dump_size (ps_mem b) k)) (dump_mem (ps_mem b) k) (dump_mem (ps_mem c) k))"
    if "slab_fits (oe_panic oe) b" using md_dump_process_text [OF calm_ready [OF b(2) build that]] by blast
  with a(1) b(1) cap show ?thesis by blast
qed

end
