(* ===== verification/Panic_Samples.thy ===== *)
theory Panic_Samples
  imports Panic_Settings Md_Samples
begin

text \<open>
  A concrete kernel for the panic dump: an allocator with four blocks, buffers for the texts, one CPU with a running task
  and a page that a known stack has allocated.
\<close>

subsection \<open>Definitions\<close>

definition demo_blocks :: "u64 list" where
  "demo_blocks = [0x100000000, 0x200000000, 0x300000000, 0x400000000]"

definition demo_cma :: "cma_blocks \<Rightarrow> u64 \<Rightarrow> u64 option" where
  "demo_cma live n = (if n = 0 then None else find (\<lambda>p. p \<notin> fst ` set live) demo_blocks)"

definition demo_mem :: mem_env where
  "demo_mem = \<lparr>cma_alloc = demo_cma, mem_virt_to_phys = (\<lambda>v. v + 0x80000000), mem_alloc = True\<rparr>"

definition demo_reg :: reg_env where
  "demo_reg = \<lparr>text_alloc = (\<lambda>k. case k of KRUNQUEUE \<Rightarrow> Some 0x300000 | KCNTXT \<Rightarrow> Some 0x400000
       | MEMINFO \<Rightarrow> Some 0x500000 | SLABINFO \<Rightarrow> None | KMODULES \<Rightarrow> Some 0x600000),
     seq_alloc = (\<lambda>_. True), mem_env_of = demo_mem, config_all_tasks = False, config_cpu_context = True,
     config_slub_debug = True, config_page_owner = True, page_owner_symbol = True, slub_debug_symbol = Some True\<rparr>"

definition demo_slab :: slab_env where
  "demo_slab = \<lparr>kmalloc_caches = (\<lambda>i. if i \<in> {7, 8} then Some \<lparr>slab_name = ''kmalloc-128'', cache_nodes = []\<rparr> else None),
     hash_stack = (\<lambda>_. 1), obj_str = (\<lambda>a. hex_str (unat a)), config_stacktrace = True\<rparr>"

definition no_page :: page_info where
  "no_page = \<lparr>pfn_valid = True, buddy_order = None, has_page_ext = False, ext_owner = False, ext_allocated = False,
     owner_handle = 0, pg_lru = False, pg_slab = False, pg_swapbacked = False\<rparr>"

definition owned_page :: page_info where
  "owned_page = no_page\<lparr>has_page_ext := True, ext_owner := True, ext_allocated := True, owner_handle := 7\<rparr>"

text \<open>Of the first five page numbers, two are allocated by the same stack.\<close>

definition demo_owner :: owner_env where
  "demo_owner = \<lparr>page_at = (\<lambda>i. if i \<in> {1, 3} then owned_page else no_page), min_low_pfn = 0, max_pfn = 5,
     depot_fetch = (\<lambda>_. [0x10, 0x20]), ptr_str = (\<lambda>a. hex_str (unat a)), sym_str = (\<lambda>_. ''f'')\<rparr>"

definition demo_counters :: mem_counters where
  "demo_counters = \<lparr>mc_sysinfo = \<lparr>totalram = 1024, freeram = 512, sharedram = 0, bufferram = 16, totalswap = 0, freeswap = 0,
       totalhigh = 0, freehigh = 0\<rparr>,
     node_state = (\<lambda>_. 4), zone_state = (\<lambda>_. 2), total_swapcache_pages = 0, si_mem_available = 600, vmalloc_total = 4096,
     vmalloc_nr_pages = 8, pcpu_nr_pages = 4, hpage_pmd_nr = 512, total_cma = 64, config_highmem = False,
     config_shadow_call_stack = False, config_transparent_hugepage = True, config_cma = True\<rparr>"

definition demo_sched_task :: sched_task where
  "demo_sched_task = \<lparr>tsk_id = 1, tsk_pid = 42, preempt_count = 0, comm = ''init'', last_arrival = 5, last_queued = 0,
     run_delay = 3, pcount = 2, on_cpu = 1, prio = 120, tsk_state = 0, exit_state = 0\<rparr>"

definition demo_rq :: rq where
  "demo_rq = \<lparr>rq_nr_running = 1, rq_curr = demo_sched_task,
     rq_cfs = Cfs_Rq 1 (Some (SE_Task demo_sched_task)) None None None [] False,
     rq_rt = \<lparr>rt_nr_running = 0, rt_bitmap = (\<lambda>_. False), rt_queue = (\<lambda>_. [])\<rparr>\<rparr>"

definition demo_panic :: panic_env where
  "demo_panic = \<lparr>pe_page_offset = 0xFFFF000000000000, pe_kmem = (\<lambda>_. None), this_cpu = 0, panic_regs = zero_regs,
     possible_cpus = [0, 1], run_queues = [(0, demo_rq)], threads = [demo_sched_task], config_walt = False, pe_all_tasks = False,
     pe_cpu_context = True, counters = demo_counters, config_debug_slab = False, slab_trylock = True, slab_list = [],
     pe_owner = demo_owner, pe_slab = demo_slab, pe_in_task = True, dma_bufs = [], pe_dma_hash = (\<lambda>_. 0), processes = []\<rparr>"

definition demo_module_env :: module_env where
  "demo_module_env = \<lparr>key_modules = [''qcom_wdt''],
     mod_stack_env = \<lparr>dyn_minidump_stack = False, vmap_stack = True, thread_size = 0x4000, kimage_vaddr = 0x8000,
       sizeof_task_struct = 64, vmalloc_phys = (\<lambda>v. v + 0x90000000), linear_phys = (\<lambda>v. v + 0x80000000), stack_alloc = True\<rparr>,
     md_rm_info = 0\<rparr>"

definition demo_op_env :: op_env where
  "demo_op_env = \<lparr>oe_reg = demo_reg, oe_slab = demo_slab, oe_module = demo_module_env, oe_panic = demo_panic\<rparr>"

definition number :: "u64 \<Rightarrow> user_write" where
  "number n = \<lparr>uw_bytes = None, uw_count = 2, uw_number = Some n, uw_alloc = True\<rparr>"

definition demo_writes :: "(debugfs_file \<times> user_write) list" where
  "demo_writes = [(Page_Owner_Dump_Size, number 8), (Slab_Owner_Dump_Size, number 9), (Page_Owner_Filter, number 2), (Slab_Owner_Filter, number 0x80),
     (Dma_Buf_Info_Size, number 0)]"

text \<open>A state with fresh buffers and no memory dump.\<close>

definition demo_panic_state :: "md_globals \<Rightarrow> panic_state" where
  "demo_panic_state s = (init_panic_state s)\<lparr>seq_bufs := (\<lambda>k. Some (seq_buf_init (panic_pages False k * PAGE_SIZE)))\<rparr>"

subsection \<open>They meet the requirements\<close>

lemma demo_cma_ok:
  assumes "\<forall>r \<in> set A. unat (phys_addr r) < 0x100000000"
  shows "cma_ok demo_mem A"
proof -
  have block: "p \<in> set demo_blocks \<and> p \<notin> fst ` set live" if "demo_cma live n = Some p" for live n p
    using that by (auto simp: demo_cma_def find_Some_iff split: if_split_asm)
  have "0x100000000 \<le> unat (p + 0x80000000) \<and> p \<noteq> 0" if "p \<in> set demo_blocks" for p
    using that by (auto simp: demo_blocks_def)
  then have "p + 0x80000000 \<notin> phys_addr ` set A \<and> p \<noteq> 0" if "p \<in> set demo_blocks" for p
    using assms that by (fastforce simp: not_less [symmetric])
  with block have "p \<noteq> 0 \<and> p \<notin> fst ` set live \<and> p + 0x80000000 \<notin> phys_addr ` set A" if "demo_cma live n = Some p" for live n p
    using that by blast
  moreover have "demo_cma live 0 = None" for live by (simp add: demo_cma_def)
  moreover have "inj (\<lambda>v :: u64. v + 0x80000000)" by (rule injI) simp
  ultimately show ?thesis unfolding cma_ok_def demo_mem_def mem_env.simps by blast
qed

lemma demo_buf_regions:
  "buf_regions demo_reg panic_bufs = [buf_region demo_reg KRUNQUEUE 0x300000, buf_region demo_reg KCNTXT 0x400000, buf_region demo_reg MEMINFO 0x500000]"
  by (simp add: buf_regions_def panic_bufs_def demo_reg_def)

lemma demo_platform: "panic_platform demo_reg [demo_kmsg]"
proof -
  have "phys_addr (buf_region demo_reg k p) = p + 0x80000000" for k p
    by (simp add: buf_region_def panic_region_def demo_reg_def demo_mem_def)
  moreover have "phys_addr demo_kmsg = 0x80200000" by (simp add: demo_kmsg_def kmsg_region_def demo_log_def)
  ultimately have "cma_ok demo_mem ([demo_kmsg] @ buf_regions demo_reg panic_bufs)"
    by (intro demo_cma_ok) (simp add: demo_buf_regions)
  moreover have "''KMSG'' \<notin> range panic_name \<union> range dump_name"
  proof -
    have "panic_name k \<noteq> ''KMSG''" "dump_name j \<noteq> ''KMSG''" for k j by (cases k; simp) (cases j; simp)
    then show ?thesis by (metis UnE imageE)
  qed
  moreover have "text_alloc demo_reg k \<noteq> Some 0" for k by (cases k) (simp_all add: demo_reg_def)
  ultimately show ?thesis
    by (simp add: panic_platform_def demo_kmsg_wf MAX_ELF_REGIONS_def md_consts) (simp add: demo_reg_def)
qed

lemma demo_writes_small: "\<forall>x \<in> set demo_writes. numbers_small x"
  by (simp add: demo_writes_def numbers_small_def number_def)

lemma demo_panic_build: "\<not> config_walt demo_panic"
  by (simp add: demo_panic_def)

lemma demo_slab_len: "slab_len demo_slab f < PAGE_SIZE"
proof -
  have c: "cache_len demo_slab f i \<le> 13" for i by (simp add: cache_len_def demo_slab_def nodes_len_def)
  have "sum_list (map (cache_len demo_slab f) [0..<n]) \<le> n * 13" for n
  proof (induction n)
    case (Suc n)
    with c [of n] show ?case by simp
  qed simp
  from this [of "Suc KMALLOC_SHIFT_HIGH"] show ?thesis unfolding slab_len_def by (simp add: KMALLOC_SHIFT_HIGH_def PAGE_SIZE_def del: upt_Suc)
qed

lemma demo_slab_fits:
  assumes "\<forall>k. dump_addr (ps_mem b) k \<noteq> None \<longrightarrow> dump_cap (ps_mem b) k = unat (dump_size (ps_mem b) k) \<and>
     PAGE_SIZE \<le> unat (dump_size (ps_mem b) k)"
  shows "slab_fits demo_panic b"
  using assms demo_slab_len [of "slab_owner_filter (ps_slab b)"] less_le_trans by (auto simp: slab_fits_def demo_panic_def)

lemma demo_panic_ready: "panic_ready demo_panic (demo_panic_state s)"
  by (simp add: panic_ready_def demo_panic_build dumps_ready_def demo_panic_state_def init_panic_state_def init_mem_def
      init_owner_def owner_ok_def slab_fits_def init_slab_def slab_ok_def)

text \<open>The two allocated pages and their text.\<close>

lemma demo_pages: "pages_from demo_owner (first_pfn demo_owner (min_low_pfn demo_owner)) = [(1, 7), (3, 7)]"
proof -
  have v: "page_verdict demo_owner i = (if i \<in> {1, 3} then Dump 7 else Skip i)" for i
    by (auto simp: page_verdict_def demo_owner_def owned_page_def no_page_def)
  have "first_pfn demo_owner (min_low_pfn demo_owner) = 0"
    by (simp add: first_pfn.simps [of _ 0] demo_owner_def no_page_def)
  moreover have mx: "max_pfn demo_owner = 5" by (simp add: demo_owner_def)
  have "pages_from demo_owner 5 = []" by (subst pages_from.simps) (simp add: mx)
  then have "pages_from demo_owner 4 = []" by (subst pages_from.simps) (simp add: mx v)
  then have "pages_from demo_owner 3 = [(3, 7)]" by (subst pages_from.simps) (simp add: mx v)
  then have "pages_from demo_owner 2 = [(3, 7)]" by (subst pages_from.simps) (simp add: mx v)
  then have "pages_from demo_owner 1 = [(1, 7), (3, 7)]" by (subst pages_from.simps) (simp add: mx v numeral_2_eq_2)
  then have "pages_from demo_owner 0 = [(1, 7), (3, 7)]" by (subst pages_from.simps) (simp add: mx v)
  ultimately show ?thesis by simp
qed

lemma demo_owner_text:
  "owner_text demo_owner 4096 [] [(1, 7), (3, 7)] = ''1 7 2'' @ [LF] @ ''10'' @ [LF] @ ''20'' @ [LF] @ ''3 7 0'' @ [LF]"
  by (simp add: page_text_def see_def owner_line_def entries_text_def demo_owner_def dec_str.simps hex_str.simps hex_digit_def)

end
