(* ===== verification/Cpuss_Dump.thy ===== *)
theory Cpuss_Dump
  imports C_Text
begin

unbundle bit_operations_syntax

text \<open>
  The register dump tables of \<^verbatim>\<open>memory_dump_v2/memory_dump_v2.c\<close>: the commands that tell the
  debug firmware which CPU subsystem registers to dump (\<^verbatim>\<open>struct cpuss_regdump_data\<close>) and
  the per-core lists of special purpose registers (\<^verbatim>\<open>struct sprs_dump_data\<close>), with the sysfs
  handlers that show and change them.

  The memory at \<^verbatim>\<open>dump_vaddr\<close> is an array of 32-bit words; a word is accessible when all of its
  four bytes lie below the region's \<open>size\<close>.  The device's driver data is \<open>None\<close> while it is the
  NULL pointer.  The handlers run with the table's mutex held, so each is one step.  What
  \<^verbatim>\<open>kstrtouint\<close> and \<^verbatim>\<open>sscanf\<close> read from the written text is an argument of the handlers, as is
  the text's length \<open>sz\<close>.
\<close>

subsection \<open>Macros\<close>

definition INPUT_DATA_BY_HLOS :: u32 where "INPUT_DATA_BY_HLOS = 0x00C0FFEE"
definition FORMAT_VERSION_1 :: u32 where "FORMAT_VERSION_1 = 1"
definition FORMAT_VERSION_2 :: u32 where "FORMAT_VERSION_2 = 2"
definition CORE_REG_NUM_DEFAULT :: u32 where "CORE_REG_NUM_DEFAULT = 1"
definition MAX_CORE_NUM :: nat where "MAX_CORE_NUM = 8"
definition SPR_DATA_HEADER_SIZE :: nat where "SPR_DATA_HEADER_SIZE = 5"
definition SPR_INPUT_DATA_TAIL_SIZE :: nat where "SPR_INPUT_DATA_TAIL_SIZE = 1"

definition SYS_REG_INPUT_INDEX :: nat where "SYS_REG_INPUT_INDEX = 2"
definition OUTPUT_DUMP_INDEX :: nat where "OUTPUT_DUMP_INDEX = 3"
definition PERCORE_INDEX :: nat where "PERCORE_INDEX = 4"
definition SYSTEM_REGS_INPUT_INDEX :: u32 where "SYSTEM_REGS_INPUT_INDEX = 5"

definition CMD_REPEAT_READ :: u32 where "CMD_REPEAT_READ = push_bit 24 2"
definition CMD_DELAY :: u32 where "CMD_DELAY = push_bit 24 1"
definition CMD_READ_WORD :: u32 where "CMD_READ_WORD = 1"
definition CMD_WRITE :: u32 where "CMD_WRITE = 2"
definition CMD_EXTRA :: u32 where "CMD_EXTRA = 3"
definition CMD_MASK :: u32 where "CMD_MASK = 3"
definition OFFSET_MASK :: u32 where "OFFSET_MASK = 0xFFFFFFFC"
definition EXTRA_CMD_MASK :: u32 where "EXTRA_CMD_MASK = 0xFF000000"
definition EXTRA_VALUE_MASK :: u32 where "EXTRA_VALUE_MASK = 0x00FFFFFF"
definition MAX_EXTRA_VALUE :: u32 where "MAX_EXTRA_VALUE = 0xFFFFFF"

named_theorems cpuss_consts \<open>values of the macros of the register dump tables\<close>

lemmas cpuss_macro_defs [cpuss_consts] =
  INPUT_DATA_BY_HLOS_def FORMAT_VERSION_1_def FORMAT_VERSION_2_def CORE_REG_NUM_DEFAULT_def
  MAX_CORE_NUM_def SPR_DATA_HEADER_SIZE_def SPR_INPUT_DATA_TAIL_SIZE_def SYS_REG_INPUT_INDEX_def
  OUTPUT_DUMP_INDEX_def PERCORE_INDEX_def SYSTEM_REGS_INPUT_INDEX_def CMD_READ_WORD_def
  CMD_WRITE_def CMD_EXTRA_def CMD_MASK_def OFFSET_MASK_def EXTRA_CMD_MASK_def
  EXTRA_VALUE_MASK_def MAX_EXTRA_VALUE_def

subsection \<open>State\<close>

record cpuss_regdump_data =
  reg_mem :: "u32 arr"
  reg_size :: u32
  core_reg_num :: u32
  core_reg_used_num :: u32
  core_reg_end_index :: u32
  sys_reg_size :: u32
  reg_used_memory :: u32

record sprs_dump_data =
  spr_mem :: "u32 arr"
  spr_size :: u32
  sprs_data_index :: u32
  spr_used_memory :: u32

record cpuss_dump_data =
  cpussregdata :: "cpuss_regdump_data option"
  sprdata :: "sprs_dump_data option list"

subsection \<open>Word accesses\<close>

definition get_word :: "u32 \<Rightarrow> u32 arr \<Rightarrow> nat \<Rightarrow> u32 option" where
  "get_word sz m i = (if 4 * (i + 1) \<le> unat sz then Some (m i) else None)"

definition put_word :: "u32 \<Rightarrow> nat \<Rightarrow> u32 \<Rightarrow> u32 arr \<Rightarrow> u32 arr option" where
  "put_word sz i v m = (if 4 * (i + 1) \<le> unat sz then Some (m(i := v)) else None)"

text \<open>\<^verbatim>\<open>memset\<close> of \<open>n\<close> words from word \<open>i\<close> with the byte pattern of \<open>v\<close>.\<close>

definition set_words :: "u32 \<Rightarrow> nat \<Rightarrow> nat \<Rightarrow> u32 \<Rightarrow> u32 arr \<Rightarrow> u32 arr option" where
  "set_words sz i n v m =
     (if 4 * (i + n) \<le> unat sz then Some (\<lambda>j. if i \<le> j \<and> j < i + n then v else m j) else None)"

definition put_header :: "u32 \<Rightarrow> u32 \<Rightarrow> u32 \<Rightarrow> u32 \<Rightarrow> u32 \<Rightarrow> u32 arr \<Rightarrow> u32 arr option" where
  "put_header sz magic ver idx off m = do {
     m \<leftarrow> put_word sz 0 magic m;
     m \<leftarrow> put_word sz 1 ver m;
     m \<leftarrow> put_word sz 2 idx m;
     put_word sz 3 off m }"

subsection \<open>The register table\<close>

text \<open>
  The byte offset is computed in 64 bits and truncated to 32; the first check refuses a table
  that does not fit, the second one a truncated offset.
\<close>

definition regdump_output_byte_offset :: "u32 \<Rightarrow> u32" where
  "regdump_output_byte_offset idx = of_nat (unat (idx + 1) * 4)"

definition update_reg_dump_table ::
  "u32 \<Rightarrow> cpuss_dump_data option \<Rightarrow> (int \<times> cpuss_dump_data option) option" where
  "update_reg_dump_table num dev = do {
     cpu \<leftarrow> dev;
     d \<leftarrow> cpussregdata cpu;
     let idx = SYSTEM_REGS_INPUT_INDEX + num * 2;
     let off = regdump_output_byte_offset idx;
     if reg_size d \<le> off \<or> unat off div 4 < unat (idx + 1) then Some (- ENOMEM, dev)
     else do {
       m \<leftarrow> set_words (reg_size d) 0 (unat (reg_size d) div 4) 0xDEDEDEDE (reg_mem d);
       m \<leftarrow> put_header (reg_size d) INPUT_DATA_BY_HLOS FORMAT_VERSION_2 idx off m;
       m \<leftarrow> set_words (reg_size d) PERCORE_INDEX (unat (idx - of_nat PERCORE_INDEX + 1)) 0 m;
       Some (0, Some (cpu\<lparr>cpussregdata := Some (d\<lparr>reg_mem := m, core_reg_num := num,
          core_reg_used_num := 0, core_reg_end_index := of_nat PERCORE_INDEX, sys_reg_size := 0,
          reg_used_memory := off\<rparr>)\<rparr>)) }}"

definition core_reg_num_store ::
  "u32 option \<Rightarrow> nat \<Rightarrow> cpuss_dump_data option \<Rightarrow> (int \<times> cpuss_dump_data option) option" where
  "core_reg_num_store parsed sz dev =
     (case parsed of
        None \<Rightarrow> Some (- EINVAL, dev)
      | Some v \<Rightarrow> do {
          cpu \<leftarrow> dev;
          d \<leftarrow> cpussregdata cpu;
          if core_reg_used_num d \<noteq> 0 \<or> sys_reg_size d \<noteq> 0 then Some (- EPERM, dev)
          else if v = core_reg_num d then Some (int sz, dev)
          else do {
            (ret, dev) \<leftarrow> update_reg_dump_table v dev;
            if ret \<noteq> 0 then Some (ret, dev) else Some (int sz, dev) }})"

definition register_reset_store ::
  "u32 option \<Rightarrow> nat \<Rightarrow> cpuss_dump_data option \<Rightarrow> (int \<times> cpuss_dump_data option) option" where
  "register_reset_store parsed sz dev =
     (case parsed of
        None \<Rightarrow> Some (- EINVAL, dev)
      | Some v \<Rightarrow>
          if v \<noteq> 1 then Some (- EINVAL, dev)
          else do {
            (_, dev) \<leftarrow> update_reg_dump_table CORE_REG_NUM_DEFAULT dev;
            Some (int sz, dev) })"

definition config_cpuss_register ::
  "u32 \<Rightarrow> nat \<Rightarrow> char \<Rightarrow> u32 \<Rightarrow> u32 \<Rightarrow> u32 arr \<Rightarrow> (int \<times> u32 arr) option" where
  "config_cpuss_register sz index cmd offset v m =
     (if cmd = CHR ''r''
      then if 4 < v
           then do { m \<leftarrow> put_word sz index offset m; m \<leftarrow> put_word sz (index + 1) v m; Some (0, m) }
           else do { m \<leftarrow> put_word sz index (offset OR CMD_READ_WORD) m; Some (0, m) }
      else if cmd = CHR ''R''
      then if MAX_EXTRA_VALUE < v then Some (- EINVAL, m)
           else do {
             m \<leftarrow> put_word sz index (offset OR CMD_EXTRA) m;
             m \<leftarrow> put_word sz (index + 1) (v OR CMD_REPEAT_READ) m;
             Some (0, m) }
      else if cmd = CHR ''d''
      then if MAX_EXTRA_VALUE < v then Some (- EINVAL, m)
           else do {
             m \<leftarrow> put_word sz index CMD_EXTRA m;
             m \<leftarrow> put_word sz (index + 1) (v OR CMD_DELAY) m;
             Some (0, m) }
      else if cmd = CHR ''w''
      then do {
        m \<leftarrow> put_word sz index (offset OR CMD_WRITE) m;
        m \<leftarrow> put_word sz (index + 1) v m;
        Some (0, m) }
      else Some (- EINVAL, m))"

text \<open>
  What \<^verbatim>\<open>sscanf\<close> found: the number of fields, and the fields, of which the last is 0 and the
  command unset unless they were read.
\<close>

record reg_scan =
  scan_nval :: nat
  scan_offset :: u32
  scan_val :: u32
  scan_cmd :: char
  scan_per_core :: u32

definition add_core_register ::
  "u32 \<Rightarrow> char \<Rightarrow> u32 \<Rightarrow> u32 \<Rightarrow> u32 \<Rightarrow> cpuss_regdump_data \<Rightarrow> (int \<times> cpuss_regdump_data) option" where
  "add_core_register num_cores cmd offset v reserve d =
     (if core_reg_used_num d = core_reg_num d then Some (- EINVAL, d)
      else
        let extra = reserve * num_cores;
            used = reg_used_memory d + extra
        in if extra div num_cores < reserve \<or> reg_size d < used \<or> used < reg_used_memory d
           then Some (- ENOMEM, d)
           else do {
             (ret, m) \<leftarrow> config_cpuss_register (reg_size d) (unat (core_reg_end_index d)) cmd offset v (reg_mem d);
             if ret \<noteq> 0 then Some (ret, d\<lparr>reg_mem := m\<rparr>)
             else Some (0, d\<lparr>reg_mem := m,
               core_reg_end_index := core_reg_end_index d + (if cmd = CHR ''r'' \<and> v = 4 then 1 else 2),
               core_reg_used_num := core_reg_used_num d + 1, reg_used_memory := used\<rparr>) })"

definition add_system_register ::
  "char \<Rightarrow> u32 \<Rightarrow> u32 \<Rightarrow> u32 \<Rightarrow> cpuss_regdump_data \<Rightarrow> (int \<times> cpuss_regdump_data) option" where
  "add_system_register cmd offset v reserve d = do {
     base \<leftarrow> get_word (reg_size d) (reg_mem d) SYS_REG_INPUT_INDEX;
     let end_index = base + sys_reg_size d div 4;
     let extra = (if cmd = CHR ''r'' \<and> reserve = 4 then 4 + reserve else 4 * 2 + reserve);
     let used = reg_used_memory d + extra;
     if extra < reserve \<or> reg_size d < used \<or> used < reg_used_memory d then Some (- ENOMEM, d)
     else do {
       (ret, m) \<leftarrow> config_cpuss_register (reg_size d) (unat end_index) cmd offset v (reg_mem d);
       if ret \<noteq> 0 then Some (ret, d\<lparr>reg_mem := m\<rparr>)
       else do {
         let step = (if cmd = CHR ''r'' \<and> v = 4 then 1 else 2);
         let end_index = end_index + step;
         m \<leftarrow> put_word (reg_size d) (unat end_index) 0 m;
         m \<leftarrow> put_word (reg_size d) OUTPUT_DUMP_INDEX ((end_index + 1) * 4) m;
         Some (0, d\<lparr>reg_mem := m, sys_reg_size := sys_reg_size d + 4 * step, reg_used_memory := used\<rparr>) }}}"

definition register_config_store ::
  "u32 \<Rightarrow> reg_scan \<Rightarrow> nat \<Rightarrow> cpuss_dump_data option \<Rightarrow> (int \<times> cpuss_dump_data option) option" where
  "register_config_store num_cores scan sz dev =
     (let offset = scan_offset scan; v = scan_val scan;
          cmd = (if scan_nval scan = 2 then CHR ''r'' else scan_cmd scan)
      in if scan_nval scan < 2 then Some (- EINVAL, dev)
         else if 1 < scan_per_core scan then Some (- EINVAL, dev)
         else if offset AND 3 \<noteq> 0 then Some (- EINVAL, dev)
         else if (cmd = CHR ''r'' \<or> cmd = CHR ''R'') \<and> v = 0 then Some (- EINVAL, dev)
         else if cmd = CHR ''r'' \<and> v AND 3 \<noteq> 0 then Some (- EINVAL, dev)
         else do {
           let reserve = (if cmd = CHR ''R'' then v * 4 else if cmd = CHR ''r'' then v else 4);
           cpu \<leftarrow> dev;
           d \<leftarrow> cpussregdata cpu;
           (ret, d) \<leftarrow> (if scan_per_core scan \<noteq> 0
                          then add_core_register num_cores cmd offset v reserve d
                          else add_system_register cmd offset v reserve d);
           Some (if ret = 0 then int sz else ret, Some (cpu\<lparr>cpussregdata := Some d\<rparr>)) })"

subsection \<open>Printing\<close>

text \<open>The page and the count that a handler returns; \<open>None\<close> when a line does not fit any more.\<close>

definition add_line :: "string \<Rightarrow> string \<times> nat \<Rightarrow> (string \<times> nat) option" where
  "add_line line out =
     (let l = scnprintf_str 64 line
      in if PAGE_SIZE < snd out + length l then None
         else Some (strlcat_str (fst out) l PAGE_SIZE, snd out + length l))"

definition per_core_header :: string where "per_core_header = ''per-core registers:'' @ [LF]"
definition system_header :: string where "system_header = ''system registers:'' @ [LF]"

definition reg_line :: "u32 \<Rightarrow> u32 \<Rightarrow> char \<Rightarrow> string" where
  "reg_line offset v c = ''0x'' @ hex_str (unat offset) @ '', 0x'' @ hex_str (unat v) @ '', '' @ [c, LF]"

text \<open>
  The line for the command at \<open>index\<close>, whose first word is \<open>w\<close>, and whether the command has a
  second word.
\<close>

definition config_line :: "cpuss_regdump_data \<Rightarrow> nat \<Rightarrow> u32 \<Rightarrow> (string \<times> bool) option" where
  "config_line d index w =
     (let cmd = w AND CMD_MASK; offset = w AND OFFSET_MASK
      in if cmd = CMD_READ_WORD then Some (reg_line offset 4 CHR ''r'', False)
         else do {
           v \<leftarrow> get_word (reg_size d) (reg_mem d) (index + 1);
           Some (if cmd = 0 then reg_line offset v CHR ''r''
                 else if cmd = CMD_WRITE then reg_line offset v CHR ''w''
                 else if v AND EXTRA_CMD_MASK = CMD_DELAY
                 then reg_line offset (v AND EXTRA_VALUE_MASK) CHR ''d''
                 else reg_line offset (v AND EXTRA_VALUE_MASK) CHR ''R'', True) })"

function config_show_loop ::
  "cpuss_regdump_data \<Rightarrow> int \<Rightarrow> int \<Rightarrow> nat \<Rightarrow> string \<times> nat \<Rightarrow> (string \<times> nat) option" where
  "config_show_loop d start stop index out =
     (if \<not> int index < stop then Some out
      else case (if int index = start then add_line system_header out else Some out) of
        None \<Rightarrow> Some out
      | Some out \<Rightarrow>
          (case get_word (reg_size d) (reg_mem d) index of
             None \<Rightarrow> None
           | Some w \<Rightarrow>
               if w = 0 then config_show_loop d start stop (index + 1) out
               else (case config_line d index w of
                  None \<Rightarrow> None
                | Some (line, two) \<Rightarrow>
                    (case add_line line out of
                       None \<Rightarrow> Some out
                     | Some out \<Rightarrow>
                         config_show_loop d start stop (index + (if two then 2 else 1)) out))))"
  by pat_completeness auto
termination
  by (relation "measure (\<lambda>(d, start, stop, index, out). nat (stop - int index))") auto

declare config_show_loop.simps [simp del]

definition register_config_show :: "cpuss_dump_data option \<Rightarrow> (int \<times> string) option" where
  "register_config_show dev =
     (case dev of
        None \<Rightarrow> Some (- EFAULT, '''')
      | Some cpu \<Rightarrow> do {
          d \<leftarrow> cpussregdata cpu;
          let hd = scnprintf_str 64 per_core_header;
          base \<leftarrow> get_word (reg_size d) (reg_mem d) SYS_REG_INPUT_INDEX;
          let start = sint base;
          let stop = sint (word_of_int (start + int (unat (sys_reg_size d) div 4) + 1) :: u32);
          (page, count) \<leftarrow> config_show_loop d start stop PERCORE_INDEX
             (strlcat_str '''' hd PAGE_SIZE, length hd);
          Some (int count, page) })"

definition core_reg_num_show :: "cpuss_dump_data option \<Rightarrow> (int \<times> string) option" where
  "core_reg_num_show dev =
     (case dev of
        None \<Rightarrow> Some (- EFAULT, '''')
      | Some cpu \<Rightarrow> do {
          d \<leftarrow> cpussregdata cpu;
          let s = scnprintf_str PAGE_SIZE (dec_str (unat (core_reg_num d)) @ [LF]);
          Some (int (length s), s) })"

definition format_version_show :: "cpuss_dump_data option \<Rightarrow> (int \<times> string) option" where
  "format_version_show dev =
     (case dev of
        None \<Rightarrow> Some (- EFAULT, '''')
      | Some cpu \<Rightarrow> do {
          d \<leftarrow> cpussregdata cpu;
          v \<leftarrow> get_word (reg_size d) (reg_mem d) 1;
          let s = scnprintf_str PAGE_SIZE (dec_str (unat v) @ [LF]);
          Some (int (length s), s) })"

subsection \<open>The special purpose registers\<close>

definition reset_spr :: "sprs_dump_data \<Rightarrow> sprs_dump_data option" where
  "reset_spr d = do {
     let off = of_nat ((SPR_DATA_HEADER_SIZE + SPR_INPUT_DATA_TAIL_SIZE) * 4);
     m \<leftarrow> set_words (spr_size d) 0 (unat (spr_size d) div 4) 0xDEDEDEDE (spr_mem d);
     m \<leftarrow> put_header (spr_size d) INPUT_DATA_BY_HLOS FORMAT_VERSION_1 SYSTEM_REGS_INPUT_INDEX off m;
     m \<leftarrow> set_words (spr_size d) PERCORE_INDEX 2 0 m;
     Some (d\<lparr>spr_mem := m, sprs_data_index := 0, spr_used_memory := off\<rparr>) }"

fun reset_sprs :: "sprs_dump_data option list \<Rightarrow> sprs_dump_data option list option" where
  "reset_sprs [] = Some []"
| "reset_sprs (None # ds) = map_option ((#) None) (reset_sprs ds)"
| "reset_sprs (Some d # ds) = do {
     d \<leftarrow> reset_spr d;
     ds \<leftarrow> reset_sprs ds;
     Some (Some d # ds) }"

definition reset_sprs_dump_table ::
  "cpuss_dump_data option \<Rightarrow> (int \<times> cpuss_dump_data option) option" where
  "reset_sprs_dump_table dev =
     (case dev of
        None \<Rightarrow> Some (- EFAULT, dev)
      | Some cpu \<Rightarrow> do {
          ds \<leftarrow> reset_sprs (sprdata cpu);
          Some (0, Some (cpu\<lparr>sprdata := ds\<rparr>)) })"

definition sprs_register_reset_store ::
  "u32 option \<Rightarrow> nat \<Rightarrow> cpuss_dump_data option \<Rightarrow> (int \<times> cpuss_dump_data option) option" where
  "sprs_register_reset_store parsed sz dev =
     (case parsed of
        None \<Rightarrow> Some (- EINVAL, dev)
      | Some v \<Rightarrow>
          if v \<noteq> 1 then Some (- EINVAL, dev)
          else do {
            (_, dev) \<leftarrow> reset_sprs_dump_table dev;
            Some (int sz, dev) })"

definition add_spr :: "u32 \<Rightarrow> sprs_dump_data \<Rightarrow> (int \<times> sprs_dump_data) option" where
  "add_spr spr_data d =
     (let reserved = (1 + 2) * 4; index = sprs_data_index d
      in if spr_used_memory d + reserved < spr_size d
         then do {
           m \<leftarrow> put_word (spr_size d) OUTPUT_DUMP_INDEX ((5 + index + 1 + 1) * 4) (spr_mem d);
           m \<leftarrow> put_word (spr_size d) (SPR_DATA_HEADER_SIZE + unat index) spr_data m;
           m \<leftarrow> put_word (spr_size d) (SPR_DATA_HEADER_SIZE + unat index + 1) 0 m;
           Some (0, d\<lparr>spr_mem := m, sprs_data_index := index + 1,
                      spr_used_memory := spr_used_memory d + reserved\<rparr>) }
         else Some (- ENOMEM, d))"

definition spr_config_store ::
  "nat \<Rightarrow> u32 \<Rightarrow> u32 \<Rightarrow> nat \<Rightarrow> cpuss_dump_data option \<Rightarrow> (int \<times> cpuss_dump_data option) option" where
  "spr_config_store nval spr_data cpu_num sz dev =
     (if nval \<noteq> 2 then Some (- EINVAL, dev)
      else case dev of
        None \<Rightarrow> Some (- EFAULT, dev)
      | Some cpu \<Rightarrow>
          if MAX_CORE_NUM \<le> unat cpu_num then Some (- EINVAL, dev)
          else (case sprdata cpu ! unat cpu_num of
             None \<Rightarrow> Some (int sz, dev)
           | Some d \<Rightarrow> do {
               (ret, d) \<leftarrow> add_spr spr_data d;
               Some (if ret = 0 then int sz else ret,
                     Some (cpu\<lparr>sprdata := (sprdata cpu)[unat cpu_num := Some d]\<rparr>)) }))"

text \<open>A line without check of the room that is left: the page is cut, the count is not.\<close>

definition add_line_unchecked :: "string \<Rightarrow> string \<times> nat \<Rightarrow> string \<times> nat" where
  "add_line_unchecked line out =
     (strlcat_str (fst out) (scnprintf_str 64 line) PAGE_SIZE, snd out + length (scnprintf_str 64 line))"

text \<open>The inner loop, \<open>n\<close> registers from \<open>index\<close>: it ends when the page is full.\<close>

fun spr_show_core :: "sprs_dump_data \<Rightarrow> nat \<Rightarrow> nat \<Rightarrow> string \<times> nat \<Rightarrow> (string \<times> nat) option" where
  "spr_show_core d index 0 out = Some out"
| "spr_show_core d index (Suc n) out =
     (if PAGE_SIZE < snd out then Some out
      else do {
        v \<leftarrow> get_word (spr_size d) (spr_mem d) (SPR_DATA_HEADER_SIZE + index);
        spr_show_core d (index + 1) n (add_line_unchecked (int_str (sint v) @ [LF]) out) })"

fun spr_show_cores :: "nat \<Rightarrow> sprs_dump_data option list \<Rightarrow> string \<times> nat \<Rightarrow> (string \<times> nat) option" where
  "spr_show_cores i [] out = Some out"
| "spr_show_cores i (c # cs) out =
     (if PAGE_SIZE < snd out then Some out
      else case c of
        None \<Rightarrow> spr_show_cores (i + 1) cs out
      | Some d \<Rightarrow> do {
          out \<leftarrow> spr_show_core d 0 (unat (sprs_data_index d))
             (add_line_unchecked (''spr data for CPU['' @ dec_str i @ ''] below:'' @ [LF]) out);
          spr_show_cores (i + 1) cs out })"

definition spr_config_show :: "cpuss_dump_data option \<Rightarrow> (int \<times> string) option" where
  "spr_config_show dev =
     (case dev of
        None \<Rightarrow> Some (- EFAULT, '''')
      | Some cpu \<Rightarrow> do {
          (page, count) \<leftarrow> spr_show_cores 0 (sprdata cpu)
             (add_line_unchecked (''spr data list below:'' @ [LF]) ('''', 0));
          Some (int count, page) })"

definition spr_version_line :: "nat \<Rightarrow> u32 \<Rightarrow> string" where
  "spr_version_line i v =
     ''SPR data format version for cpu'' @ dec_str i @ '' is '' @ int_str (sint v) @ [LF]"

fun sprs_version_lines :: "nat \<Rightarrow> sprs_dump_data option list \<Rightarrow> string \<times> nat \<Rightarrow> (string \<times> nat) option" where
  "sprs_version_lines i [] out = Some out"
| "sprs_version_lines i (c # cs) out =
     (case c of
        None \<Rightarrow> sprs_version_lines (i + 1) cs out
      | Some d \<Rightarrow> do {
          v \<leftarrow> get_word (spr_size d) (spr_mem d) 1;
          sprs_version_lines (i + 1) cs (add_line_unchecked (spr_version_line i v) out) })"

definition sprs_format_version_show :: "cpuss_dump_data option \<Rightarrow> (int \<times> string) option" where
  "sprs_format_version_show dev =
     (case dev of
        None \<Rightarrow> Some (- EFAULT, '''')
      | Some cpu \<Rightarrow> do {
          (page, count) \<leftarrow> sprs_version_lines 0 (sprdata cpu) ('''', 0);
          Some (int count, page) })"

subsection \<open>Setting up the tables\<close>

definition SPR_DUMP_CPU0 :: nat where "SPR_DUMP_CPU0 = 0x1F0"
definition SPR_DUMP_CPU7 :: nat where "SPR_DUMP_CPU7 = 0x1F7"
definition CPUSS_REGDUMP :: nat where "CPUSS_REGDUMP = 0xEF"

lemmas cpuss_id_defs [cpuss_consts] = SPR_DUMP_CPU0_def SPR_DUMP_CPU7_def CPUSS_REGDUMP_def

text \<open>
  The memory behind \<^verbatim>\<open>dump_vaddr\<close> was cleared when it was allocated, which is what \<open>zero_mem\<close>
  stands for; \<open>alloc\<close> is the outcome of the allocation of the table's descriptor.
\<close>

definition zero_mem :: "u32 arr" where "zero_mem = (\<lambda>_. 0)"

definition cpuss_regdump_init :: "bool \<Rightarrow> u32 \<Rightarrow> cpuss_dump_data \<Rightarrow> int \<times> cpuss_dump_data" where
  "cpuss_regdump_init alloc sz cpu =
     (if alloc
      then (0, cpu\<lparr>cpussregdata := Some \<lparr>reg_mem = zero_mem, reg_size = sz, core_reg_num = 0,
              core_reg_used_num = 0, core_reg_end_index = 0, sys_reg_size = 0, reg_used_memory = 0\<rparr>\<rparr>)
      else (- ENOMEM, cpu\<lparr>cpussregdata := None\<rparr>))"

definition sprs_dump_init :: "bool \<Rightarrow> u32 \<Rightarrow> nat \<Rightarrow> cpuss_dump_data \<Rightarrow> int \<times> cpuss_dump_data" where
  "sprs_dump_init alloc sz did cpu =
     (if alloc
      then (0, cpu\<lparr>sprdata := (sprdata cpu)[did - SPR_DUMP_CPU0 :=
              Some \<lparr>spr_mem = zero_mem, spr_size = sz, sprs_data_index = 0, spr_used_memory = 0\<rparr>]\<rparr>)
      else (- ENOMEM, cpu\<lparr>sprdata := (sprdata cpu)[did - SPR_DUMP_CPU0 := None]\<rparr>))"

text \<open>
  The static \<open>initialized\<close> flags are two booleans, for the register and the SPR tables.
  \<open>alloc_cpu\<close> and \<open>alloc\<close> are the outcomes of the allocations of the driver data and of the
  table's descriptor.
\<close>

definition cpuss_dump_init ::
  "bool \<Rightarrow> bool \<Rightarrow> u32 \<Rightarrow> nat \<Rightarrow> cpuss_dump_data option \<times> bool \<times> bool \<Rightarrow>
     cpuss_dump_data option \<times> bool \<times> bool" where
  "cpuss_dump_init alloc_cpu alloc sz did st =
     (let (dev, percore, sprs) = st;
          dev = (case dev of
             None \<Rightarrow> if alloc_cpu
                then Some \<lparr>cpussregdata = None, sprdata = replicate MAX_CORE_NUM None\<rparr> else None
           | Some cpu \<Rightarrow> Some cpu)
      in case dev of
           None \<Rightarrow> (dev, percore, sprs)
         | Some cpu \<Rightarrow>
             if did = CPUSS_REGDUMP
             then (let (ret, cpu) = cpuss_regdump_init alloc sz cpu
                   in (Some cpu, percore \<or> ret = 0, sprs))
             else (let (ret, cpu) = sprs_dump_init alloc sz did cpu
                   in (Some cpu, percore, sprs \<or> ret = 0)))"

end
