(* ===== verification/Cpuss_Table.thy ===== *)
theory Cpuss_Table
  imports Cpuss_Dump
begin

unbundle bit_operations_syntax

text \<open>
  What the register dump table holds: a list of commands for the per-core registers and one for
  the system registers.  The sysfs handlers of the previous theory append to these lists, refuse
  what does not fit, and print the lists back.
\<close>

subsection \<open>Commands\<close>

datatype reg_cmd = Read u32 u32 | Repeat u32 u32 | Delay u32 | Write u32 u32

fun cmd_words :: "reg_cmd \<Rightarrow> u32 list" where
  "cmd_words (Read off len) = (if 4 < len then [off, len] else [off OR CMD_READ_WORD])"
| "cmd_words (Repeat off n) = [off OR CMD_EXTRA, n OR CMD_REPEAT_READ]"
| "cmd_words (Delay n) = [CMD_EXTRA, n OR CMD_DELAY]"
| "cmd_words (Write off v) = [off OR CMD_WRITE, v]"

text \<open>The bytes that the firmware writes for a command.\<close>

fun cmd_out :: "reg_cmd \<Rightarrow> nat" where
  "cmd_out (Read off len) = unat len"
| "cmd_out (Repeat off n) = 4 * unat n"
| "cmd_out (Delay n) = 4"
| "cmd_out (Write off v) = 4"

fun cmd_ok :: "reg_cmd \<Rightarrow> bool" where
  "cmd_ok (Read off len) \<longleftrightarrow> off AND 3 = 0 \<and> len AND 3 = 0 \<and> len \<noteq> 0"
| "cmd_ok (Repeat off n) \<longleftrightarrow> off AND 3 = 0 \<and> n \<noteq> 0 \<and> n \<le> MAX_EXTRA_VALUE"
| "cmd_ok (Delay n) \<longleftrightarrow> n \<le> MAX_EXTRA_VALUE"
| "cmd_ok (Write off v) \<longleftrightarrow> off AND 3 = 0"

text \<open>The text that is written to configure a command, as \<^verbatim>\<open>sscanf\<close> reads it.\<close>

fun scan_of :: "bool \<Rightarrow> reg_cmd \<Rightarrow> reg_scan" where
  "scan_of pc (Read off len) = \<lparr>scan_nval = 4, scan_offset = off, scan_val = len, scan_cmd = CHR ''r'',
     scan_per_core = of_bool pc\<rparr>"
| "scan_of pc (Repeat off n) = \<lparr>scan_nval = 4, scan_offset = off, scan_val = n, scan_cmd = CHR ''R'',
     scan_per_core = of_bool pc\<rparr>"
| "scan_of pc (Delay n) = \<lparr>scan_nval = 4, scan_offset = 0, scan_val = n, scan_cmd = CHR ''d'',
     scan_per_core = of_bool pc\<rparr>"
| "scan_of pc (Write off v) = \<lparr>scan_nval = 4, scan_offset = off, scan_val = v, scan_cmd = CHR ''w'',
     scan_per_core = of_bool pc\<rparr>"

definition reserve_of :: "reg_cmd \<Rightarrow> u32" where
  "reserve_of c = (case c of Read off len \<Rightarrow> len | Repeat off n \<Rightarrow> n * 4 | _ \<Rightarrow> 4)"

definition words_of :: "reg_cmd list \<Rightarrow> u32 list" where
  "words_of cs = concat (map cmd_words cs)"

definition outs_of :: "reg_cmd list \<Rightarrow> nat" where
  "outs_of cs = sum_list (map cmd_out cs)"

lemma words_of_simps [simp]:
  "words_of [] = []" "words_of (c # cs) = cmd_words c @ words_of cs"
  "words_of (cs @ [c]) = words_of cs @ cmd_words c"
  by (simp_all add: words_of_def)

lemma outs_of_simps [simp]: "outs_of [] = 0" "outs_of (cs @ [c]) = outs_of cs + cmd_out c"
  by (simp_all add: outs_of_def)

lemma length_cmd_words: "1 \<le> length (cmd_words c)" "length (cmd_words c) \<le> 2"
  by (cases c; simp)+

lemma words_of_empty [simp]: "words_of cs = [] \<longleftrightarrow> cs = []"
proof (cases cs)
  case (Cons c cs')
  then show ?thesis using length_cmd_words(1) [of c] by auto
qed simp

lemma length_words_of: "length (words_of cs) \<le> 2 * length cs"
proof (induction cs)
  case (Cons c cs)
  then show ?case using length_cmd_words(2) [of c] by simp
qed simp

subsection \<open>Unsigned arithmetic\<close>

lemma unat_lt32: "unat (a :: u32) < 2 ^ 32"
  using unsigned_less [of a] by simp

lemma unat_add32: "unat (a :: u32) + unat b < 2 ^ 32 \<Longrightarrow> unat (a + b) = unat a + unat b"
  by (simp add: unat_word_ariths)

lemma unat_mult32: "unat (a :: u32) * unat b < 2 ^ 32 \<Longrightarrow> unat (a * b) = unat a * unat b"
  by (simp add: unat_word_ariths)

text \<open>The code's overflow checks are exact.\<close>

lemma add_overflow32: "(a :: u32) + b < a \<longleftrightarrow> 2 ^ 32 \<le> unat a + unat b"
proof -
  have "unat a < 2 ^ 32" "unat b < 2 ^ 32" by (rule unat_lt32)+
  then show ?thesis
    by (cases "unat a + unat b < 2 ^ 32") (auto simp: word_less_nat_alt unat_word_ariths mod_if)
qed

lemma mult_overflow32:
  assumes "b \<noteq> 0"
  shows "((a :: u32) * b) div b < a \<longleftrightarrow> 2 ^ 32 \<le> unat a * unat b"
proof -
  have b: "0 < unat b" using assms by (simp add: unat_gt_0)
  show ?thesis
  proof (cases "unat a * unat b < 2 ^ 32")
    case True
    then show ?thesis using b by (simp add: word_less_nat_alt unat_div unat_mult32)
  next
    case False
    moreover have "(unat a * unat b) mod 2 ^ 32 < 2 ^ 32" by simp
    ultimately have "(unat a * unat b) mod 2 ^ 32 < unat a * unat b" by linarith
    then have "(unat a * unat b) mod 2 ^ 32 div unat b < unat a"
      using b by (simp add: div_less_iff_less_mult)
    then show ?thesis using False by (simp add: word_less_nat_alt unat_div unat_word_ariths)
  qed
qed

lemma used_check32:
  "(reg_sz :: u32) < used + extra \<or> used + extra < used \<longleftrightarrow> unat reg_sz < unat used + unat extra"
proof -
  have sz: "unat reg_sz < 2 ^ 32" by (rule unat_lt32)
  show ?thesis
  proof (cases "unat used + unat extra < 2 ^ 32")
    case True
    then show ?thesis by (simp add: word_less_nat_alt unat_add32)
  next
    case False
    then have "used + extra < used" by (simp add: add_overflow32)
    with False sz show ?thesis by simp
  qed
qed

subsection \<open>The table and its contents\<close>

record reg_table =
  tab_num :: nat
  tab_core :: "reg_cmd list"
  tab_sys :: "reg_cmd list"

definition sys_base :: "reg_table \<Rightarrow> nat" where
  "sys_base g = 5 + 2 * tab_num g"

definition out_offset :: "reg_table \<Rightarrow> nat" where
  "out_offset g = 4 * (sys_base g + length (words_of (tab_sys g)) + 1)"

definition table_use :: "nat \<Rightarrow> reg_table \<Rightarrow> nat" where
  "table_use cores g = out_offset g + cores * outs_of (tab_core g) + outs_of (tab_sys g)"

definition table_mem :: "reg_table \<Rightarrow> u32 arr \<Rightarrow> bool" where
  "table_mem g m \<longleftrightarrow>
     m 0 = INPUT_DATA_BY_HLOS \<and> m 1 = FORMAT_VERSION_2 \<and> unat (m 2) = sys_base g \<and>
     unat (m 3) = out_offset g \<and>
     arr_seg m 4 (length (words_of (tab_core g))) = words_of (tab_core g) \<and>
     (\<forall>i. 4 + length (words_of (tab_core g)) \<le> i \<and> i < sys_base g \<longrightarrow> m i = 0) \<and>
     arr_seg m (sys_base g) (length (words_of (tab_sys g))) = words_of (tab_sys g) \<and>
     m (sys_base g + length (words_of (tab_sys g))) = 0"

definition regs_rep :: "u32 \<Rightarrow> reg_table \<Rightarrow> cpuss_regdump_data \<Rightarrow> bool" where
  "regs_rep cores g d \<longleftrightarrow>
     unat (core_reg_num d) = tab_num g \<and> unat (core_reg_used_num d) = length (tab_core g) \<and>
     unat (core_reg_end_index d) = 4 + length (words_of (tab_core g)) \<and>
     unat (sys_reg_size d) = 4 * length (words_of (tab_sys g)) \<and>
     unat (reg_used_memory d) = table_use (unat cores) g \<and>
     length (tab_core g) \<le> tab_num g \<and> table_use (unat cores) g \<le> unat (reg_size d) \<and>
     table_mem g (reg_mem d)"

definition tab_dev :: "u32 \<Rightarrow> u32 \<Rightarrow> reg_table \<Rightarrow> cpuss_dump_data option \<Rightarrow> bool" where
  "tab_dev cores sz g dev \<longleftrightarrow> (\<exists>cpu d. dev = Some cpu \<and> cpussregdata cpu = Some d \<and>
     reg_size d = sz \<and> regs_rep cores g d)"

lemma table_bounds:
  assumes "regs_rep cores g d"
  shows "sys_base g + length (words_of (tab_sys g)) + 1 < 2 ^ 30"
    and "4 * (sys_base g + length (words_of (tab_sys g)) + 1) \<le> unat (reg_size d)"
    and "4 + length (words_of (tab_core g)) < sys_base g"
proof -
  have "unat (reg_size d) < 2 ^ 32" by (rule unat_lt32)
  then show "sys_base g + length (words_of (tab_sys g)) + 1 < 2 ^ 30"
    and "4 * (sys_base g + length (words_of (tab_sys g)) + 1) \<le> unat (reg_size d)"
    using assms by (auto simp: regs_rep_def table_use_def out_offset_def)
  show "4 + length (words_of (tab_core g)) < sys_base g"
    using assms length_words_of [of "tab_core g"] by (auto simp: regs_rep_def sys_base_def)
qed

subsection \<open>Writing a command\<close>

lemma reserve_of_unat: "cmd_ok c \<Longrightarrow> unat (reserve_of c) = cmd_out c"
proof (cases c)
  case (Repeat off n)
  assume "cmd_ok c"
  then have "unat n \<le> 0xFFFFFF" by (simp add: Repeat MAX_EXTRA_VALUE_def word_le_nat_alt)
  then show ?thesis using unat_mult32 [of n 4] by (simp add: Repeat reserve_of_def)
qed (simp_all add: reserve_of_def)

lemma arr_write_Cons: "arr_write m i (x # xs) = arr_write (m(i := x)) (Suc i) xs"
  by (rule ext) (auto simp: arr_write_def nth_Cons')

lemma config_cpuss_register_ok:
  assumes "cmd_ok c" and "4 * (i + length (cmd_words c)) \<le> unat sz"
  shows "config_cpuss_register sz i (scan_cmd (scan_of pc c)) (scan_offset (scan_of pc c))
      (scan_val (scan_of pc c)) m = Some (0, arr_write m i (cmd_words c))"
  using assms
  by (cases c) (auto simp: config_cpuss_register_def put_word_def arr_write_Cons split: if_splits)

lemma read_one_word: "cmd_ok (Read off len) \<Longrightarrow> 4 < len \<or> len = 4"
proof -
  assume "cmd_ok (Read off len)"
  then have a: "len AND 3 = 0" "len \<noteq> 0" by simp_all
  have "len AND 3 = take_bit 2 len" by (simp add: take_bit_eq_mask mask_eq_exp_minus_1)
  moreover have "unat (take_bit 2 len) = unat len mod 4" by (simp add: take_bit_eq_mod unat_mod)
  ultimately have "unat len mod 4 = 0" using a(1) by (metis unat_eq_zero)
  moreover have "unat len \<noteq> 0" using a(2) by (simp add: unat_eq_zero)
  ultimately have "4 \<le> unat len" by presburger
  then show "4 < len \<or> len = 4" by (auto simp: word_less_nat_alt unat_arith_simps)
qed

lemma cmd_step:
  "cmd_ok c \<Longrightarrow>
   (if scan_cmd (scan_of pc c) = CHR ''r'' \<and> scan_val (scan_of pc c) = 4 then 1 else 2) = length (cmd_words c)"
  using read_one_word by (cases c) auto

subsection \<open>Adding a command\<close>

definition with_cmd :: "bool \<Rightarrow> reg_cmd \<Rightarrow> reg_table \<Rightarrow> reg_table" where
  "with_cmd pc c g = (if pc then g\<lparr>tab_core := tab_core g @ [c]\<rparr> else g\<lparr>tab_sys := tab_sys g @ [c]\<rparr>)"

definition table_add :: "u32 \<Rightarrow> u32 \<Rightarrow> bool \<Rightarrow> reg_cmd \<Rightarrow> reg_table \<Rightarrow> int \<times> reg_table" where
  "table_add cores sz pc c g =
     (if pc \<and> length (tab_core g) = tab_num g then (- EINVAL, g)
      else if unat sz < table_use (unat cores) (with_cmd pc c g) then (- ENOMEM, g)
      else (0, with_cmd pc c g))"

lemma table_use_with_cmd:
  "table_use cores (with_cmd True c g) = table_use cores g + cores * cmd_out c"
  "table_use cores (with_cmd False c g) = table_use cores g + 4 * length (cmd_words c) + cmd_out c"
  by (simp_all add: table_use_def with_cmd_def out_offset_def sys_base_def algebra_simps)

lemma table_mem_core:
  assumes mem: "table_mem g m" and room: "4 + length (words_of (tab_core g)) + length (cmd_words c) < sys_base g"
  shows "table_mem (with_cmd True c g) (arr_write m (4 + length (words_of (tab_core g))) (cmd_words c))"
proof -
  let ?w = "length (words_of (tab_core g))"
  let ?m = "arr_write m (4 + ?w) (cmd_words c)"
  have out: "?m i = m i" if "i < 4 + ?w \<or> 4 + ?w + length (cmd_words c) \<le> i" for i
    using that by (auto simp: arr_write_def)
  have "arr_seg ?m 4 (?w + length (cmd_words c)) = words_of (tab_core g) @ cmd_words c"
    using arr_seg_write [of m 4 ?w "cmd_words c"] mem by (simp add: table_mem_def)
  moreover have "arr_seg ?m (sys_base g) n = arr_seg m (sys_base g) n" for n
    using room by (intro arr_seg_write_out) simp
  ultimately show ?thesis
    using mem room by (auto simp: table_mem_def with_cmd_def sys_base_def out_offset_def out)
qed

text \<open>The code's check for room, with all its overflow tests, compares the true sums.\<close>

lemma core_extra:
  assumes rep: "regs_rep cores g d" and cores: "cores \<noteq> 0" and c: "cmd_ok c"
  defines "used \<equiv> reg_used_memory d" and "extra \<equiv> reserve_of c * cores"
  shows "extra div cores < reserve_of c \<or> reg_size d < used + extra \<or> used + extra < used \<longleftrightarrow>
      unat (reg_size d) < table_use (unat cores) (with_cmd True c g)" (is "?check \<longleftrightarrow> ?sum")
    and "\<not> unat (reg_size d) < table_use (unat cores) (with_cmd True c g) \<Longrightarrow>
      unat (used + extra) = table_use (unat cores) (with_cmd True c g)"
proof -
  have sz: "unat (reg_size d) < 2 ^ 32" by (rule unat_lt32)
  have over: "extra div cores < reserve_of c \<longleftrightarrow> 2 ^ 32 \<le> cmd_out c * unat cores"
    using mult_overflow32 [OF cores, of "reserve_of c"] reserve_of_unat [OF c] by (simp add: extra_def)
  have small: "unat extra = cmd_out c * unat cores" if "\<not> 2 ^ 32 \<le> cmd_out c * unat cores"
    using that unat_mult32 [of "reserve_of c" cores] reserve_of_unat [OF c] by (simp add: extra_def)
  have used: "unat used = table_use (unat cores) g" using rep by (simp add: regs_rep_def used_def)
  show "?check \<longleftrightarrow> ?sum"
    using over small sz used unfolding used_check32
    by (cases "2 ^ 32 \<le> cmd_out c * unat cores") (simp_all add: table_use_with_cmd mult.commute)
  show "unat (used + extra) = table_use (unat cores) (with_cmd True c g)" if "\<not> ?sum"
  proof -
    have "\<not> 2 ^ 32 \<le> cmd_out c * unat cores" using that sz by (simp add: table_use_with_cmd mult.commute)
    with small show ?thesis using that sz used
      by (subst unat_add32) (simp_all add: table_use_with_cmd mult.commute)
  qed
qed

lemma core_full:
  "regs_rep cores g d \<Longrightarrow> core_reg_used_num d = core_reg_num d \<longleftrightarrow> length (tab_core g) = tab_num g"
  by (simp add: regs_rep_def word_unat_eq_iff)

lemma add_core_register_rep:
  assumes rep: "regs_rep cores g d" and cores: "cores \<noteq> 0" and c: "cmd_ok c"
  shows "\<exists>d'. add_core_register cores (scan_cmd (scan_of pc c)) (scan_offset (scan_of pc c))
      (scan_val (scan_of pc c)) (reserve_of c) d = Some (fst (table_add cores (reg_size d) True c g), d') \<and>
    regs_rep cores (snd (table_add cores (reg_size d) True c g)) d' \<and> reg_size d' = reg_size d"
proof (cases "length (tab_core g) = tab_num g \<or> unat (reg_size d) < table_use (unat cores) (with_cmd True c g)")
  case True
  then show ?thesis using rep core_full [OF rep] core_extra(1) [OF rep cores c]
    by (auto simp: add_core_register_def table_add_def Let_def)
next
  case False
  let ?w = "length (words_of (tab_core g))" and ?n = "length (cmd_words c)"
  let ?used = "reg_used_memory d" and ?extra = "reserve_of c * cores"
  let ?step = "if scan_cmd (scan_of pc c) = CHR ''r'' \<and> scan_val (scan_of pc c) = 4 then 1 else 2 :: u32"
  note b = table_bounds [OF rep] and x = core_extra [OF rep cores c]
  have lt: "length (tab_core g) < tab_num g" using False rep by (simp add: regs_rep_def)
  then have room: "4 + ?w + ?n < sys_base g"
    using length_words_of [of "tab_core g"] length_cmd_words(2) [of c] by (simp add: sys_base_def)
  have "4 * (4 + ?w + ?n) \<le> unat (reg_size d)" using room b(2) by simp
  then have conf: "config_cpuss_register (reg_size d) (unat (core_reg_end_index d)) (scan_cmd (scan_of pc c))
      (scan_offset (scan_of pc c)) (scan_val (scan_of pc c)) (reg_mem d) =
      Some (0, arr_write (reg_mem d) (4 + ?w) (cmd_words c))"
    using config_cpuss_register_ok [OF c, of "4 + ?w" "reg_size d" pc "reg_mem d"] rep
    by (simp add: regs_rep_def)
  define d' where "d' = d\<lparr>reg_mem := arr_write (reg_mem d) (4 + ?w) (cmd_words c),
    core_reg_end_index := core_reg_end_index d + ?step, core_reg_used_num := core_reg_used_num d + 1,
    reg_used_memory := ?used + ?extra\<rparr>"
  have "add_core_register cores (scan_cmd (scan_of pc c)) (scan_offset (scan_of pc c))
      (scan_val (scan_of pc c)) (reserve_of c) d = Some (0, d')"
    using False core_full [OF rep] x(1) conf by (simp add: add_core_register_def Let_def d'_def)
  moreover have "unat ?step = ?n" using cmd_step [OF c, of pc] by (auto split: if_splits)
  then have "unat (core_reg_end_index d + ?step) = 4 + ?w + ?n"
    using rep room b(1) by (subst unat_add32) (simp_all add: regs_rep_def)
  moreover have "unat (core_reg_used_num d + 1) = length (tab_core g) + 1"
    using rep lt b(1) by (subst unat_add32) (simp_all add: regs_rep_def sys_base_def)
  ultimately show ?thesis
    using False rep lt table_mem_core [OF _ room] x(2)
    by (auto simp: table_add_def regs_rep_def d'_def with_cmd_def)
qed

lemma table_mem_sys:
  fixes c
  assumes mem: "table_mem g m" and core: "4 + length (words_of (tab_core g)) < sys_base g"
  defines "n \<equiv> sys_base g + length (words_of (tab_sys g))" and "g' \<equiv> with_cmd False c g"
  assumes off: "unat off = out_offset g'"
  shows "table_mem g' ((arr_write m n (cmd_words c))(n + length (cmd_words c) := 0, 3 := off))"
proof -
  let ?m = "(arr_write m n (cmd_words c))(n + length (cmd_words c) := 0, 3 := off)"
  have base: "5 \<le> sys_base g" by (simp add: sys_base_def)
  have low: "?m i = m i" if "i < n" "i \<noteq> 3" for i
    using that by (auto simp: arr_write_def n_def)
  have seg: "arr_seg ?m (sys_base g) (length (words_of (tab_sys g)) + length (cmd_words c)) =
      words_of (tab_sys g) @ cmd_words c"
    using arr_seg_write [of m "sys_base g" "length (words_of (tab_sys g))" "cmd_words c"] mem base
    by (simp add: table_mem_def n_def)
  have "arr_seg ?m 4 (length (words_of (tab_core g))) = words_of (tab_core g)"
    using mem core low by (subst arr_seg_cong [of _ ?m _ m]) (auto simp: table_mem_def n_def)
  with seg show ?thesis
    using mem core off base low
    by (auto simp: table_mem_def g'_def with_cmd_def sys_base_def n_def add.assoc)
qed

text \<open>Command words and reserved output of a system register.\<close>

lemma sys_extra_words:
  "cmd_ok c \<Longrightarrow>
   (if scan_cmd (scan_of pc c) = CHR ''r'' \<and> reserve_of c = 4 then 4 + reserve_of c else 4 * 2 + reserve_of c) =
   reserve_of c + of_nat (4 * length (cmd_words c))"
  using read_one_word by (cases c) (auto simp: reserve_of_def)

lemma sys_extra:
  assumes rep: "regs_rep cores g d" and c: "cmd_ok c"
  defines "used \<equiv> reg_used_memory d" and "extra \<equiv> reserve_of c + of_nat (4 * length (cmd_words c))"
  shows "extra < reserve_of c \<or> reg_size d < used + extra \<or> used + extra < used \<longleftrightarrow>
      unat (reg_size d) < table_use (unat cores) (with_cmd False c g)" (is "?check \<longleftrightarrow> ?sum")
    and "\<not> unat (reg_size d) < table_use (unat cores) (with_cmd False c g) \<Longrightarrow>
      unat (used + extra) = table_use (unat cores) (with_cmd False c g)"
proof -
  have sz: "unat (reg_size d) < 2 ^ 32" by (rule unat_lt32)
  have n: "unat (of_nat (4 * length (cmd_words c)) :: u32) = 4 * length (cmd_words c)"
    using length_cmd_words [of c] by (cases "length (cmd_words c) = 1") (auto dest: le_antisym)
  note over = add_overflow32 [of "reserve_of c" "of_nat (4 * length (cmd_words c))", unfolded n,
      folded extra_def, unfolded reserve_of_unat [OF c]]
  have small: "unat extra = cmd_out c + 4 * length (cmd_words c)"
    if "\<not> 2 ^ 32 \<le> cmd_out c + 4 * length (cmd_words c)"
    using that n reserve_of_unat [OF c] unfolding extra_def by (subst unat_add32) simp_all
  have used: "unat used = table_use (unat cores) g" using rep by (simp add: regs_rep_def used_def)
  show "?check \<longleftrightarrow> ?sum"
    using over small sz used unfolding used_check32
    by (cases "2 ^ 32 \<le> cmd_out c + 4 * length (cmd_words c)") (simp_all add: table_use_with_cmd ac_simps)
  show "unat (used + extra) = table_use (unat cores) (with_cmd False c g)" if "\<not> ?sum"
  proof -
    have "\<not> 2 ^ 32 \<le> cmd_out c + 4 * length (cmd_words c)" using that sz by (simp add: table_use_with_cmd)
    with small show ?thesis using that sz used by (subst unat_add32) (simp_all add: table_use_with_cmd)
  qed
qed

lemma sys_end_index:
  assumes rep: "regs_rep cores g d"
  shows "get_word (reg_size d) (reg_mem d) SYS_REG_INPUT_INDEX = Some (reg_mem d 2)"
    and "unat (reg_mem d 2 + sys_reg_size d div 4) = sys_base g + length (words_of (tab_sys g))"
proof -
  note b = table_bounds [OF rep]
  show "get_word (reg_size d) (reg_mem d) SYS_REG_INPUT_INDEX = Some (reg_mem d 2)"
    using b(2) by (simp add: get_word_def SYS_REG_INPUT_INDEX_def sys_base_def)
  have m2: "unat (reg_mem d 2) = sys_base g" using rep by (simp add: regs_rep_def table_mem_def)
  have q: "unat (sys_reg_size d div 4) = length (words_of (tab_sys g))"
    using rep by (simp add: regs_rep_def unat_div)
  show "unat (reg_mem d 2 + sys_reg_size d div 4) = sys_base g + length (words_of (tab_sys g))"
    using b(1) m2 q by (subst unat_add32) simp_all
qed

lemma add_system_register_rep:
  assumes rep: "regs_rep cores g d" and c: "cmd_ok c"
  shows "\<exists>d'. add_system_register (scan_cmd (scan_of pc c)) (scan_offset (scan_of pc c))
      (scan_val (scan_of pc c)) (reserve_of c) d = Some (fst (table_add cores (reg_size d) False c g), d') \<and>
    regs_rep cores (snd (table_add cores (reg_size d) False c g)) d' \<and> reg_size d' = reg_size d"
proof (cases "unat (reg_size d) < table_use (unat cores) (with_cmd False c g)")
  case True
  then show ?thesis using rep sys_extra(1) [OF rep c] sys_end_index(1) [OF rep]
    by (auto simp: add_system_register_def table_add_def Let_def sys_extra_words [OF c])
next
  case False
  let ?n = "sys_base g + length (words_of (tab_sys g))" and ?l = "length (cmd_words c)"
  let ?step = "if scan_cmd (scan_of pc c) = CHR ''r'' \<and> scan_val (scan_of pc c) = 4 then 1 else 2 :: u32"
  let ?e = "reg_mem d 2 + sys_reg_size d div 4"
  let ?used = "reg_used_memory d + (reserve_of c + of_nat (4 * ?l))"
  note b = table_bounds [OF rep] and x = sys_extra [OF rep c] and e = sys_end_index [OF rep]
  have fits: "4 * (?n + ?l + 1) \<le> unat (reg_size d)"
    using False by (simp add: table_use_with_cmd) (simp add: table_use_def out_offset_def)
  have sz16: "16 \<le> unat (reg_size d)" using b(2) by (simp add: sys_base_def)
  have lim: "?n + ?l + 1 < 2 ^ 30" using fits unat_lt32 [of "reg_size d"] by simp
  have conf: "config_cpuss_register (reg_size d) (unat ?e) (scan_cmd (scan_of pc c))
      (scan_offset (scan_of pc c)) (scan_val (scan_of pc c)) (reg_mem d) =
      Some (0, arr_write (reg_mem d) ?n (cmd_words c))"
    using config_cpuss_register_ok [OF c, of ?n "reg_size d" pc "reg_mem d"] fits e(2) by simp
  have st: "unat ?step = ?l" using cmd_step [OF c, of pc] by (auto split: if_splits)
  have e': "unat (?e + ?step) = ?n + ?l" using e(2) st lim by (subst unat_add32) simp_all
  have e1: "unat (?e + ?step + 1) = ?n + ?l + 1" using e' lim by (subst unat_add32) simp_all
  have off: "unat ((?e + ?step + 1) * 4) = out_offset (with_cmd False c g)"
    using e1 lim by (subst unat_mult32) (simp_all add: out_offset_def with_cmd_def sys_base_def)
  have s4: "unat (sys_reg_size d + 4 * ?step) = 4 * (length (words_of (tab_sys g)) + ?l)"
    using rep st lim unat_mult32 [of 4 ?step] by (subst unat_add32) (simp_all add: regs_rep_def)
  define d' where "d' = d\<lparr>reg_mem := (arr_write (reg_mem d) ?n (cmd_words c))
      (?n + ?l := 0, 3 := (?e + ?step + 1) * 4), sys_reg_size := sys_reg_size d + 4 * ?step,
      reg_used_memory := ?used\<rparr>"
  have "add_system_register (scan_cmd (scan_of pc c)) (scan_offset (scan_of pc c))
      (scan_val (scan_of pc c)) (reserve_of c) d = Some (0, d')"
    using False x(1) conf e fits e' sz16
    by (simp add: add_system_register_def Let_def d'_def sys_extra_words [OF c] put_word_def
        OUTPUT_DUMP_INDEX_def)
  moreover have "table_mem (with_cmd False c g) (reg_mem d')"
    using table_mem_sys [OF _ b(3), of "reg_mem d" _ c] off rep by (simp add: d'_def regs_rep_def)
  ultimately show ?thesis
    using False rep s4 x(2)
    by (auto simp: table_add_def regs_rep_def d'_def) (auto simp: with_cmd_def)
qed

subsection \<open>Resetting the table\<close>

definition table_reset :: "u32 \<Rightarrow> u32 \<Rightarrow> reg_table \<Rightarrow> int \<times> reg_table" where
  "table_reset sz num g =
     (if unat sz \<le> 4 * (6 + 2 * unat num) then (- ENOMEM, g)
      else (0, \<lparr>tab_num = unat num, tab_core = [], tab_sys = []\<rparr>))"

lemma reset_index:
  assumes "unat num < 2 ^ 31 - 3"
  shows "unat (SYSTEM_REGS_INPUT_INDEX + num * 2 + 1) = 6 + 2 * unat num"
    and "unat (SYSTEM_REGS_INPUT_INDEX + num * 2) = 5 + 2 * unat num"
proof -
  have n: "unat (num * 2) = 2 * unat num" using assms by (subst unat_mult32) simp_all
  show i: "unat (SYSTEM_REGS_INPUT_INDEX + num * 2) = 5 + 2 * unat num"
    using assms n by (subst unat_add32) (simp_all add: SYSTEM_REGS_INPUT_INDEX_def)
  show "unat (SYSTEM_REGS_INPUT_INDEX + num * 2 + 1) = 6 + 2 * unat num"
    using assms i by (subst unat_add32) simp_all
qed

lemma unat_output_offset: "unat (regdump_output_byte_offset idx) = (unat (idx + 1) * 4) mod 2 ^ 32"
  unfolding regdump_output_byte_offset_def by (subst unat_of_nat) simp

lemma reset_check:
  defines "off \<equiv> regdump_output_byte_offset"
  shows "sz \<le> off idx \<or> unat (off idx) div 4 < unat (idx + 1) \<longleftrightarrow> unat sz \<le> 4 * unat (idx + 1)"
proof (cases "unat (idx + 1) * 4 < 2 ^ 32")
  case True
  then have "unat (off idx) = unat (idx + 1) * 4" by (simp add: unat_output_offset off_def)
  then show ?thesis by (simp add: word_le_nat_alt mult.commute)
next
  case False
  have "(unat (idx + 1) * 4) mod 2 ^ 32 < 2 ^ 32" by simp
  then have "unat (off idx) div 4 < unat (idx + 1)"
    unfolding off_def unat_output_offset using False by (simp add: div_less_iff_less_mult)
  with False show ?thesis using unat_lt32 [of sz] by simp
qed

lemma update_reg_dump_table_eq:
  fixes num :: u32
  assumes d: "dev = Some cpu" "cpussregdata cpu = Some d"
  defines "idx \<equiv> SYSTEM_REGS_INPUT_INDEX + num * 2"
  assumes fits: "4 * unat (idx + 1) < unat (reg_size d)" and idx: "4 \<le> unat idx" "unat idx < 2 ^ 30"
  shows "\<exists>m. update_reg_dump_table num dev = Some (0, Some (cpu\<lparr>cpussregdata := Some (d\<lparr>reg_mem := m,
      core_reg_num := num, core_reg_used_num := 0, core_reg_end_index := 4, sys_reg_size := 0,
      reg_used_memory := regdump_output_byte_offset idx\<rparr>)\<rparr>)) \<and> m 0 = INPUT_DATA_BY_HLOS \<and>
      m 1 = FORMAT_VERSION_2 \<and> m 2 = idx \<and> m 3 = regdump_output_byte_offset idx \<and>
      (\<forall>j. 4 \<le> j \<and> j \<le> unat idx \<longrightarrow> m j = 0)"
proof -
  have i1: "unat (idx + 1) = unat idx + 1" using idx by (subst unat_add32) simp_all
  have "unat (idx - 4) = unat idx - 4" using idx by (subst unat_sub) (simp_all add: word_le_nat_alt)
  then have n: "unat (idx - 4 + 1) = unat idx - 3" using idx by (subst unat_add32) simp_all
  show ?thesis
    using d fits idx reset_check [of "reg_size d" idx] i1 n
    by (simp add: update_reg_dump_table_def Let_def set_words_def put_header_def put_word_def
        PERCORE_INDEX_def flip: idx_def) (intro exI conjI, rule refl, simp_all)
qed

lemma update_reg_dump_table_rep:
  assumes d: "dev = Some cpu" "cpussregdata cpu = Some d" "reg_size d = sz" and num: "unat num < 2 ^ 31 - 3"
    and old: "unat sz \<le> 4 * (6 + 2 * unat num) \<Longrightarrow> regs_rep cores g d"
  shows "\<exists>dev'. update_reg_dump_table num dev = Some (fst (table_reset sz num g), dev') \<and>
    tab_dev cores sz (snd (table_reset sz num g)) dev'"
proof (cases "unat sz \<le> 4 * (6 + 2 * unat num)")
  case True
  with d old show ?thesis
    using reset_check [of sz "SYSTEM_REGS_INPUT_INDEX + num * 2"] reset_index [OF num]
    by (simp add: update_reg_dump_table_def table_reset_def Let_def tab_dev_def)
next
  case False
  let ?idx = "SYSTEM_REGS_INPUT_INDEX + num * 2"
  note i = reset_index [OF num]
  have lim: "4 * (6 + 2 * unat num) < 2 ^ 32" using False unat_lt32 [of sz] by simp
  then have off: "unat (regdump_output_byte_offset ?idx) = 4 * (6 + 2 * unat num)"
    unfolding unat_output_offset i by simp
  from update_reg_dump_table_eq [OF d(1,2), of num] i lim False d(3)
  obtain m where "update_reg_dump_table num dev = Some (0, Some (cpu\<lparr>cpussregdata := Some (d\<lparr>reg_mem := m,
      core_reg_num := num, core_reg_used_num := 0, core_reg_end_index := 4, sys_reg_size := 0,
      reg_used_memory := regdump_output_byte_offset ?idx\<rparr>)\<rparr>))" "m 0 = INPUT_DATA_BY_HLOS" "m 1 = FORMAT_VERSION_2"
      "m 2 = ?idx" "m 3 = regdump_output_byte_offset ?idx" "\<forall>j. 4 \<le> j \<and> j \<le> unat ?idx \<longrightarrow> m j = 0" by auto
  then show ?thesis
    using False d i off
    by (auto simp: table_reset_def tab_dev_def regs_rep_def table_mem_def table_use_def out_offset_def
        sys_base_def)
qed

subsection \<open>The handlers as operations on the lists\<close>

datatype reg_op = Reg_Config bool reg_cmd nat | Reg_Num "u32 option" nat | Reg_Reset "u32 option" nat

definition stored :: "nat \<Rightarrow> int \<times> reg_table \<Rightarrow> int \<times> reg_table" where
  "stored n rg = (if fst rg = 0 then int n else fst rg, snd rg)"

text \<open>
  The specification of a handler.  The number of per-core registers is specified as long as its
  index computation does not wrap around.
\<close>

fun table_step :: "u32 \<Rightarrow> u32 \<Rightarrow> reg_op \<Rightarrow> reg_table \<Rightarrow> (int \<times> reg_table) option" where
  "table_step cores sz (Reg_Config pc c n) g =
     (if cmd_ok c then Some (stored n (table_add cores sz pc c g)) else None)"
| "table_step cores sz (Reg_Num parsed n) g =
     (case parsed of
        None \<Rightarrow> Some (- EINVAL, g)
      | Some v \<Rightarrow>
          if tab_core g \<noteq> [] \<or> tab_sys g \<noteq> [] then Some (- EPERM, g)
          else if unat v = tab_num g then Some (int n, g)
          else if unat v < 2 ^ 31 - 3 then Some (stored n (table_reset sz v g))
          else None)"
| "table_step cores sz (Reg_Reset parsed n) g =
     (if parsed = Some 1 then Some (int n, snd (table_reset sz CORE_REG_NUM_DEFAULT g))
      else Some (- EINVAL, g))"

fun reg_impl :: "u32 \<Rightarrow> reg_op \<Rightarrow> cpuss_dump_data option \<Rightarrow> (int \<times> cpuss_dump_data option) option" where
  "reg_impl cores (Reg_Config pc c n) dev = register_config_store cores (scan_of pc c) n dev"
| "reg_impl cores (Reg_Num parsed n) dev = core_reg_num_store parsed n dev"
| "reg_impl cores (Reg_Reset parsed n) dev = register_reset_store parsed n dev"

lemma register_config_store_eq:
  assumes "cmd_ok c" and "dev = Some cpu" and "cpussregdata cpu = Some d"
  shows "register_config_store cores (scan_of pc c) n dev = do {
     (ret, d) \<leftarrow> (if pc
        then add_core_register cores (scan_cmd (scan_of pc c)) (scan_offset (scan_of pc c))
               (scan_val (scan_of pc c)) (reserve_of c) d
        else add_system_register (scan_cmd (scan_of pc c)) (scan_offset (scan_of pc c))
               (scan_val (scan_of pc c)) (reserve_of c) d);
     Some (if ret = 0 then int n else ret, Some (cpu\<lparr>cpussregdata := Some d\<rparr>)) }"
  using assms by (cases c; cases pc) (auto simp: register_config_store_def Let_def reserve_of_def)

lemma register_config_store_sim:
  assumes rep: "tab_dev cores sz g dev" and cores: "cores \<noteq> 0" and c: "cmd_ok c"
  shows "\<exists>dev'. register_config_store cores (scan_of pc c) n dev =
      Some (fst (stored n (table_add cores sz pc c g)), dev') \<and>
    tab_dev cores sz (snd (stored n (table_add cores sz pc c g))) dev'"
proof -
  from rep obtain cpu d where d: "dev = Some cpu" "cpussregdata cpu = Some d" "reg_size d = sz"
    and r: "regs_rep cores g d" by (auto simp: tab_dev_def)
  have "\<exists>d'. (if pc
        then add_core_register cores (scan_cmd (scan_of pc c)) (scan_offset (scan_of pc c))
               (scan_val (scan_of pc c)) (reserve_of c) d
        else add_system_register (scan_cmd (scan_of pc c)) (scan_offset (scan_of pc c))
               (scan_val (scan_of pc c)) (reserve_of c) d) = Some (fst (table_add cores sz pc c g), d') \<and>
      regs_rep cores (snd (table_add cores sz pc c g)) d' \<and> reg_size d' = sz"
    using add_core_register_rep [OF r cores c, of pc] add_system_register_rep [OF r c, of pc] d(3)
    by (cases pc) auto
  then show ?thesis
    using register_config_store_eq [OF c d(1,2)] by (auto simp: stored_def tab_dev_def)
qed

lemma core_reg_num_store_sim:
  assumes rep: "tab_dev cores sz g dev" and spec: "table_step cores sz (Reg_Num parsed n) g = Some (r, g')"
  shows "\<exists>dev'. core_reg_num_store parsed n dev = Some (r, dev') \<and> tab_dev cores sz g' dev'"
proof (cases parsed)
  case None
  with rep spec show ?thesis by (auto simp: core_reg_num_store_def)
next
  case (Some v)
  from rep obtain cpu d where d: "dev = Some cpu" "cpussregdata cpu = Some d" "reg_size d = sz"
    and r: "regs_rep cores g d" by (auto simp: tab_dev_def)
  have empty: "core_reg_used_num d \<noteq> 0 \<longleftrightarrow> tab_core g \<noteq> []" "sys_reg_size d \<noteq> 0 \<longleftrightarrow> tab_sys g \<noteq> []"
    using r by (simp_all add: regs_rep_def word_unat_eq_iff)
  have same: "v = core_reg_num d \<longleftrightarrow> unat v = tab_num g"
    using r by (simp add: regs_rep_def word_unat_eq_iff)
  show ?thesis
    using spec Some d empty same rep update_reg_dump_table_rep [OF d, of v cores g] r
    by (auto simp: core_reg_num_store_def stored_def split: if_splits)
qed

lemma register_reset_store_sim:
  assumes rep: "tab_dev cores sz g dev"
  shows "\<exists>dev'. register_reset_store (Some 1) n dev = Some (int n, dev') \<and>
    tab_dev cores sz (snd (table_reset sz CORE_REG_NUM_DEFAULT g)) dev'"
proof -
  from rep obtain cpu d where d: "dev = Some cpu" "cpussregdata cpu = Some d" "reg_size d = sz"
    and r: "regs_rep cores g d" by (auto simp: tab_dev_def)
  from update_reg_dump_table_rep [OF d, of CORE_REG_NUM_DEFAULT cores g] r show ?thesis
    by (auto simp: register_reset_store_def CORE_REG_NUM_DEFAULT_def)
qed

lemma reg_impl_sim:
  assumes rep: "tab_dev cores sz g dev" and cores: "cores \<noteq> 0" and spec: "table_step cores sz x g = Some (r, g')"
  shows "\<exists>dev'. reg_impl cores x dev = Some (r, dev') \<and> tab_dev cores sz g' dev'"
proof (cases x)
  case (Reg_Config pc c n)
  then have c: "cmd_ok c" and "(r, g') = stored n (table_add cores sz pc c g)"
    using spec by (auto split: if_splits)
  then show ?thesis using register_config_store_sim [OF rep cores c, of pc n] Reg_Config
    by (metis fst_conv reg_impl.simps(1) snd_conv)
next
  case (Reg_Num parsed n)
  then show ?thesis using core_reg_num_store_sim [OF rep, of parsed n r g'] spec by simp
next
  case (Reg_Reset parsed n)
  then show ?thesis using register_reset_store_sim [OF rep, of n] spec rep
    by (auto simp: register_reset_store_def split: option.splits if_splits)
qed

text \<open>The interface of the register table, with the CPU count and the region's size fixed.\<close>

interpretation regs: simulation "\<lambda>g dev. cores \<noteq> 0 \<and> tab_dev cores sz g dev" "table_step cores sz"
    "reg_impl cores" for cores sz
  by unfold_locales (use reg_impl_sim in blast)

subsection \<open>Printing the table\<close>

fun cmd_line :: "reg_cmd \<Rightarrow> string" where
  "cmd_line (Read off len) = reg_line off len CHR ''r''"
| "cmd_line (Repeat off n) = reg_line off n CHR ''R''"
| "cmd_line (Delay n) = reg_line 0 n CHR ''d''"
| "cmd_line (Write off v) = reg_line off v CHR ''w''"

text \<open>A read of several words at offset 0 starts with a zero word, which the listing skips.\<close>

definition printable :: "reg_cmd \<Rightarrow> bool" where
  "printable c \<longleftrightarrow> cmd_ok c \<and> hd (cmd_words c) \<noteq> 0"

lemma offset_bits:
  assumes "(off :: u32) AND 3 = 0"
  shows "off AND OFFSET_MASK = off" and "k AND OFFSET_MASK = 0 \<Longrightarrow> (off OR k) AND OFFSET_MASK = off"
    and "(off OR k) AND CMD_MASK = k AND 3"
proof -
  have m: "OFFSET_MASK = NOT 3" by (simp add: OFFSET_MASK_def)
  have "off = (off AND 3) OR (off AND NOT 3)" by (metis and.right_neutral bit.conj_disj_distrib bit.disj_cancel_right)
  with assms show o: "off AND OFFSET_MASK = off" by (simp add: m)
  show "(off OR k) AND OFFSET_MASK = off" if "k AND OFFSET_MASK = 0"
    using that o by (simp add: bit.conj_disj_distrib2)
  show "(off OR k) AND CMD_MASK = k AND 3"
    using assms by (simp add: CMD_MASK_def bit.conj_disj_distrib2)
qed

lemma extra_bits:
  assumes "(n :: u32) \<le> MAX_EXTRA_VALUE"
  shows "n AND EXTRA_CMD_MASK = 0" and "n AND EXTRA_VALUE_MASK = n"
proof -
  have "unat n < 2 ^ 24" using assms by (simp add: word_le_nat_alt MAX_EXTRA_VALUE_def)
  moreover have "unat (take_bit 24 n) = unat n mod 2 ^ 24" by (simp add: take_bit_eq_mod unat_mod)
  ultimately have "n = take_bit 24 n" by (simp add: word_unat_eq_iff)
  then have n: "n = n AND EXTRA_VALUE_MASK"
    by (simp add: take_bit_eq_mask mask_eq_exp_minus_1 EXTRA_VALUE_MASK_def)
  then show "n AND EXTRA_VALUE_MASK = n" by simp
  have "n AND EXTRA_CMD_MASK = n AND (EXTRA_VALUE_MASK AND EXTRA_CMD_MASK)"
    using n by (metis and.assoc)
  then show "n AND EXTRA_CMD_MASK = 0" by (simp add: EXTRA_VALUE_MASK_def EXTRA_CMD_MASK_def)
qed

lemma extra_cmd_bits:
  "n \<le> MAX_EXTRA_VALUE \<Longrightarrow> (n OR CMD_DELAY) AND EXTRA_CMD_MASK = CMD_DELAY"
  "n \<le> MAX_EXTRA_VALUE \<Longrightarrow> (n OR CMD_DELAY) AND EXTRA_VALUE_MASK = n"
  "n \<le> MAX_EXTRA_VALUE \<Longrightarrow> (n OR CMD_REPEAT_READ) AND EXTRA_CMD_MASK \<noteq> CMD_DELAY"
  "n \<le> MAX_EXTRA_VALUE \<Longrightarrow> (n OR CMD_REPEAT_READ) AND EXTRA_VALUE_MASK = n"
  by (simp_all add: bit.conj_disj_distrib2 extra_bits CMD_DELAY_def CMD_REPEAT_READ_def
      EXTRA_CMD_MASK_def [symmetric] EXTRA_VALUE_MASK_def [symmetric])
    (simp_all add: EXTRA_CMD_MASK_def EXTRA_VALUE_MASK_def)

lemma config_line_cmd:
  assumes c: "cmd_ok c" and seg: "arr_seg (reg_mem d) i (length (cmd_words c)) = cmd_words c"
    and fits: "4 * (i + length (cmd_words c)) \<le> unat (reg_size d)"
  shows "reg_mem d i = hd (cmd_words c)"
    and "config_line d i (hd (cmd_words c)) = Some (cmd_line c, length (cmd_words c) = 2)"
proof -
  show "reg_mem d i = hd (cmd_words c)"
    using arg_cong [OF seg, of hd] length_cmd_words(1) [of c]
    by (cases "length (cmd_words c)") (auto simp: arr_seg_def upt_conv_Cons simp del: upt_Suc)
  have w2: "length (cmd_words c) = 2 \<Longrightarrow> reg_mem d (Suc i) = cmd_words c ! 1"
    using arg_cong [OF seg, of "\<lambda>l. l ! 1"] by simp
  show "config_line d i (hd (cmd_words c)) = Some (cmd_line c, length (cmd_words c) = 2)"
  proof (cases c)
    case (Read off len)
    then show ?thesis using c w2 fits read_one_word [of off len] offset_bits(1) [of off] offset_bits(2,3) [of off 1]
        offset_bits(3) [of off 0]
      by (auto simp: config_line_def get_word_def CMD_READ_WORD_def OFFSET_MASK_def split: if_splits)
  next
    case (Repeat off n)
    then show ?thesis using c w2 fits offset_bits(2,3) [of off 3]
      by (simp add: config_line_def get_word_def CMD_READ_WORD_def CMD_WRITE_def CMD_EXTRA_def
          OFFSET_MASK_def extra_cmd_bits)
  next
    case (Delay n)
    then show ?thesis using c w2 fits
      by (simp add: config_line_def get_word_def CMD_READ_WORD_def CMD_WRITE_def CMD_EXTRA_def CMD_MASK_def
          OFFSET_MASK_def extra_cmd_bits)
  next
    case (Write off v)
    then show ?thesis using c w2 fits offset_bits(2,3) [of off 2]
      by (simp add: config_line_def get_word_def CMD_READ_WORD_def CMD_WRITE_def OFFSET_MASK_def)
  qed
qed

lemma length_reg_line: "length (reg_line off v c) \<le> 63"
proof -
  have "length (hex_str (unat off)) \<le> 8" "length (hex_str (unat v)) \<le> 8"
    by (rule length_hex_str; use unat_lt32 in simp)+
  then show ?thesis by (simp add: reg_line_def)
qed

lemma length_cmd_line: "length (cmd_line c) \<le> 63"
  by (cases c) (simp_all add: length_reg_line)

text \<open>The page so far, with its length as the count.\<close>

abbreviation page :: "string \<Rightarrow> string \<times> nat" where
  "page t \<equiv> (t, length t)"

lemma add_line_fits:
  "length line \<le> 63 \<Longrightarrow> length t + length line < PAGE_SIZE \<Longrightarrow> add_line line (page t) = Some (page (t @ line))"
  by (simp add: add_line_def scnprintf_str_def strlcat_str_def)

definition sys_header :: "int \<Rightarrow> nat \<Rightarrow> string" where
  "sys_header start i = (if int i = start then system_header else [])"

lemma length_headers [simp]: "length per_core_header = 20" "length system_header = 18"
  by (simp_all add: per_core_header_def system_header_def)

lemma header_line:
  "length t + length (sys_header start i) < PAGE_SIZE \<Longrightarrow>
   (if int i = start then add_line system_header (page t) else Some (page t)) =
   Some (page (t @ sys_header start i))"
  by (auto simp: sys_header_def add_line_fits)

lemma show_zero:
  assumes "reg_mem d i = 0" and "int i < stop" and "4 * (i + 1) \<le> unat (reg_size d)"
    and "length t + length (sys_header start i) < PAGE_SIZE"
  shows "config_show_loop d start stop i (page t) =
    config_show_loop d start stop (Suc i) (page (t @ sys_header start i))"
  using assms header_line [OF assms(4)]
  by (subst config_show_loop.simps) (simp add: get_word_def)

lemma show_zeros:
  assumes "\<And>j. i \<le> j \<Longrightarrow> j < i + n \<Longrightarrow> reg_mem d j = 0" and "int (i + n) \<le> start" and "start < stop"
    and "4 * (i + n) \<le> unat (reg_size d)" and "length t < PAGE_SIZE"
  shows "config_show_loop d start stop i (page t) = config_show_loop d start stop (i + n) (page t)"
  using assms
proof (induction n arbitrary: i)
  case (Suc n)
  have "config_show_loop d start stop i (page t) = config_show_loop d start stop (Suc i) (page (t @ sys_header start i))"
    by (rule show_zero) (use Suc.prems in \<open>auto simp: sys_header_def\<close>)
  also have "sys_header start i = []" using Suc.prems(2) by (simp add: sys_header_def)
  also have "config_show_loop d start stop (Suc i) (page (t @ [])) = config_show_loop d start stop (Suc i + n) (page t)"
    using Suc.IH [of "Suc i"] Suc.prems by simp
  finally show ?case by simp
qed simp

lemma show_cmd:
  assumes c: "printable c" and seg: "arr_seg (reg_mem d) i (length (cmd_words c)) = cmd_words c"
    and fits: "4 * (i + length (cmd_words c)) \<le> unat (reg_size d)" and i: "int i < stop"
    and room: "length t + length (sys_header start i) + length (cmd_line c) < PAGE_SIZE"
  shows "config_show_loop d start stop i (page t) =
    config_show_loop d start stop (i + length (cmd_words c)) (page (t @ sys_header start i @ cmd_line c))"
proof -
  have ok: "cmd_ok c" "hd (cmd_words c) \<noteq> 0" using c by (auto simp: printable_def)
  note w = config_line_cmd [OF ok(1) seg fits]
  have "get_word (reg_size d) (reg_mem d) i = Some (hd (cmd_words c))"
    using w(1) fits length_cmd_words(1) [of c] by (simp add: get_word_def)
  moreover have "(if length (cmd_words c) = 2 then 2 else 1) = length (cmd_words c)"
    using length_cmd_words [of c] by auto
  ultimately show ?thesis
    using header_line [of t start i] add_line_fits [OF length_cmd_line [of c], of "t @ sys_header start i"] room i w ok
    by (subst config_show_loop.simps) simp
qed

definition lines_of :: "reg_cmd list \<Rightarrow> string" where
  "lines_of cs = concat (map cmd_line cs)"

text \<open>A block of commands is printed, after the header if the block starts the system registers.\<close>

lemma show_cmds:
  assumes "\<forall>c \<in> set cs. printable c" and "arr_seg (reg_mem d) i (length (words_of cs)) = words_of cs"
    and "4 * (i + length (words_of cs)) \<le> unat (reg_size d)" and "int (i + length (words_of cs)) \<le> stop"
    and "start \<le> int i \<or> int (i + length (words_of cs)) \<le> start"
    and "length t + length (sys_header start i) + length (lines_of cs) < PAGE_SIZE"
  shows "config_show_loop d start stop i (page t) = config_show_loop d start stop (i + length (words_of cs))
    (page (t @ (if cs = [] then [] else sys_header start i @ lines_of cs)))"
  using assms
proof (induction cs arbitrary: i t)
  case (Cons c cs)
  let ?n = "length (cmd_words c)" and ?t = "t @ sys_header start i @ cmd_line c"
  have n: "1 \<le> ?n" by (rule length_cmd_words)
  have seg: "arr_seg (reg_mem d) i ?n = cmd_words c"
    "arr_seg (reg_mem d) (i + ?n) (length (words_of cs)) = words_of cs"
    using Cons.prems(2) by (simp_all add: arr_seg_add)
  have hdr: "sys_header start (i + ?n) = []"
    if "cs \<noteq> []" using Cons.prems(5) n that by (auto simp: sys_header_def)
  have "config_show_loop d start stop i (page t) = config_show_loop d start stop (i + ?n) (page ?t)"
    by (rule show_cmd) (use Cons.prems seg n in \<open>auto simp: lines_of_def\<close>)
  also have "\<dots> = config_show_loop d start stop (i + ?n + length (words_of cs))
      (page (?t @ (if cs = [] then [] else sys_header start (i + ?n) @ lines_of cs)))"
  proof (cases "cs = []")
    case False
    show ?thesis
      by (rule Cons.IH) (use Cons.prems seg n hdr False in \<open>auto simp: lines_of_def\<close>)
  qed simp
  finally show ?case using hdr by (cases "cs = []") (auto simp: lines_of_def add.assoc)
qed simp

definition table_text :: "reg_table \<Rightarrow> string" where
  "table_text g = per_core_header @ lines_of (tab_core g) @
     system_header @ lines_of (tab_sys g)"

lemma sint_small: "unat (w :: u32) < 2 ^ 31 \<Longrightarrow> sint w = int (unat w)"
proof -
  assume w: "unat w < 2 ^ 31"
  have u: "uint w = int (unat w)" by (rule uint_nat)
  have "int (unat w) < int (2 ^ 31)" using w by (simp only: of_nat_less_iff)
  then have "uint w < 2 ^ 31" unfolding u by simp
  then have "signed_take_bit 31 (uint w) = uint w"
    by (intro signed_take_bit_int_eq_self) (use uint_ge_0 [of w] in linarith)+
  with u show "sint w = int (unat w)" by (simp add: sint_uint)
qed

lemma sint_of_int_small: "0 \<le> k \<Longrightarrow> k < 2 ^ 31 \<Longrightarrow> sint (word_of_int k :: u32) = k"
  by (simp add: sint_sbintrunc' signed_take_bit_int_eq_self)

lemma config_show_loop_rep:
  assumes rep: "regs_rep cores g d" and ok: "\<forall>c \<in> set (tab_core g @ tab_sys g). printable c"
    and room: "length (table_text g) < PAGE_SIZE"
  defines "start \<equiv> int (sys_base g)"
    and "stop \<equiv> int (sys_base g + length (words_of (tab_sys g)) + 1)"
  shows "config_show_loop d start stop 4 (page per_core_header) = Some (page (table_text g))"
proof -
  let ?W = "words_of (tab_core g)" and ?V = "words_of (tab_sys g)" and ?b = "sys_base g"
  let ?H = "per_core_header" and ?S = "system_header"
  let ?t1 = "?H @ lines_of (tab_core g)"
  note b = table_bounds [OF rep]
  have mem: "table_mem g (reg_mem d)" using rep by (simp add: regs_rep_def)
  have len: "length ?t1 + length ?S + length (lines_of (tab_sys g)) < PAGE_SIZE"
    using room by (simp add: table_text_def)
  have h4: "sys_header start 4 = []" "sys_header start ?b = ?S"
    by (simp_all add: sys_header_def start_def sys_base_def)
  have "config_show_loop d start stop 4 (page ?H) = config_show_loop d start stop (4 + length ?W)
      (page (?H @ (if tab_core g = [] then [] else sys_header start 4 @ lines_of (tab_core g))))"
    by (rule show_cmds)
      (use ok mem b len h4 in \<open>auto simp: table_mem_def start_def stop_def\<close>)
  also have "?H @ (if tab_core g = [] then [] else sys_header start 4 @ lines_of (tab_core g)) = ?t1"
    by (simp add: h4 lines_of_def)
  also have "config_show_loop d start stop (4 + length ?W) (page ?t1) =
      config_show_loop d start stop (4 + length ?W + (?b - (4 + length ?W))) (page ?t1)"
    by (rule show_zeros) (use mem b len in \<open>auto simp: table_mem_def start_def stop_def\<close>)
  also have "4 + length ?W + (?b - (4 + length ?W)) = ?b" using b(3) by simp
  also have "config_show_loop d start stop ?b (page ?t1) = config_show_loop d start stop (?b + length ?V)
      (page (?t1 @ (if tab_sys g = [] then [] else sys_header start ?b @ lines_of (tab_sys g))))"
    by (rule show_cmds) (use ok mem b len h4 in \<open>auto simp: table_mem_def start_def stop_def\<close>)
  also have "\<dots> = config_show_loop d start stop (Suc (?b + length ?V)) (page (table_text g))"
  proof -
    let ?t2 = "?t1 @ (if tab_sys g = [] then [] else sys_header start ?b @ lines_of (tab_sys g))"
    have whole: "?t2 @ sys_header start (?b + length ?V) = table_text g"
      using h4 by (auto simp: table_text_def sys_header_def start_def lines_of_def)
    have "config_show_loop d start stop (?b + length ?V) (page ?t2) =
        config_show_loop d start stop (Suc (?b + length ?V)) (page (?t2 @ sys_header start (?b + length ?V)))"
    proof (rule show_zero)
      show "length ?t2 + length (sys_header start (?b + length ?V)) < PAGE_SIZE"
        using room whole by (metis length_append)
    qed (use mem b in \<open>auto simp: table_mem_def stop_def\<close>)
    with whole show ?thesis by simp
  qed
  also have "\<dots> = Some (page (table_text g))"
    by (subst config_show_loop.simps) (simp add: stop_def)
  finally show ?thesis .
qed

lemma register_config_show_rep:
  assumes rep: "tab_dev cores sz g dev" and ok: "\<forall>c \<in> set (tab_core g @ tab_sys g). printable c"
    and room: "length (table_text g) < PAGE_SIZE"
  shows "register_config_show dev = Some (int (length (table_text g)), table_text g)"
proof -
  from rep obtain cpu d where d: "dev = Some cpu" "cpussregdata cpu = Some d" and r: "regs_rep cores g d"
    by (auto simp: tab_dev_def)
  note b = table_bounds [OF r]
  have m2: "unat (reg_mem d 2) = sys_base g" using r by (simp add: regs_rep_def table_mem_def)
  have start: "sint (reg_mem d 2) = int (sys_base g)" using m2 b(1) by (subst sint_small) simp_all
  have q: "unat (sys_reg_size d) div 4 = length (words_of (tab_sys g))" using r by (simp add: regs_rep_def)
  have stop: "sint (word_of_int (int (sys_base g) + int (length (words_of (tab_sys g))) + 1) :: u32) =
      int (sys_base g + length (words_of (tab_sys g)) + 1)"
    using b(1) by (subst sint_of_int_small) simp_all
  have hd: "scnprintf_str 64 per_core_header = per_core_header"
    "strlcat_str [] per_core_header PAGE_SIZE = per_core_header"
    by (simp_all add: scnprintf_str_def strlcat_str_def PAGE_SIZE_def)
  show ?thesis
    using d start q stop sys_end_index(1) [OF r] config_show_loop_rep [OF r ok room]
    unfolding register_config_show_def by (simp add: hd Let_def PERCORE_INDEX_def del: of_int_add)
qed

subsection \<open>Refused configurations\<close>

text \<open>A configuration that is refused leaves the table as it was, whatever was written.\<close>

lemma config_cpuss_register_error:
  "config_cpuss_register sz i cmd off v m = Some (ret, m') \<Longrightarrow> ret \<noteq> 0 \<Longrightarrow> ret = - EINVAL \<and> m' = m"
  by (auto simp: config_cpuss_register_def elim!: bind_SomeE split: if_split_asm)

lemma add_core_register_error:
  "add_core_register n cmd off v r d = Some (ret, d') \<Longrightarrow> ret \<noteq> 0 \<Longrightarrow> ret < 0 \<and> d' = d"
  by (auto simp: add_core_register_def Let_def errno_defs elim!: bind_SomeE
      dest!: config_cpuss_register_error split: if_split_asm)

lemma add_system_register_error:
  "add_system_register cmd off v r d = Some (ret, d') \<Longrightarrow> ret \<noteq> 0 \<Longrightarrow> ret < 0 \<and> d' = d"
  by (auto simp: add_system_register_def Let_def errno_defs elim!: bind_SomeE
      dest!: config_cpuss_register_error split: if_split_asm)

lemma cpussregdata_same: "cpussregdata cpu = Some d \<Longrightarrow> cpu\<lparr>cpussregdata := Some d\<rparr> = cpu"
  by (cases cpu) simp

lemma register_config_store_error:
  assumes "register_config_store cores scan n dev = Some (ret, dev')" and "ret < 0"
  shows "dev' = dev"
  using assms
  by (auto simp: register_config_store_def Let_def cpussregdata_same elim!: bind_SomeE
      dest!: add_core_register_error [OF _ less_imp_neq] add_system_register_error [OF _ less_imp_neq]
      split: if_split_asm)

text \<open>
  The index computation wraps around for large numbers of per-core registers: the table is
  accepted although it has room for none of them.
\<close>

lemma core_reg_num_wraps:
  assumes d: "dev = Some cpu" "cpussregdata cpu = Some d" and sz: "24 < unat (reg_size d)"
  shows "\<exists>cpu' d'. update_reg_dump_table 0x80000000 dev = Some (0, Some cpu') \<and> cpussregdata cpu' = Some d' \<and>
    core_reg_num d' = 0x80000000 \<and> reg_mem d' 2 = 5"
  using update_reg_dump_table_eq [OF d, of "0x80000000"] sz
  by (auto simp: SYSTEM_REGS_INPUT_INDEX_def)

subsection \<open>The lists of special purpose registers\<close>

definition spr_rep :: "u32 list \<Rightarrow> sprs_dump_data \<Rightarrow> bool" where
  "spr_rep S d \<longleftrightarrow>
     unat (sprs_data_index d) = length S \<and> unat (spr_used_memory d) = 24 + 12 * length S \<and>
     24 + 12 * length S \<le> unat (spr_size d) \<and> unat (spr_size d) < 2 ^ 32 - 12 \<and>
     spr_mem d 0 = INPUT_DATA_BY_HLOS \<and> spr_mem d 1 = FORMAT_VERSION_1 \<and> spr_mem d 2 = 5 \<and>
     unat (spr_mem d 3) = 4 * (5 + length S + 1) \<and> spr_mem d 4 = 0 \<and>
     arr_seg (spr_mem d) 5 (length S) = S \<and> spr_mem d (5 + length S) = 0"

lemma reset_spr_rep:
  assumes "24 \<le> unat (spr_size d)" and "unat (spr_size d) < 2 ^ 32 - 12"
  shows "\<exists>d'. reset_spr d = Some d' \<and> spr_rep [] d' \<and> spr_size d' = spr_size d"
  using assms
  by (simp add: reset_spr_def Let_def set_words_def put_header_def put_word_def spr_rep_def cpuss_consts)

text \<open>A region of fewer than 24 bytes does not hold the header that a reset writes.\<close>

lemma reset_spr_small: "unat (spr_size d) < 24 \<Longrightarrow> reset_spr d = None"
  by (auto simp: reset_spr_def Let_def set_words_def put_header_def put_word_def cpuss_consts
      split: bind_splits)

lemma add_spr_rep:
  assumes rep: "spr_rep S d"
  shows "if 24 + 12 * (length S + 1) < unat (spr_size d)
    then \<exists>d'. add_spr v d = Some (0, d') \<and> spr_rep (S @ [v]) d' \<and> spr_size d' = spr_size d
    else add_spr v d = Some (- ENOMEM, d)"
proof -
  have used: "unat (spr_used_memory d + 12) = 24 + 12 * (length S + 1)"
    using rep by (subst unat_add32) (simp_all add: spr_rep_def)
  have check: "spr_used_memory d + 12 < spr_size d \<longleftrightarrow> 24 + 12 * (length S + 1) < unat (spr_size d)"
    using used by (simp add: word_less_nat_alt)
  show ?thesis
  proof (cases "24 + 12 * (length S + 1) < unat (spr_size d)")
    case False
    with check show ?thesis by (simp add: add_spr_def)
  next
    case True
    let ?i = "sprs_data_index d"
    let ?m = "(spr_mem d)(3 := (7 + ?i) * 4, 5 + length S := v, Suc (5 + length S) := 0)"
    let ?d = "d\<lparr>spr_mem := ?m, sprs_data_index := ?i + 1, spr_used_memory := spr_used_memory d + 12\<rparr>"
    have lim: "12 * length S < 2 ^ 32 - 48" using rep True by (simp add: spr_rep_def)
    have i: "unat ?i = length S" using rep by (simp add: spr_rep_def)
    have i7: "unat (7 + ?i) = 7 + length S" using i lim by (subst unat_add32) simp_all
    have "unat ((7 + ?i) * 4) = 4 * (7 + length S)" using i7 lim by (subst unat_mult32) simp_all
    moreover have "unat (?i + 1) = length S + 1" using i lim by (subst unat_add32) simp_all
    moreover have "arr_seg ?m 5 (length S) = S"
      using rep by (simp add: spr_rep_def)
    ultimately have "spr_rep (S @ [v]) ?d"
      using rep True used by (simp add: spr_rep_def arr_seg_Suc)
    moreover have "add_spr v d = Some (0, ?d)"
      using True check rep i by (simp add: add_spr_def Let_def put_word_def spr_rep_def cpuss_consts add.commute)
    ultimately show ?thesis using True by simp
  qed
qed

definition sprs_dev :: "u32 list option list \<Rightarrow> cpuss_dump_data option \<Rightarrow> bool" where
  "sprs_dev Ss dev \<longleftrightarrow> (\<exists>cpu. dev = Some cpu \<and> length Ss = MAX_CORE_NUM \<and>
     list_all2 (rel_option spr_rep) Ss (sprdata cpu))"

lemma spr_config_store_rep:
  assumes rep: "sprs_dev Ss (Some c)" and cpu: "unat cpu < MAX_CORE_NUM" and S: "Ss ! unat cpu = Some S"
    and d: "sprdata c ! unat cpu = Some d"
  shows "if 24 + 12 * (length S + 1) < unat (spr_size d)
    then \<exists>dev'. spr_config_store 2 v cpu n (Some c) = Some (int n, dev') \<and>
           sprs_dev (Ss[unat cpu := Some (S @ [v])]) dev'
    else spr_config_store 2 v cpu n (Some c) = Some (- ENOMEM, Some c)"
proof -
  from rep have len: "length Ss = MAX_CORE_NUM"
    and all: "list_all2 (rel_option spr_rep) Ss (sprdata c)" by (auto simp: sprs_dev_def)
  have "rel_option spr_rep (Ss ! unat cpu) (sprdata c ! unat cpu)"
    using all cpu len by (simp add: list_all2_conv_all_nth)
  then have r: "spr_rep S d" using S d by simp
  show ?thesis
  proof (cases "24 + 12 * (length S + 1) < unat (spr_size d)")
    case True
    then obtain d' where d': "add_spr v d = Some (0, d')" "spr_rep (S @ [v]) d'"
      using add_spr_rep [OF r, of v] by auto
    then have "spr_config_store 2 v cpu n (Some c) = Some (int n, Some (c\<lparr>sprdata := (sprdata c)[unat cpu := Some d']\<rparr>))"
      using d cpu by (simp add: spr_config_store_def)
    moreover have "sprs_dev (Ss[unat cpu := Some (S @ [v])]) (Some (c\<lparr>sprdata := (sprdata c)[unat cpu := Some d']\<rparr>))"
      using all d'(2) len by (auto simp: sprs_dev_def intro!: list_all2_update_cong)
    ultimately show ?thesis using True by simp
  next
    case False
    have "c\<lparr>sprdata := (sprdata c)[unat cpu := Some d]\<rparr> = c"
      using d by (metis list_update_id cpuss_dump_data.surjective cpuss_dump_data.update_convs(2))
    with False add_spr_rep [OF r, of v] d cpu show ?thesis by (simp add: spr_config_store_def errno_defs)
  qed
qed

end
