(* ===== verification/Dump_Table.thy ===== *)
theory Dump_Table
  imports Md_Api Cpuss_Table
begin

text \<open>
  The memory dump tables of \<^verbatim>\<open>memory_dump_v2/memory_dump_v2.c\<close>: the base table, the application
  processor's table behind it, the registration of dump data, and \<^verbatim>\<open>mem_dump_alloc\<close>, which lays
  out the dump memory for the nodes of the device tree.

  The dump memory is one block.  The tables in it are a map from the offset behind
  \<^verbatim>\<open>memdump.table\<close> to the table there, the data headers are a map from physical addresses.
\<close>

subsection \<open>State\<close>

definition DUMP_MAX_NUM_ENTRIES :: nat where "DUMP_MAX_NUM_ENTRIES = 0x150"
definition MSM_DUMP_TABLE_APPS :: u32 where "MSM_DUMP_TABLE_APPS = 0"

definition MSM_DUMP_MAKE_VERSION :: "u32 \<Rightarrow> u32 \<Rightarrow> u32" where
  "MSM_DUMP_MAKE_VERSION ma mi = Bit_Operations.or (push_bit 20 ma) mi"

definition MSM_DUMP_TABLE_VERSION :: u32 where
  "MSM_DUMP_TABLE_VERSION = MSM_DUMP_MAKE_VERSION 2 0"

definition sizeof_dump_entry :: nat where "sizeof_dump_entry = 48"
definition sizeof_dump_table :: nat where
  "sizeof_dump_table = 8 + DUMP_MAX_NUM_ENTRIES * sizeof_dump_entry"
definition MSM_DUMP_DATA_SIZE :: nat where "MSM_DUMP_DATA_SIZE = 64"

lemmas dump_consts =
  DUMP_MAX_NUM_ENTRIES_def MSM_DUMP_TABLE_APPS_def sizeof_dump_entry_def sizeof_dump_table_def
  MSM_DUMP_DATA_SIZE_def

datatype msm_dump_type = MSM_DUMP_TYPE_DATA | MSM_DUMP_TYPE_TABLE

record msm_dump_entry =
  de_id :: u32
  de_name :: string
  de_type :: msm_dump_type
  de_addr :: u64

record msm_dump_data =
  dd_version :: u32
  dd_magic :: u32
  dd_name :: string
  dd_addr :: u64
  dd_len :: u64

record msm_dump_table =
  dt_version :: u32
  num_entries :: nat
  dt_entries :: "msm_dump_entry arr"

definition zero_entry :: msm_dump_entry where
  "zero_entry = \<lparr>de_id = 0, de_name = '''', de_type = MSM_DUMP_TYPE_DATA, de_addr = 0\<rparr>"

definition zero_table :: msm_dump_table where
  "zero_table = \<lparr>dt_version = 0, num_entries = 0, dt_entries = (\<lambda>_. zero_entry)\<rparr>"

definition zero_data :: msm_dump_data where
  "zero_data = \<lparr>dd_version = 0, dd_magic = 0, dd_name = '''', dd_addr = 0, dd_len = 0\<rparr>"

text \<open>
  \<open>memdump_table\<close> is the pointer \<^verbatim>\<open>memdump.table\<close>, with the tables behind it; \<open>files\<close> are the sysfs
  files of the device.  The last field is the state of the minidump driver.
\<close>

record mem_dump =
  table_phys :: u64
  memdump_table :: "(nat \<Rightarrow> msm_dump_table option) option"
  data_at :: "u64 \<Rightarrow> msm_dump_data option"
  cpuss_dev :: "cpuss_dump_data option"
  cpuss_initialized :: "bool \<times> bool"
  files :: "string list"
  md :: md_globals

subsection \<open>Tables\<close>

definition msm_dump_table_version :: u32 where
  "msm_dump_table_version = MSM_DUMP_TABLE_VERSION"

definition append_entry :: "u32 \<Rightarrow> msm_dump_type \<Rightarrow> u64 \<Rightarrow> msm_dump_table \<Rightarrow> msm_dump_table" where
  "append_entry i ty a t = t\<lparr>dt_entries := (dt_entries t)(num_entries t :=
       (dt_entries t (num_entries t))\<lparr>de_id := i, de_type := ty, de_addr := a\<rparr>),
     num_entries := num_entries t + 1\<rparr>"

definition msm_dump_table_register :: "msm_dump_entry \<Rightarrow> mem_dump \<Rightarrow> (int \<times> mem_dump) option" where
  "msm_dump_table_register entry s =
     (case memdump_table s of
        None \<Rightarrow> Some (- EINVAL, s)
      | Some ts \<Rightarrow> do {
          t \<leftarrow> ts 0;
          if DUMP_MAX_NUM_ENTRIES \<le> num_entries t then Some (- EINVAL, s)
          else Some (0, s\<lparr>memdump_table :=
             Some (ts(0 \<mapsto> append_entry (de_id entry) MSM_DUMP_TYPE_TABLE (de_addr entry) t))\<rparr>) })"

text \<open>The offset of the table with the number, or the error.\<close>

definition msm_dump_get_table :: "u32 \<Rightarrow> mem_dump \<Rightarrow> (int + nat) option" where
  "msm_dump_get_table i s =
     (case memdump_table s of
        None \<Rightarrow> Some (Inl (- EINVAL))
      | Some ts \<Rightarrow> do {
          t \<leftarrow> ts 0;
          Some (case find (\<lambda>k. de_id (dt_entries t k) = i) [0..<DUMP_MAX_NUM_ENTRIES] of
             None \<Rightarrow> Inl (- EINVAL)
           | Some k \<Rightarrow>
               if de_addr (dt_entries t k) = 0 then Inl (- EINVAL)
               else Inr (unat (de_addr (dt_entries t k) - table_phys s))) })"

definition register_dump_table_entry :: "u32 \<Rightarrow> msm_dump_entry \<Rightarrow> mem_dump \<Rightarrow> (int \<times> mem_dump) option" where
  "register_dump_table_entry i entry s = do {
     r \<leftarrow> msm_dump_get_table i s;
     (case r of
        Inl e \<Rightarrow> Some (e, s)
      | Inr off \<Rightarrow> do {
          ts \<leftarrow> memdump_table s;
          t \<leftarrow> ts off;
          if DUMP_MAX_NUM_ENTRIES \<le> num_entries t then Some (- EINVAL, s)
          else Some (0, s\<lparr>memdump_table :=
             Some (ts(off \<mapsto> append_entry (de_id entry) MSM_DUMP_TYPE_DATA (de_addr entry) t))\<rparr>) }) }"

definition msm_dump_data_register_nominidump :: "u32 \<Rightarrow> msm_dump_entry \<Rightarrow> mem_dump \<Rightarrow> (int \<times> mem_dump) option" where
  "msm_dump_data_register_nominidump = register_dump_table_entry"

definition upper :: "char \<Rightarrow> char" where
  "upper c = (if CHR ''a'' = c then CHR ''A'' else if CHR ''b'' = c then CHR ''B'' else
     if CHR ''c'' = c then CHR ''C'' else if CHR ''d'' = c then CHR ''D'' else
     if CHR ''e'' = c then CHR ''E'' else if CHR ''f'' = c then CHR ''F'' else c)"

text \<open>\<open>to_virt\<close> is the kernel's \<^verbatim>\<open>phys_to_virt\<close>; reading a data header that is not there is a fault.\<close>

definition dump_region :: "(u64 \<Rightarrow> u64) \<Rightarrow> msm_dump_entry \<Rightarrow> msm_dump_data \<Rightarrow> md_region" where
  "dump_region to_virt entry d =
     \<lparr>mdr_name = (if dd_name d = '''' then take MAX_NAME_LENGTH (''KMDT0x'' @ map upper (hex_str (unat (de_id entry))))
         else strscpy_str (dd_name d) (MAX_NAME_LENGTH + 1)),
      mdr_id = de_id entry, virt_addr = to_virt (dd_addr d), phys_addr = dd_addr d, mdr_size = dd_len d\<rparr>"

definition msm_dump_data_add_minidump ::
  "(u64 \<Rightarrow> u64) \<Rightarrow> bool \<Rightarrow> msm_dump_entry \<Rightarrow> mem_dump \<Rightarrow> (int \<times> mem_dump) option" where
  "msm_dump_data_add_minidump to_virt alloc entry s = do {
     d \<leftarrow> data_at s (de_addr entry);
     if dd_addr d = 0 \<or> dd_len d = 0 then Some (- EINVAL, s)
     else do {
       (ret, m) \<leftarrow> msm_minidump_add_region alloc (Some (dump_region to_virt entry d)) (md s);
       Some (ret, s\<lparr>md := m\<rparr>) }}"

definition msm_dump_data_register ::
  "(u64 \<Rightarrow> u64) \<Rightarrow> bool \<Rightarrow> u32 \<Rightarrow> msm_dump_entry \<Rightarrow> mem_dump \<Rightarrow> (int \<times> mem_dump) option" where
  "msm_dump_data_register to_virt alloc i entry s = do {
     (ret, s) \<leftarrow> register_dump_table_entry i entry s;
     if ret \<noteq> 0 then Some (ret, s)
     else do {
       (_, s) \<leftarrow> msm_dump_data_add_minidump to_virt alloc entry s;
       Some (ret, s) }}"

subsection \<open>Sysfs files\<close>

text \<open>
  \<open>create\<close> is the result of \<^verbatim>\<open>device_create_file\<close>.  When one file cannot be created, the files
  that were created before it are removed.
\<close>

fun create_files_from :: "(string \<Rightarrow> int) \<Rightarrow> string list \<Rightarrow> string list \<Rightarrow> string list \<Rightarrow> int \<times> string list" where
  "create_files_from create created [] fs = (0, fs)"
| "create_files_from create created (a # as) fs =
     (if create a \<noteq> 0 then (create a, filter (\<lambda>f. f \<notin> set created) fs)
      else create_files_from create (created @ [a]) as (fs @ [a]))"

definition memory_dump_create_files :: "(string \<Rightarrow> int) \<Rightarrow> string list \<Rightarrow> string list \<Rightarrow> int \<times> string list" where
  "memory_dump_create_files create attrs fs = create_files_from create [] attrs fs"

definition register_dump_attrs :: "string list" where
  "register_dump_attrs = [''core_reg_num'', ''register_config'', ''register_reset'', ''format_version'']"

definition spr_dump_attrs :: "string list" where
  "spr_dump_attrs = [''spr_config'', ''sprs_register_reset'', ''sprs_format_version'']"

definition cpuss_create_nodes :: "(string \<Rightarrow> int) \<Rightarrow> bool \<times> bool \<Rightarrow> string list \<Rightarrow> string list" where
  "cpuss_create_nodes create initialized fs =
     (let fs = (if fst initialized then snd (memory_dump_create_files create register_dump_attrs fs) else fs)
      in if snd initialized then snd (memory_dump_create_files create spr_dump_attrs fs) else fs)"

subsection \<open>Laying out the dump memory\<close>

text \<open>The memory at the start was cleared by \<^verbatim>\<open>mem_dump_alloc\<close>; it holds the two tables.\<close>

definition init_memory_dump :: "u64 \<Rightarrow> mem_dump \<Rightarrow> (int \<times> mem_dump) option" where
  "init_memory_dump phys s =
     (let t = zero_table\<lparr>dt_version := MSM_DUMP_TABLE_VERSION\<rparr>;
          s = s\<lparr>memdump_table := Some [0 \<mapsto> t, sizeof_dump_table \<mapsto> t], table_phys := phys\<rparr>
      in msm_dump_table_register
           (zero_entry\<lparr>de_id := MSM_DUMP_TABLE_APPS, de_addr := phys + of_nat sizeof_dump_table\<rparr>) s)"

text \<open>
  A child node of the device: its name and the results of reading its size and its id, \<open>Inl\<close> with
  the error where the property cannot be read.
\<close>

record dump_node =
  node_name :: string
  node_size :: "int + u32"
  node_id :: "int + u32"

record dump_env =
  memory_region_node :: bool
  reserved_mem_init :: int
  dma_alloc :: "nat \<Rightarrow> (u64 \<times> u64) option"
  alloc_cpudata :: bool
  alloc_desc :: "u32 \<Rightarrow> bool"
  alloc_md :: bool
  create_file :: "string \<Rightarrow> int"
  dump_nodes :: "dump_node list"

definition mem_dump_reserve_mem :: "dump_env \<Rightarrow> int" where
  "mem_dump_reserve_mem env =
     (if memory_region_node env then if reserved_mem_init env \<noteq> 0 then reserved_mem_init env else 0 else 0)"

definition align_4k :: "nat \<Rightarrow> nat" where "align_4k n = (n + 4095) div 4096 * 4096"

fun sizes_of :: "dump_node list \<Rightarrow> nat list" where
  "sizes_of [] = []"
| "sizes_of (nd # nds) = (case node_size nd of Inl _ \<Rightarrow> sizes_of nds | Inr z \<Rightarrow> unat z # sizes_of nds)"

definition dump_total_size :: "dump_node list \<Rightarrow> nat" where
  "dump_total_size nds =
     align_4k (sizeof_dump_table * 2 + sum_list (sizes_of nds) + MSM_DUMP_DATA_SIZE * length (sizes_of nds))"

text \<open>
  One round of the second loop, for a node with size and id, at offset \<open>off\<close> of the block.
  \<open>initialized\<close> is the local variable of that name, which is set from the static one.
\<close>

definition place_node ::
  "dump_env \<Rightarrow> u64 \<Rightarrow> nat \<Rightarrow> string \<Rightarrow> u32 \<Rightarrow> u32 \<Rightarrow> (bool \<times> bool) \<times> mem_dump \<Rightarrow>
     (int \<times> (bool \<times> bool) \<times> mem_dump) option" where
  "place_node env phys off name z i st = do {
     let (initialized, s) = st;
     let pa = phys + of_nat off;
     let s = s\<lparr>data_at := (data_at s)(pa \<mapsto> zero_data\<lparr>dd_addr := pa + of_nat MSM_DUMP_DATA_SIZE,
        dd_len := ucast z, dd_name := strscpy_str name 32\<rparr>)\<rparr>;
     (ret, s) \<leftarrow> msm_dump_data_register_nominidump MSM_DUMP_TABLE_APPS
        (zero_entry\<lparr>de_id := i, de_addr := pa\<rparr>) s;
     if unat i = CPUSS_REGDUMP \<or> SPR_DUMP_CPU0 \<le> unat i \<and> unat i \<le> SPR_DUMP_CPU7
     then (let (dev, ini) = cpuss_dump_init (alloc_cpudata env) (alloc_desc env i) z (unat i)
                 (cpuss_dev s, cpuss_initialized s)
           in Some (ret, ini, s\<lparr>cpuss_dev := dev, cpuss_initialized := ini\<rparr>))
     else Some (ret, initialized, s) }"

fun place_nodes ::
  "dump_env \<Rightarrow> u64 \<Rightarrow> nat \<Rightarrow> dump_node list \<Rightarrow> int \<times> (bool \<times> bool) \<times> mem_dump \<Rightarrow>
     (int \<times> (bool \<times> bool) \<times> mem_dump) option" where
  "place_nodes env phys off [] st = Some st"
| "place_nodes env phys off (nd # nds) st =
     (case node_size nd of
        Inl e \<Rightarrow> place_nodes env phys off nds (e, snd st)
      | Inr z \<Rightarrow>
          (case node_id nd of
             Inl e \<Rightarrow> place_nodes env phys off nds (e, snd st)
           | Inr i \<Rightarrow> do {
               st \<leftarrow> place_node env phys off (node_name nd) z i (snd st);
               place_nodes env phys (off + (unat z + MSM_DUMP_DATA_SIZE)) nds st }))"

text \<open>The id of the region for the whole block is left unset by the code; the model uses 0.\<close>

definition memdump_region :: "u64 \<Rightarrow> u64 \<Rightarrow> nat \<Rightarrow> md_region" where
  "memdump_region va pa total_size = \<lparr>mdr_name = strscpy_str ''MEMDUMP'' (MAX_NAME_LENGTH + 1), mdr_id = 0,
     virt_addr = va, phys_addr = pa, mdr_size = of_nat total_size\<rparr>"

definition mem_dump_alloc :: "dump_env \<Rightarrow> mem_dump \<Rightarrow> (int \<times> mem_dump) option" where
  "mem_dump_alloc env s =
     (if mem_dump_reserve_mem env \<noteq> 0 then Some (- ENOMEM, s)
      else let total_size = dump_total_size (dump_nodes env)
      in case dma_alloc env total_size of
           None \<Rightarrow> Some (- ENOMEM, s)
         | Some (va, pa) \<Rightarrow> do {
             (ret, s) \<leftarrow> init_memory_dump pa s;
             if ret \<noteq> 0 then Some (ret, s)
             else do {
               (ret, initialized, s) \<leftarrow> place_nodes env pa (sizeof_dump_table * 2) (dump_nodes env)
                  (ret, (False, False), s);
               (_, m) \<leftarrow> msm_minidump_add_region (alloc_md env) (Some (memdump_region va pa total_size)) (md s);
               let s = s\<lparr>md := m, files := cpuss_create_nodes (create_file env) initialized (files s)\<rparr>;
               dev \<leftarrow> (if snd initialized
                         then map_option snd (reset_sprs_dump_table (cpuss_dev s)) else Some (cpuss_dev s));
               Some (ret, s\<lparr>cpuss_dev := dev\<rparr>) }})"

text \<open>\<open>dma_mask\<close> is the result of setting the device's DMA mask.\<close>

definition mem_dump_probe :: "int \<Rightarrow> dump_env \<Rightarrow> mem_dump \<Rightarrow> (int \<times> mem_dump) option" where
  "mem_dump_probe dma_mask env s = (if dma_mask < 0 then Some (dma_mask, s) else mem_dump_alloc env s)"

subsection \<open>What the tables hold\<close>

text \<open>
  \<open>dumps_rep phys T s\<close>: the tables are set up at the physical address \<open>phys\<close>, and the application
  processor's table lists exactly the ids and addresses \<open>T\<close>.
\<close>

definition dumps_rep :: "u64 \<Rightarrow> (u32 \<times> u64) list \<Rightarrow> mem_dump \<Rightarrow> bool" where
  "dumps_rep phys T s \<longleftrightarrow> table_phys s = phys \<and> phys + of_nat sizeof_dump_table \<noteq> 0 \<and>
     length T \<le> DUMP_MAX_NUM_ENTRIES \<and>
     (\<exists>ts base apps. memdump_table s = Some ts \<and> ts 0 = Some base \<and> ts sizeof_dump_table = Some apps \<and>
        de_id (dt_entries base 0) = MSM_DUMP_TABLE_APPS \<and>
        de_addr (dt_entries base 0) = phys + of_nat sizeof_dump_table \<and>
        num_entries apps = length T \<and>
        (\<forall>k < length T. de_id (dt_entries apps k) = fst (T ! k) \<and> de_addr (dt_entries apps k) = snd (T ! k) \<and>
           de_type (dt_entries apps k) = MSM_DUMP_TYPE_DATA))"

lemma init_memory_dump_rep:
  assumes "phys + of_nat sizeof_dump_table \<noteq> 0"
  shows "\<exists>s'. init_memory_dump phys s = Some (0, s') \<and> dumps_rep phys [] s' \<and>
    md s' = md s \<and> cpuss_dev s' = cpuss_dev s \<and> cpuss_initialized s' = cpuss_initialized s"
  using assms
  by (simp add: init_memory_dump_def msm_dump_table_register_def Let_def zero_table_def zero_entry_def
      append_entry_def dumps_rep_def dump_consts)

lemma get_table_apps:
  assumes "dumps_rep phys T s"
  shows "msm_dump_get_table MSM_DUMP_TABLE_APPS s = Some (Inr sizeof_dump_table)"
proof -
  from assms obtain ts base where b: "memdump_table s = Some ts" "ts 0 = Some base"
    "de_id (dt_entries base 0) = MSM_DUMP_TABLE_APPS"
    "de_addr (dt_entries base 0) = phys + of_nat sizeof_dump_table" "table_phys s = phys"
    "phys + of_nat sizeof_dump_table \<noteq> 0" by (auto simp: dumps_rep_def)
  have "find (\<lambda>k. de_id (dt_entries base k) = MSM_DUMP_TABLE_APPS) [0..<DUMP_MAX_NUM_ENTRIES] = Some 0"
    by (rule find_upt_first) (use b in \<open>simp_all add: DUMP_MAX_NUM_ENTRIES_def\<close>)
  moreover have "unat (of_nat sizeof_dump_table :: u64) = sizeof_dump_table" by (simp add: dump_consts)
  ultimately show ?thesis using b by (simp add: msm_dump_get_table_def)
qed

text \<open>The specification of a registration: the list grows by one entry until it is full.\<close>

definition dumps_add :: "msm_dump_entry \<Rightarrow> (u32 \<times> u64) list \<Rightarrow> (int \<times> (u32 \<times> u64) list) option" where
  "dumps_add e T = Some (if length T < DUMP_MAX_NUM_ENTRIES then (0, T @ [(de_id e, de_addr e)]) else (- EINVAL, T))"

lemma register_entry_rep:
  assumes rep: "dumps_rep phys T s" and spec: "dumps_add e T = Some (r, T')"
  shows "\<exists>ts. register_dump_table_entry MSM_DUMP_TABLE_APPS e s = Some (r, s\<lparr>memdump_table := ts\<rparr>) \<and>
    dumps_rep phys T' (s\<lparr>memdump_table := ts\<rparr>)"
proof -
  from rep obtain ts base apps where t: "memdump_table s = Some ts" "ts 0 = Some base"
    "ts sizeof_dump_table = Some apps" "num_entries apps = length T" by (auto simp: dumps_rep_def)
  note get = get_table_apps [OF rep]
  show ?thesis
  proof (cases "length T < DUMP_MAX_NUM_ENTRIES")
    case True
    let ?ts = "ts(sizeof_dump_table \<mapsto> append_entry (de_id e) MSM_DUMP_TYPE_DATA (de_addr e) apps)"
    have "sizeof_dump_table \<noteq> 0" by (simp add: dump_consts)
    then have "dumps_rep phys (T @ [(de_id e, de_addr e)]) (s\<lparr>memdump_table := Some ?ts\<rparr>)"
      using rep t True by (auto simp: dumps_rep_def append_entry_def nth_append less_Suc_eq)
    moreover have "register_dump_table_entry MSM_DUMP_TABLE_APPS e s = Some (0, s\<lparr>memdump_table := Some ?ts\<rparr>)"
      using get t True by (simp add: register_dump_table_entry_def)
    ultimately show ?thesis using spec True by (auto simp: dumps_add_def)
  next
    case False
    have same: "s\<lparr>memdump_table := Some ts\<rparr> = s" using t(1) by simp
    have "dumps_rep phys T (s\<lparr>memdump_table := Some ts\<rparr>)" by (subst same) (rule rep)
    with False get t spec show ?thesis
      by (intro exI [of _ "Some ts"]) (simp add: register_dump_table_entry_def dumps_add_def)
  qed
qed

interpretation dumps: simulation "dumps_rep phys" dumps_add "register_dump_table_entry MSM_DUMP_TABLE_APPS" for phys
  by unfold_locales (use register_entry_rep in blast)

subsection \<open>The layout of the dump memory\<close>

fun usable :: "dump_node list \<Rightarrow> (string \<times> u32 \<times> u32) list" where
  "usable [] = []"
| "usable (nd # nds) =
     (case (node_size nd, node_id nd) of (Inr z, Inr i) \<Rightarrow> (node_name nd, z, i) # usable nds | _ \<Rightarrow> usable nds)"

definition node_end :: "nat \<Rightarrow> (string \<times> u32 \<times> u32) list \<Rightarrow> nat" where
  "node_end off us = off + sum_list (map (\<lambda>(nm, z, i). unat z + MSM_DUMP_DATA_SIZE) us)"

lemma node_end_Cons: "node_end off ((nm, z, i) # us) = node_end (off + (unat z + MSM_DUMP_DATA_SIZE)) us"
  by (simp add: node_end_def)

lemma usable_size:
  "sum_list (map (\<lambda>(nm, z, i). unat z + MSM_DUMP_DATA_SIZE) (usable nds)) \<le>
   sum_list (sizes_of nds) + MSM_DUMP_DATA_SIZE * length (sizes_of nds)"
  by (induction nds) (auto split: sum.splits)

lemma align_4k_ge: "n \<le> align_4k n"
  using div_mult_mod_eq [of "n + 4095" 4096] mod_less_divisor [of 4096 "n + 4095"]
  by (simp add: align_4k_def)

lemma node_end_total: "node_end (sizeof_dump_table * 2) (usable nds) \<le> dump_total_size nds"
proof -
  have "node_end (sizeof_dump_table * 2) (usable nds) \<le>
      sizeof_dump_table * 2 + sum_list (sizes_of nds) + MSM_DUMP_DATA_SIZE * length (sizes_of nds)"
    using usable_size [of nds] by (simp add: node_end_def)
  also have "\<dots> \<le> dump_total_size nds" unfolding dump_total_size_def by (rule align_4k_ge)
  finally show ?thesis .
qed

text \<open>The node at position \<open>k\<close> is listed with its id and the address of its header.\<close>

definition node_entry :: "u64 \<Rightarrow> nat \<Rightarrow> (string \<times> u32 \<times> u32) list \<Rightarrow> nat \<Rightarrow> u32 \<times> u64" where
  "node_entry phys off us k = (snd (snd (us ! k)), phys + of_nat (node_end off (take k us)))"

definition node_entries :: "u64 \<Rightarrow> nat \<Rightarrow> (string \<times> u32 \<times> u32) list \<Rightarrow> (u32 \<times> u64) list" where
  "node_entries phys off us = map (node_entry phys off us) [0..<length us]"

lemma node_entries_Cons:
  "node_entries phys off ((nm, z, i) # us) =
   (i, phys + of_nat off) # node_entries phys (off + (unat z + MSM_DUMP_DATA_SIZE)) us"
proof -
  have "[0..<Suc (length us)] = 0 # map Suc [0..<length us]"
    by (simp add: map_Suc_upt upt_conv_Cons del: upt_Suc)
  then show ?thesis
    by (simp add: node_entries_def node_entry_def node_end_def comp_def add.assoc del: upt_Suc)
qed

lemma place_node_rep:
  assumes rep: "dumps_rep phys T s" and room: "length T < DUMP_MAX_NUM_ENTRIES"
  shows "\<exists>ini' s'. place_node env phys off nm z i (ini, s) = Some (0, ini', s') \<and>
    dumps_rep phys (T @ [(i, phys + of_nat off)]) s' \<and> md s' = md s"
proof -
  let ?pa = "phys + of_nat off"
  let ?s = "s\<lparr>data_at := (data_at s)(?pa \<mapsto> zero_data\<lparr>dd_addr := ?pa + of_nat MSM_DUMP_DATA_SIZE,
        dd_len := ucast z, dd_name := strscpy_str nm 32\<rparr>)\<rparr>"
  have "dumps_rep phys T ?s" using rep by (simp add: dumps_rep_def)
  from register_entry_rep [OF this, of "zero_entry\<lparr>de_id := i, de_addr := ?pa\<rparr>"] room
  obtain ts where "register_dump_table_entry MSM_DUMP_TABLE_APPS (zero_entry\<lparr>de_id := i, de_addr := ?pa\<rparr>) ?s =
      Some (0, ?s\<lparr>memdump_table := ts\<rparr>)" and "dumps_rep phys (T @ [(i, ?pa)]) (?s\<lparr>memdump_table := ts\<rparr>)"
    by (auto simp: dumps_add_def)
  then show ?thesis
    by (auto simp: place_node_def msm_dump_data_register_nominidump_def Let_def dumps_rep_def
        split: prod.split)
qed

lemma place_nodes_rep:
  assumes "dumps_rep phys T s" and "length T + length (usable nds) \<le> DUMP_MAX_NUM_ENTRIES"
  shows "\<exists>ret ini' s'. place_nodes env phys off nds (r, ini, s) = Some (ret, ini', s') \<and>
    dumps_rep phys (T @ node_entries phys off (usable nds)) s' \<and> md s' = md s"
  using assms
proof (induction nds arbitrary: T s off r ini)
  case Nil
  then show ?case by (simp add: node_entries_def)
next
  case (Cons nd nds)
  show ?case
  proof (cases "\<exists>z i. node_size nd = Inr z \<and> node_id nd = Inr i")
    case True
    then obtain z i where nd: "node_size nd = Inr z" "node_id nd = Inr i" by blast
    obtain ini1 s1 where p: "place_node env phys off (node_name nd) z i (ini, s) = Some (0, ini1, s1)"
      "dumps_rep phys (T @ [(i, phys + of_nat off)]) s1" "md s1 = md s"
      using place_node_rep [OF Cons.prems(1), of env off "node_name nd" z i ini] Cons.prems(2) nd by auto
    from Cons.IH [OF p(2), of "off + (unat z + MSM_DUMP_DATA_SIZE)" 0 ini1] Cons.prems(2) nd p
    show ?thesis by (auto simp: node_entries_Cons)
  next
    case False
    then show ?thesis using Cons.IH [OF Cons.prems(1)] Cons.prems(2) by (auto split: sum.splits)
  qed
qed

subsection \<open>The whole allocation\<close>

text \<open>The SPR regions are large enough for their headers.\<close>

definition spr_fits :: "u32 \<Rightarrow> bool" where
  "spr_fits z \<longleftrightarrow> 24 \<le> unat z \<and> unat z < 2 ^ 32 - 12"

definition sprs_fit :: "cpuss_dump_data option \<Rightarrow> bool" where
  "sprs_fit dev \<longleftrightarrow> (\<forall>cpu. dev = Some cpu \<longrightarrow> length (sprdata cpu) = MAX_CORE_NUM \<and>
     (\<forall>d. Some d \<in> set (sprdata cpu) \<longrightarrow> spr_fits (spr_size d)))"

lemma cpuss_dump_init_fits:
  assumes "sprs_fit dev" and "did \<noteq> CPUSS_REGDUMP \<longrightarrow> spr_fits z"
  shows "sprs_fit (fst (cpuss_dump_init a b z did (dev, ini)))"
  using assms
  by (auto simp: cpuss_dump_init_def sprs_fit_def cpuss_regdump_init_def sprs_dump_init_def Let_def
      split: option.splits prod.splits dest!: set_update_subset_insert [THEN subsetD])

lemma reset_sprs_fits:
  assumes "\<forall>d. Some d \<in> set ds \<longrightarrow> spr_fits (spr_size d)"
  shows "\<exists>ds'. reset_sprs ds = Some ds' \<and>
    list_all2 (rel_option spr_rep) (map (map_option (\<lambda>_. [])) ds) ds'"
  using assms
proof (induction ds)
  case (Cons x ds)
  show ?case
  proof (cases x)
    case None
    with Cons show ?thesis by auto
  next
    case (Some d)
    with Cons.prems have "spr_fits (spr_size d)" by simp
    then obtain d' where "reset_spr d = Some d'" "spr_rep [] d'"
      using reset_spr_rep [of d] by (auto simp: spr_fits_def)
    with Cons Some show ?thesis by auto
  qed
qed simp

text \<open>After a reset every core's list is empty.\<close>

lemma reset_sprs_dump_table_rep:
  assumes "sprs_fit (Some cpu)"
  shows "\<exists>dev. reset_sprs_dump_table (Some cpu) = Some (0, dev) \<and>
    sprs_dev (map (map_option (\<lambda>_. [])) (sprdata cpu)) dev"
  using reset_sprs_fits [of "sprdata cpu"] assms
  by (auto simp: reset_sprs_dump_table_def sprs_dev_def sprs_fit_def)

definition is_spr :: "u32 \<Rightarrow> bool" where
  "is_spr i \<longleftrightarrow> SPR_DUMP_CPU0 \<le> unat i \<and> unat i \<le> SPR_DUMP_CPU7"

lemma register_entry_dev:
  "register_dump_table_entry k e s1 = Some (r, s2) \<Longrightarrow> cpuss_dev s2 = cpuss_dev s1"
  by (auto simp: register_dump_table_entry_def elim!: bind_SomeE split: sum.splits if_split_asm)

lemma place_node_fits:
  assumes p: "place_node env phys off nm z i (ini, s) = Some (r, ini', s')" and s: "sprs_fit (cpuss_dev s)"
    and z: "is_spr i \<longrightarrow> spr_fits z"
  shows "sprs_fit (cpuss_dev s')"
proof -
  have ini: "sprs_fit (fst (cpuss_dump_init a b z (unat i) (cpuss_dev s, f)))"
    if "unat i = CPUSS_REGDUMP \<or> is_spr i" for a b f
    by (rule cpuss_dump_init_fits) (use s z that in auto)
  show ?thesis
  proof (cases "unat i = CPUSS_REGDUMP \<or> is_spr i")
    case True
    with p have "\<exists>f. cpuss_dev s' =
        fst (cpuss_dump_init (alloc_cpudata env) (alloc_desc env i) z (unat i) (cpuss_dev s, f))"
      by (auto simp: place_node_def msm_dump_data_register_nominidump_def Let_def is_spr_def case_prod_beta
          elim!: bind_SomeE dest!: register_entry_dev simp del: split_paired_Ex)
    then show ?thesis using ini [OF True] by metis
  next
    case False
    with p s show ?thesis
      by (auto simp: place_node_def msm_dump_data_register_nominidump_def Let_def is_spr_def elim!: bind_SomeE
          dest!: register_entry_dev)
  qed
qed

lemma place_nodes_fits:
  assumes "place_nodes env phys off nds (r, ini, s) = Some (r', ini', s')" and "sprs_fit (cpuss_dev s)"
    and "\<forall>(nm, z, i) \<in> set (usable nds). is_spr i \<longrightarrow> spr_fits z"
  shows "sprs_fit (cpuss_dev s')"
  using assms
proof (induction nds arbitrary: off r ini s)
  case (Cons nd nds)
  show ?case
  proof (cases "\<exists>z i. node_size nd = Inr z \<and> node_id nd = Inr i")
    case True
    then obtain z i where nd: "node_size nd = Inr z" "node_id nd = Inr i" by blast
    with Cons.prems(1) obtain r1 ini1 s1
      where p: "place_node env phys off (node_name nd) z i (ini, s) = Some (r1, ini1, s1)"
      and rest: "place_nodes env phys (off + (unat z + MSM_DUMP_DATA_SIZE)) nds (r1, ini1, s1) = Some (r', ini', s')"
      by (auto elim!: bind_SomeE)
    have "sprs_fit (cpuss_dev s1)"
      by (rule place_node_fits [OF p Cons.prems(2)]) (use Cons.prems(3) nd in auto)
    then show ?thesis by (rule Cons.IH [OF rest]) (use Cons.prems(3) nd in auto)
  next
    case False
    then show ?thesis using Cons.IH Cons.prems by (auto split: sum.splits)
  qed
qed simp

lemma reset_after_place:
  assumes "sprs_fit dev"
  shows "\<exists>dev'. map_option snd (reset_sprs_dump_table dev) = Some dev'"
proof (cases dev)
  case (Some cpu)
  then show ?thesis using reset_sprs_dump_table_rep [of cpu] assms by auto
qed (simp add: reset_sprs_dump_table_def)

lemma mem_dump_alloc_rep:
  assumes env: "mem_dump_reserve_mem env = 0" "dma_alloc env (dump_total_size (dump_nodes env)) = Some (va, pa)"
    and pa: "pa + of_nat sizeof_dump_table \<noteq> 0"
    and few: "length (usable (dump_nodes env)) \<le> DUMP_MAX_NUM_ENTRIES"
    and spr: "\<forall>(nm, z, i) \<in> set (usable (dump_nodes env)). is_spr i \<longrightarrow> spr_fits z"
    and dev: "sprs_fit (cpuss_dev s)"
    and md: "msm_minidump_add_region (alloc_md env)
      (Some (memdump_region va pa (dump_total_size (dump_nodes env)))) (md s) = Some (r, m)"
  shows "\<exists>ret s'. mem_dump_alloc env s = Some (ret, s') \<and>
    dumps_rep pa (node_entries pa (sizeof_dump_table * 2) (usable (dump_nodes env))) s' \<and> md s' = m"
proof -
  obtain s1 where i: "init_memory_dump pa s = Some (0, s1)" "dumps_rep pa [] s1" "md s1 = md s"
    "cpuss_dev s1 = cpuss_dev s" using init_memory_dump_rep [OF pa, of s] by blast
  let ?E = "node_entries pa (sizeof_dump_table * 2) (usable (dump_nodes env))"
  obtain ret ini s2 where p: "place_nodes env pa (sizeof_dump_table * 2) (dump_nodes env) (0, (False, False), s1) =
      Some (ret, ini, s2)" "dumps_rep pa ?E s2" "md s2 = md s"
    using place_nodes_rep [OF i(2), of "dump_nodes env" env "sizeof_dump_table * 2" 0 "(False, False)"] few i(3)
    by auto
  have "sprs_fit (cpuss_dev s2)" by (rule place_nodes_fits [OF p(1)]) (use dev spr i(4) in auto)
  then obtain dev' where "map_option snd (reset_sprs_dump_table (cpuss_dev s2)) = Some dev'"
    using reset_after_place by blast
  then show ?thesis
    using env i p md
    by (cases "snd ini") (auto simp: mem_dump_alloc_def Let_def dumps_rep_def)
qed

subsection \<open>The data headers\<close>

text \<open>
  \<open>headers_ok lo hi d\<close>: every header of \<open>d\<close> points right behind itself, and header and data lie between the
  addresses \<open>lo\<close> and \<open>hi\<close> and end before the next header.
\<close>

definition headers_ok :: "nat \<Rightarrow> nat \<Rightarrow> (u64 \<Rightarrow> msm_dump_data option) \<Rightarrow> bool" where
  "headers_ok lo hi hs \<longleftrightarrow> (\<forall>p d. hs p = Some d \<longrightarrow> dd_addr d = p + of_nat MSM_DUMP_DATA_SIZE \<and> lo \<le> unat p \<and>
     unat p + MSM_DUMP_DATA_SIZE + unat (dd_len d) \<le> hi \<and>
     (\<forall>p'. hs p' \<noteq> None \<longrightarrow> unat p < unat p' \<longrightarrow> unat p + MSM_DUMP_DATA_SIZE + unat (dd_len d) \<le> unat p'))"

definition node_data :: "u64 \<Rightarrow> string \<Rightarrow> u32 \<Rightarrow> msm_dump_data" where
  "node_data pa nm z = zero_data\<lparr>dd_addr := pa + of_nat MSM_DUMP_DATA_SIZE, dd_len := ucast z,
     dd_name := strscpy_str nm 32\<rparr>"

lemma register_entry_data:
  "register_dump_table_entry k e s1 = Some (r, s2) \<Longrightarrow> data_at s2 = data_at s1"
  by (auto simp: register_dump_table_entry_def elim!: bind_SomeE split: sum.splits if_split_asm)

lemma place_node_data:
  assumes "place_node env phys off nm z i st = Some (r, ini, s')"
  shows "data_at s' = (data_at (snd st))(phys + of_nat off \<mapsto> node_data (phys + of_nat off) nm z)"
  using assms
  by (auto simp: place_node_def msm_dump_data_register_nominidump_def Let_def node_data_def case_prod_beta
      elim!: bind_SomeE dest!: register_entry_data split: if_split_asm)

lemma unat_add_off:
  assumes "unat (phys :: u64) + n < 2 ^ 64"
  shows "unat (phys + of_nat n) = unat phys + n"
  using assms by (simp add: unat_word_ariths unat_of_nat)

lemma headers_ok_insert:
  assumes ok: "headers_ok lo hi hs" and pa: "unat pa = hi" "lo \<le> hi"
  shows "headers_ok lo (hi + (unat z + MSM_DUMP_DATA_SIZE)) (hs(pa \<mapsto> node_data pa nm z))"
proof -
  have len: "unat (dd_len (node_data pa nm z)) = unat z"
    using unsigned_less [of z, where ?'a = nat] by (simp add: node_data_def unsigned_ucast_eq take_bit_nat_eq_self)
  have before: "unat p + MSM_DUMP_DATA_SIZE + unat (dd_len d) \<le> unat pa" if "hs p = Some d" for p d
    using ok that pa by (auto simp: headers_ok_def)
  have below: "unat p < unat pa" if "hs p \<noteq> None" for p
    using before [of p] that by (fastforce simp: dump_consts)
  have addr: "dd_addr (node_data pa nm z) = pa + of_nat MSM_DUMP_DATA_SIZE" by (simp add: node_data_def)
  show ?thesis unfolding headers_ok_def
  proof (intro allI impI)
    fix p d assume "(hs(pa \<mapsto> node_data pa nm z)) p = Some d"
    then consider (new) "p = pa" "d = node_data pa nm z" | (old) "p \<noteq> pa" "hs p = Some d"
      by (auto split: if_splits)
    then show "dd_addr d = p + of_nat MSM_DUMP_DATA_SIZE \<and> lo \<le> unat p \<and>
      unat p + MSM_DUMP_DATA_SIZE + unat (dd_len d) \<le> hi + (unat z + MSM_DUMP_DATA_SIZE) \<and>
      (\<forall>p'. (hs(pa \<mapsto> node_data pa nm z)) p' \<noteq> None \<longrightarrow> unat p < unat p' \<longrightarrow>
        unat p + MSM_DUMP_DATA_SIZE + unat (dd_len d) \<le> unat p')"
    proof cases
      case new
      moreover have "\<not> unat pa < unat p'" if "(hs(pa \<mapsto> node_data pa nm z)) p' \<noteq> None" for p'
        using that below [of p'] by (auto split: if_splits)
      ultimately show ?thesis using len pa addr by auto
    next
      case old
      have "unat p + MSM_DUMP_DATA_SIZE + unat (dd_len d) \<le> hi + (unat z + MSM_DUMP_DATA_SIZE)"
        using before [OF old(2)] pa(1) by simp
      with old show ?thesis using before [OF old(2)] ok unfolding headers_ok_def by auto
    qed
  qed
qed

lemma place_nodes_headers:
  assumes "place_nodes env phys off nds (r, ini, s) = Some (r', ini', s')"
    and "headers_ok lo (unat phys + off) (data_at s)" and "lo \<le> unat phys + off"
    and "unat phys + node_end off (usable nds) \<le> 2 ^ 64"
  shows "headers_ok lo (unat phys + node_end off (usable nds)) (data_at s') \<and>
    (\<forall>p. unat p < unat phys + off \<longrightarrow> data_at s' p = data_at s p) \<and>
    (\<forall>k < length (usable nds). let pa = phys + of_nat (node_end off (take k (usable nds))); (nm, z, i) = usable nds ! k
       in data_at s' pa = Some (node_data pa nm z))"
  using assms
proof (induction nds arbitrary: off r ini s)
  case (Cons nd nds)
  show ?case
  proof (cases "\<exists>z i. node_size nd = Inr z \<and> node_id nd = Inr i")
    case True
    then obtain z i where nd: "node_size nd = Inr z" "node_id nd = Inr i" by blast
    then have us: "usable (nd # nds) = (node_name nd, z, i) # usable nds" by simp
    let ?pa = "phys + of_nat off" and ?off = "off + (unat z + MSM_DUMP_DATA_SIZE)"
    obtain r1 ini1 s1 where p: "place_node env phys off (node_name nd) z i (ini, s) = Some (r1, ini1, s1)"
      and rest: "place_nodes env phys ?off nds (r1, ini1, s1) = Some (r', ini', s')"
      using Cons.prems(1) nd by (auto elim!: bind_SomeE)
    have room: "unat phys + node_end ?off (usable nds) \<le> 2 ^ 64"
      using Cons.prems(4) unfolding us node_end_Cons .
    then have pa: "unat ?pa = unat phys + off"
      by (intro unat_add_off) (simp add: node_end_def dump_consts)
    have d1: "data_at s1 = (data_at s)(?pa \<mapsto> node_data ?pa (node_name nd) z)"
      using place_node_data [OF p] by simp
    have "headers_ok lo (unat phys + ?off) (data_at s1)"
      using headers_ok_insert [OF Cons.prems(2) pa Cons.prems(3), of z "node_name nd"] by (simp add: d1 add.assoc)
    note IH = Cons.IH [OF rest this _ room]
    have first: "data_at s' ?pa = Some (node_data ?pa (node_name nd) z)"
      using IH Cons.prems(3) pa by (simp add: d1 dump_consts)
    have keep: "data_at s' q = data_at s q" if "unat q < unat phys + off" for q
      using IH Cons.prems(3) pa that by (auto simp: d1)
    have "let pa = phys + of_nat (node_end off (take k ((node_name nd, z, i) # usable nds)));
        (nm, z, i) = ((node_name nd, z, i) # usable nds) ! k in data_at s' pa = Some (node_data pa nm z)"
      if "k < length ((node_name nd, z, i) # usable nds)" for k
    proof (cases k)
      case 0
      then show ?thesis using first by (simp add: node_end_def)
    next
      case (Suc j)
      then show ?thesis using IH Cons.prems(3) that by (simp add: node_end_Cons)
    qed
    then show ?thesis using IH Cons.prems(3) keep unfolding us node_end_Cons by simp
  next
    case False
    then show ?thesis using Cons.IH Cons.prems by (auto split: sum.splits)
  qed
qed (simp add: node_end_def)

lemma init_memory_dump_data: "init_memory_dump pa s = Some (r, s') \<Longrightarrow> data_at s' = data_at s"
  by (auto simp: init_memory_dump_def msm_dump_table_register_def Let_def elim!: bind_SomeE split: if_split_asm)

lemma mem_dump_alloc_headers:
  assumes alloc: "mem_dump_alloc env s = Some (ret, s')" and init: "data_at s = (\<lambda>_. None)"
    and dma: "mem_dump_reserve_mem env = 0" "dma_alloc env (dump_total_size (dump_nodes env)) = Some (va, pa)"
    and room: "unat pa + dump_total_size (dump_nodes env) \<le> 2 ^ 64" and pa: "pa + of_nat sizeof_dump_table \<noteq> 0"
  defines "us \<equiv> usable (dump_nodes env)"
  shows "headers_ok (unat pa + sizeof_dump_table * 2) (unat pa + dump_total_size (dump_nodes env)) (data_at s') \<and>
    (\<forall>k < length us. let a = pa + of_nat (node_end (sizeof_dump_table * 2) (take k us)); (nm, z, i) = us ! k
       in data_at s' a = Some (node_data a nm z))"
proof -
  obtain s1 where i: "init_memory_dump pa s = Some (0, s1)" using init_memory_dump_rep [OF pa, of s] by blast
  have d1: "data_at s1 = (\<lambda>_. None)" using init_memory_dump_data [OF i] init by simp
  obtain r ini s2 where p: "place_nodes env pa (sizeof_dump_table * 2) (dump_nodes env) (0, (False, False), s1) =
      Some (r, ini, s2)" and s2: "data_at s' = data_at s2"
    using alloc dma i by (auto simp: mem_dump_alloc_def Let_def case_prod_beta elim!: bind_SomeE split: if_split_asm)
  have "unat pa + node_end (sizeof_dump_table * 2) us \<le> 2 ^ 64"
    using node_end_total [of "dump_nodes env"] room by (simp add: us_def)
  from place_nodes_headers [OF p _ order_refl this [unfolded us_def]]
  have *: "headers_ok (unat pa + sizeof_dump_table * 2) (unat pa + node_end (sizeof_dump_table * 2) us) (data_at s')"
    and data: "\<forall>k < length us. let a = pa + of_nat (node_end (sizeof_dump_table * 2) (take k us)); (nm, z, i) = us ! k
       in data_at s' a = Some (node_data a nm z)"
    by (simp_all add: d1 s2 us_def headers_ok_def)
  from * have "headers_ok (unat pa + sizeof_dump_table * 2) (unat pa + dump_total_size (dump_nodes env)) (data_at s')"
    using node_end_total [of "dump_nodes env"] unfolding headers_ok_def us_def by (meson add_left_mono order_trans)
  with data show ?thesis by blast
qed

subsection \<open>Sysfs files\<close>

lemma create_files_from_spec:
  "create_files_from create created as (fs @ created) =
   (case find (\<lambda>a. create a \<noteq> 0) as of
      None \<Rightarrow> (0, fs @ created @ as)
    | Some a \<Rightarrow> (create a, filter (\<lambda>f. f \<notin> set (created @ takeWhile (\<lambda>a. create a = 0) as))
         (fs @ created @ takeWhile (\<lambda>a. create a = 0) as)))"
proof (induction as arbitrary: created)
  case (Cons a as)
  then show ?case using Cons.IH [of "created @ [a]"]
    by (cases "find (\<lambda>a. create a \<noteq> 0) as") auto
qed simp

text \<open>Either all files are created, or the first failure is returned and none of them is left.\<close>

lemma memory_dump_create_files_spec:
  assumes "set as \<inter> set fs = {}"
  shows "memory_dump_create_files create as fs =
    (case find (\<lambda>a. create a \<noteq> 0) as of None \<Rightarrow> (0, fs @ as) | Some a \<Rightarrow> (create a, fs))"
proof -
  have sub: "set (takeWhile (\<lambda>a. create a = 0) as) \<subseteq> set as" by (auto dest: set_takeWhileD)
  have "filter (\<lambda>f. f \<notin> set (takeWhile (\<lambda>a. create a = 0) as)) (fs @ takeWhile (\<lambda>a. create a = 0) as) = fs"
    using sub assms by (simp add: filter_id_conv) (auto simp: filter_empty_conv)
  then show ?thesis
    using create_files_from_spec [of create "[]" as fs]
    by (simp add: memory_dump_create_files_def split: option.splits)
qed

subsection \<open>The result of the allocation\<close>

text \<open>
  The loop's result is that of its last round: a last node whose size cannot be read makes the
  allocation fail although everything was set up.
\<close>

lemma place_nodes_last:
  assumes "place_nodes env phys off nds st = Some st'" and "node_size nd = Inl e"
  shows "place_nodes env phys off (nds @ [nd]) st = Some (e, snd st')"
  using assms(1)
proof (induction nds arbitrary: off st)
  case Nil
  with assms(2) show ?case by simp
next
  case (Cons a nds)
  then show ?case by (auto elim!: bind_SomeE split: sum.splits)
qed

lemma usable_snoc: "node_size nd = Inl e \<Longrightarrow> usable (nds @ [nd]) = usable nds"
  by (induction nds) (auto split: sum.splits)

end
