(* ===== verification/Xbl_Log.thy ===== *)
theory Xbl_Log
  imports Cpuss_Dump
begin

text \<open>
  The boot log driver of \<^verbatim>\<open>xbl_log/dump_boot_log.c\<close>: the boot loader's log and the two time
  stamps of the secure world are collected in one buffer, which debugfs shows.

  The buffer is an array of characters, \<open>None\<close> while its pointer is NULL.  What the kernel finds
  for a node of the device tree (\<open>res_node\<close>) and the outcomes of the allocations are arguments.
  Memory that a reallocation adds is not cleared; \<open>junk\<close> is what it holds.
\<close>

subsection \<open>Definitions\<close>

definition TZ_STR_LEN :: nat where "TZ_STR_LEN = 12"
definition TZ_SIZE :: nat where "TZ_SIZE = (8 * 4 - 1) div 3 + 1"

datatype mem_type = RES_MEM | IO_MEM

record xbl_log_data =
  xbl_buf :: "char arr option"
  buf_size :: nat
  dbg_blob :: "string option"

record res_node =
  to_resource :: int
  resource_size :: nat
  remap_ok :: bool
  res_data :: "char arr"
  res_word :: u32

record xbl_env =
  alloc_data :: bool
  reserved_memory :: bool
  find_node :: "string \<Rightarrow> res_node option"
  alloc_buf :: "nat \<Rightarrow> bool"
  junk :: "char arr"
  create_blob :: int

definition tz_start_label :: string where "tz_start_label = ''TZ Start [''"
definition tz_end_label :: string where "tz_end_label = ''TZ End   [''"

definition tz_line :: "string \<Rightarrow> u32 \<Rightarrow> string" where
  "tz_line name v =
     (if take 14 name = ''tz-start-count'' then tz_start_label else tz_end_label) @
     dec_str (unat v) @ [CHR '']'', LF]"

text \<open>
  The allocation's result is not checked: writing through a NULL pointer is a fault.
  \<^verbatim>\<open>scnprintf\<close> stores at most \<open>sz - 1\<close> characters and the terminator.
\<close>

definition append_buf_data ::
  "xbl_env \<Rightarrow> string \<Rightarrow> res_node \<Rightarrow> nat \<Rightarrow> mem_type \<Rightarrow> xbl_log_data \<Rightarrow> xbl_log_data option" where
  "append_buf_data env name nd sz mem xd = do {
     let pos = (buf_size xd - sz) mod 2 ^ 32;
     b \<leftarrow> (if alloc_buf env (buf_size xd)
            then Some (case xbl_buf xd of
               None \<Rightarrow> (\<lambda>_. NUL)
             | Some b \<Rightarrow> (\<lambda>i. if i < buf_size xd - sz then b i else junk env i))
            else None);
     let text = (case mem of
        RES_MEM \<Rightarrow> arr_list (res_data nd) sz
      | IO_MEM \<Rightarrow> scnprintf_str sz (tz_line name (res_word nd)) @ [NUL]);
     Some (xd\<lparr>xbl_buf := Some (arr_write b pos text)\<rparr>) }"

text \<open>
  A mapping that fails: \<^verbatim>\<open>devm_ioremap\<close> returns NULL, which is tested.  \<^verbatim>\<open>devm_memremap\<close> returns an
  error pointer, which the test for NULL lets through, and reading the log through it is a fault.
\<close>

definition map_addr_range ::
  "xbl_env \<Rightarrow> string \<Rightarrow> mem_type \<Rightarrow> xbl_log_data \<Rightarrow> (int \<times> xbl_log_data) option" where
  "map_addr_range env name mem xd =
     (case find_node env name of
        None \<Rightarrow> Some (- ENODEV, xd)
      | Some nd \<Rightarrow>
          if to_resource nd \<noteq> 0 then Some (to_resource nd, xd)
          else if resource_size nd = 0 then Some (- ENODEV, xd)
          else if \<not> remap_ok nd
          then (case mem of RES_MEM \<Rightarrow> None | IO_MEM \<Rightarrow> Some (- ENOMEM, xd))
          else do {
            let sz = (case mem of RES_MEM \<Rightarrow> resource_size nd - 1 | IO_MEM \<Rightarrow> TZ_SIZE + TZ_STR_LEN);
            xd \<leftarrow> append_buf_data env name nd sz mem (xd\<lparr>buf_size := buf_size xd + sz\<rparr>);
            Some (0, xd) })"

definition uefi_log :: string where "uefi_log = ''uefi-log''"
definition tz_start_count :: string where "tz_start_count = ''tz-start-count''"
definition tz_end_count :: string where "tz_end_count = ''tz-end-count''"

definition publish_blob :: "xbl_env \<Rightarrow> xbl_log_data \<Rightarrow> (int \<times> xbl_log_data) option" where
  "publish_blob env xd = do {
     b \<leftarrow> xbl_buf xd;
     if create_blob env < 0 then Some (create_blob env, xd)
     else Some (0, xd\<lparr>dbg_blob := Some (arr_list b (buf_size xd))\<rparr>) }"

definition xbl_log_probe :: "xbl_env \<Rightarrow> (int \<times> xbl_log_data option) option" where
  "xbl_log_probe env =
     (if \<not> alloc_data env then Some (- ENOMEM, None)
      else let xd = \<lparr>xbl_buf = None, buf_size = 0, dbg_blob = None\<rparr>
      in if \<not> reserved_memory env then Some (- ENODEV, Some xd)
         else do {
           (ret, xd) \<leftarrow> map_addr_range env uefi_log RES_MEM xd;
           if ret \<noteq> 0 then Some (ret, Some xd)
           else do {
             (ret, xd) \<leftarrow> map_addr_range env tz_start_count IO_MEM xd;
             if ret \<noteq> 0 then Some (ret, Some xd)
             else do {
               (ret, xd) \<leftarrow> map_addr_range env tz_end_count IO_MEM xd;
               if ret \<noteq> 0 then Some (ret, Some xd)
               else do {
                 (ret, xd) \<leftarrow> publish_blob env xd;
                 Some (ret, Some xd) }}}})"

definition xbl_log_remove :: "xbl_log_data \<Rightarrow> int \<times> xbl_log_data" where
  "xbl_log_remove xd = (0, xd\<lparr>dbg_blob := None\<rparr>)"

text \<open>The two registrations; the driver is unregistered when the device cannot be registered.\<close>

definition xbl_log_init :: "int \<Rightarrow> int \<Rightarrow> int \<times> bool \<times> bool" where
  "xbl_log_init reg_driver reg_device =
     (if reg_driver \<noteq> 0 then (reg_driver, False, False)
      else if reg_device \<noteq> 0 then (reg_device, False, False)
      else (0, True, True))"

subsection \<open>The line of a time stamp fits\<close>

lemma length_tz_line: "length (tz_line name v) < TZ_SIZE + TZ_STR_LEN"
proof -
  have "unat v < 2 ^ 32" using unsigned_less [of v] by simp
  then have "length (dec_str (unat v)) \<le> 10" by (intro length_dec_str) simp_all
  then show ?thesis
    by (simp add: tz_line_def TZ_SIZE_def TZ_STR_LEN_def tz_start_label_def tz_end_label_def)
qed

lemma tz_text: "scnprintf_str (TZ_SIZE + TZ_STR_LEN) (tz_line name v) = tz_line name v"
  using length_tz_line [of name v] by (simp add: scnprintf_str_def)

subsection \<open>What the buffer holds\<close>

text \<open>\<open>part_at b off p\<close>: the characters \<open>p\<close> lie at offset \<open>off\<close>.\<close>

definition part_at :: "char arr \<Rightarrow> nat \<Rightarrow> string \<Rightarrow> bool" where
  "part_at b off p \<longleftrightarrow> arr_seg b off (length p) = p"

definition node_ready :: "xbl_env \<Rightarrow> string \<Rightarrow> res_node \<Rightarrow> bool" where
  "node_ready env name nd \<longleftrightarrow> find_node env name = Some nd \<and> to_resource nd = 0 \<and>
     0 < resource_size nd \<and> remap_ok nd"

lemma part_at_write: "part_at (arr_write b off p) off p"
  by (simp add: part_at_def list_eq_iff_nth_eq arr_write_def)

lemma part_at_write_before: "part_at b o1 p \<Longrightarrow> o1 + length p \<le> off \<Longrightarrow> part_at (arr_write b off q) o1 p"
  unfolding part_at_def by (subst arr_seg_write_out) auto

lemma part_at_extend:
  "part_at b o1 p \<Longrightarrow> o1 + length p \<le> n \<Longrightarrow> part_at (\<lambda>i. if i < n then b i else c i) o1 p"
  unfolding part_at_def by (subst arr_seg_cong [where g = b]) auto

lemma map_res_mem:
  assumes nd: "node_ready env name nd" and al: "alloc_buf env (resource_size nd - 1)"
    and xd: "xbl_buf xd = None" "buf_size xd = 0"
  shows "\<exists>b. map_addr_range env name RES_MEM xd =
      Some (0, xd\<lparr>buf_size := resource_size nd - 1, xbl_buf := Some b\<rparr>) \<and>
    part_at b 0 (arr_list (res_data nd) (resource_size nd - 1))"
  using assms part_at_write [of "\<lambda>_. NUL" 0 "arr_list (res_data nd) (resource_size nd - 1)"]
  by (intro exI [of _ "arr_write (\<lambda>_. NUL) 0 (arr_list (res_data nd) (resource_size nd - 1))"])
    (simp add: map_addr_range_def node_ready_def append_buf_data_def Let_def)

lemma map_io_mem:
  assumes nd: "node_ready env name nd" and al: "alloc_buf env (buf_size xd + 23)"
    and b: "xbl_buf xd = Some b" and small: "buf_size xd < 2 ^ 32"
    and parts: "\<forall>(off, p) \<in> set ps. part_at b off p \<and> off + length p \<le> buf_size xd"
  shows "\<exists>b'. map_addr_range env name IO_MEM xd =
      Some (0, xd\<lparr>buf_size := buf_size xd + 23, xbl_buf := Some b'\<rparr>) \<and>
    (\<forall>(off, p) \<in> set (ps @ [(buf_size xd, tz_line name (res_word nd) @ [NUL])]). part_at b' off p)"
proof -
  let ?b0 = "\<lambda>i. if i < buf_size xd then b i else junk env i"
  let ?p = "tz_line name (res_word nd) @ [NUL]"
  have sz: "TZ_SIZE + TZ_STR_LEN = 23" by (simp add: TZ_SIZE_def TZ_STR_LEN_def)
  have "map_addr_range env name IO_MEM xd =
      Some (0, xd\<lparr>buf_size := buf_size xd + 23, xbl_buf := Some (arr_write ?b0 (buf_size xd) ?p)\<rparr>)"
    using nd al b small tz_text [of name "res_word nd"]
    by (simp add: map_addr_range_def node_ready_def append_buf_data_def Let_def sz)
  moreover have "part_at (arr_write ?b0 (buf_size xd) ?p) off p" if "(off, p) \<in> set ps" for off p
    using parts that by (intro part_at_write_before part_at_extend) auto
  ultimately show ?thesis using part_at_write [of ?b0 "buf_size xd" ?p] by auto
qed

lemma part_at_list: "part_at b off p \<Longrightarrow> off + length p \<le> n \<Longrightarrow> take (length p) (drop off (arr_list b n)) = p"
  by (auto simp: part_at_def list_eq_iff_nth_eq)

text \<open>
  A probe that finds the three nodes publishes the log, followed by the two time stamps in
  fields of 23 characters.
\<close>

lemma xbl_log_probe_ok:
  assumes env: "alloc_data env" "reserved_memory env" "\<forall>n. alloc_buf env n" "0 \<le> create_blob env"
    and nd: "node_ready env uefi_log n0" "node_ready env tz_start_count n1" "node_ready env tz_end_count n2"
    and small: "resource_size n0 < 2 ^ 31"
  defines "z \<equiv> resource_size n0 - 1" and "l1 \<equiv> tz_line tz_start_count (res_word n1) @ [NUL]"
    and "l2 \<equiv> tz_line tz_end_count (res_word n2) @ [NUL]"
  shows "\<exists>xd s. xbl_log_probe env = Some (0, Some xd) \<and> dbg_blob xd = Some s \<and> length s = z + 46 \<and>
    take z s = arr_list (res_data n0) z \<and> take (length l1) (drop z s) = l1 \<and>
    take (length l2) (drop (z + 23) s) = l2"
proof -
  let ?x0 = "\<lparr>xbl_buf = None, buf_size = 0, dbg_blob = None\<rparr>"
  let ?log = "arr_list (res_data n0) z"
  have z: "z < 2 ^ 31" using small by (simp add: z_def)
  have len: "length l1 \<le> 23" "length l2 \<le> 23"
    using length_tz_line [of tz_start_count "res_word n1"] length_tz_line [of tz_end_count "res_word n2"]
    by (simp_all add: l1_def l2_def TZ_SIZE_def TZ_STR_LEN_def)
  obtain b0 where m0: "map_addr_range env uefi_log RES_MEM ?x0 = Some (0, ?x0\<lparr>buf_size := z, xbl_buf := Some b0\<rparr>)"
    "part_at b0 0 ?log"
    using map_res_mem [OF nd(1), of ?x0] env(3) by (auto simp: z_def)
  obtain b1 where m1: "map_addr_range env tz_start_count IO_MEM (?x0\<lparr>buf_size := z, xbl_buf := Some b0\<rparr>) =
      Some (0, ?x0\<lparr>buf_size := z + 23, xbl_buf := Some b1\<rparr>)" "part_at b1 0 ?log" "part_at b1 z l1"
    using map_io_mem [OF nd(2), of "?x0\<lparr>buf_size := z, xbl_buf := Some b0\<rparr>" b0 "[(0, ?log)]"] env(3) m0(2) z
    by (auto simp: l1_def)
  obtain b2 where m2: "map_addr_range env tz_end_count IO_MEM (?x0\<lparr>buf_size := z + 23, xbl_buf := Some b1\<rparr>) =
      Some (0, ?x0\<lparr>buf_size := z + 46, xbl_buf := Some b2\<rparr>)" "part_at b2 0 ?log" "part_at b2 z l1"
      "part_at b2 (z + 23) l2"
    using map_io_mem [OF nd(3), of "?x0\<lparr>buf_size := z + 23, xbl_buf := Some b1\<rparr>" b1 "[(0, ?log), (z, l1)]"]
      env(3) m1(2,3) z len by (auto simp: l2_def add.assoc)
  have "xbl_log_probe env = Some (0, Some (?x0\<lparr>buf_size := z + 46, xbl_buf := Some b2,
      dbg_blob := Some (arr_list b2 (z + 46))\<rparr>))"
    using env m0(1) m1(1) m2(1) by (simp add: xbl_log_probe_def publish_blob_def)
  then show ?thesis
    using part_at_list [OF m2(2), of "z + 46"] part_at_list [OF m2(3), of "z + 46"]
      part_at_list [OF m2(4), of "z + 46"] len by auto
qed

end
