(* ===== verification/Kaslr_Store.thy ===== *)
theory Kaslr_Store
  imports Md_Prelude
begin

unbundle bit_operations_syntax

text \<open>
  The driver of \<^verbatim>\<open>kaslr_store/kaslr_store.c\<close>: at probe it writes a magic word and the two halves
  of the kernel's KASLR offset into a region of I/O memory, where the debugging tools look for
  them.  The I/O memory is an array of 32-bit words, by byte offset.
\<close>

definition KASLR_OFFSET_BIT_MASK :: u64 where "KASLR_OFFSET_BIT_MASK = 0x00000000FFFFFFFF"
definition KASLR_MAGIC :: u32 where "KASLR_MAGIC = 0xdead4ead"

definition writel :: "u32 \<Rightarrow> nat \<Rightarrow> u32 arr \<Rightarrow> u32 arr" where
  "writel v off io = io(off := v)"

text \<open>\<open>ioremap\<close> is the mapped memory, or the error of the mapping.\<close>

definition kaslr_off_store_probe :: "int + u32 arr \<Rightarrow> u64 \<Rightarrow> int \<times> u32 arr option" where
  "kaslr_off_store_probe ioremap kaslr_off =
     (case ioremap of
        Inl e \<Rightarrow> (e, None)
      | Inr io \<Rightarrow>
          let io = writel KASLR_MAGIC 0 io;
              io = writel (ucast (kaslr_off AND KASLR_OFFSET_BIT_MASK)) 4 io;
              io = writel (ucast (drop_bit 32 kaslr_off AND KASLR_OFFSET_BIT_MASK)) 8 io
          in (0, Some io))"

text \<open>What a tool reads back: the offset, if the magic word is there.\<close>

definition kaslr_read :: "u32 arr \<Rightarrow> u64 option" where
  "kaslr_read io = (if io 0 = KASLR_MAGIC then Some (push_bit 32 (ucast (io 8)) OR ucast (io 4)) else None)"

lemma mask_take_bit: "w AND KASLR_OFFSET_BIT_MASK = take_bit 32 w"
  by (simp add: KASLR_OFFSET_BIT_MASK_def take_bit_eq_mask mask_eq_exp_minus_1)

lemma ucast_low_half: "ucast (ucast (take_bit 32 (w :: u64)) :: u32) = take_bit 32 w"
  by (rule bit_word_eqI) (auto simp: bit_simps)

lemma halves: "push_bit 32 (take_bit 32 (drop_bit 32 (w :: u64))) OR take_bit 32 w = w"
  by (rule bit_word_eqI) (auto simp: bit_simps)

end
