(* ===== verification/Spec2Isabelle.thy ===== *)
theory Spec2Isabelle
  imports Md_Samples Rm_Effect Stack_Follow Panic_Samples Dump_Table Xbl_Log Kaslr_Store
begin

text \<open>
  A verification library for the debug modules of SafeLinux: the minidump driver
  (\<^verbatim>\<open>src/minidump\<close>), the memory dump driver (\<^verbatim>\<open>src/memory_dump_v2\<close>), the boot log driver
  (\<^verbatim>\<open>src/xbl_log\<close>) and the KASLR offset store (\<^verbatim>\<open>src/kaslr_store\<close>).

  \<^bold>\<open>The program.\<close>  Kernel modules register memory regions with the minidump driver.  The driver
  keeps them in a table in shared memory (SMEM), or hands them to a resource manager through a
  work queue, and describes them in an ELF header that is dumped with them.  Regions that are
  registered before the driver is probed wait in a pending list.  The kernel log is itself such a
  region.  The memory dump driver lays out a reserved block of memory for the nodes of the
  device tree, lists them in tables, registers the block as a minidump region and lets user space
  configure, through sysfs, which CPU registers the firmware dumps.

  Further regions come from the log module of the minidump driver: the stacks of the running tasks, which follow every
  task switch, the trace buffer, the areas of pstore and the data of chosen modules.  On a panic the module fills buffers
  that it registered before: run queues, CPU registers, memory statistics, and the owners of pages, slab objects and dma
  buffers.  The sizes and filters of the latter are set through debugfs, which takes their regions out of the table and
  registers new ones.

  \<^bold>\<open>The theories.\<close>
  \<^item> \<open>Md_Prelude\<close>: machine words, errno values, C strings and arrays, runs of operations, and the
    two interfaces of the library: \<open>simulation\<close> (an implementation against a specification) and
    \<open>step_invariant\<close>.
  \<^item> \<open>Md_Data\<close>: structures and macros of \<^verbatim>\<open>minidump.h\<close>, \<^verbatim>\<open>minidump_private.h\<close>.
  \<^item> \<open>Elf_Header\<close>: \<^verbatim>\<open>elf.h\<close> and the functions of \<^verbatim>\<open>msm_minidump.c\<close> on the header buffer.
    \<open>elf_rep bs L eh\<close> says that the header describes exactly the regions \<open>L\<close>.
  \<^item> \<open>Md_Table\<close>: the global variables and the SMEM table (\<^verbatim>\<open>md_add_ss_toc\<close> and so on);
    \<open>table_rep\<close> and \<open>smem_rep\<close> say what the table holds.
  \<^item> \<open>Md_Rm\<close>: the resource manager's table, the requests, and the work functions cut at the calls
    of the resource manager, where the driver's lock is released.
  \<^item> \<open>Md_Api\<close>: the exported functions; the registry that specifies them, and the interpretation
    of \<open>simulation\<close> that shows that they implement it.
  \<^item> \<open>Md_Log\<close>: the kernel log of \<^verbatim>\<open>minidump_log.c\<close>.
  \<^item> \<open>Md_Probe\<close>: \<^verbatim>\<open>msm_minidump_add_header\<close> and the driver's probe.
  \<^item> \<open>Rm_Machine\<close>: a step relation that interleaves calls of the interface, and the requests that updates queue without
    the spin lock, with the sections of the work functions; its invariant, and the worker that drains the queue.
  \<^item> \<open>Rm_Effect\<close>: what a whole work function does to table, slot numbers and header, and the lookup in the table.
  \<^item> \<open>C_Text\<close>: the kernel's formatted output, into strings, at a place of a buffer (a write beyond its end is a fault) and
    into a \<^verbatim>\<open>seq_buf\<close>, with the lengths of numbers.
  \<^item> \<open>Md_Stack\<close>, \<open>Stack_Follow\<close>: the stacks (\<^verbatim>\<open>register_current_stack\<close>, \<^verbatim>\<open>md_current_stack_notifer\<close>,
    \<^verbatim>\<open>dump_stack_minidump\<close> and the suspend context); the regions of every CPU simulate the map from CPUs to the stacks
    of their tasks.
  \<^item> \<open>Md_Trace\<close>: the cyclic trace buffer and the hooks of the tracer, which simulate a list of events, the last lap.
  \<^item> \<open>Md_Sched\<close>: the run queues (\<^verbatim>\<open>md_dump_runqueues\<close> and what it calls), and their text by recursion on the tree of queues.
  \<^item> \<open>Md_Context\<close>: registers and the memory that they point to (\<^verbatim>\<open>md_reg_context_data\<close>), and their text.
  \<^item> \<open>Md_Stats\<close>: \<^verbatim>\<open>md_dump_meminfo\<close> and \<^verbatim>\<open>md_dump_slabinfo\<close>, and their texts.
  \<^item> \<open>Mem_Region\<close>, \<open>Mem_Resize\<close>: the four dumps in contiguous memory (\<^verbatim>\<open>md_register_memory_dump\<close>,
    \<^verbatim>\<open>update_dump_size\<close>).  \<open>dumps_rep\<close> says that each of them is off, or has a region, a block of at least its size, and
    an address; registration and the change of a size keep it.
  \<^item> \<open>Page_Owner\<close>, \<open>Page_Text\<close>: \<^verbatim>\<open>md_dump_pageowner\<close> with its table of handles at the end of the region, its settings,
    that it stays in its region, and the text it writes.
  \<^item> \<open>Slab_Owner\<close>: \<^verbatim>\<open>md_dump_slabowner\<close> and its settings, when the loop over the filter ends, and the overrun of its region
    that the dump of enough objects ends in.
  \<^item> \<open>Slab_Bound\<close>: as long as the text of the slab owner dump is shorter than its region, the dump stays in it.
  \<^item> \<open>Dma_Buf\<close>: \<^verbatim>\<open>md_dma_buf_info\<close> and \<^verbatim>\<open>md_dma_buf_procs\<close>, which stay in their regions; the locks that their error
    paths keep.
  \<^item> \<open>Debug_Files\<close>: the files in debugfs and the handlers behind them.
  \<^item> \<open>Md_Panic\<close>: the buffers, their registration, and \<^verbatim>\<open>md_dump_process\<close>, which fills them once.
  \<^item> \<open>Md_Module\<close>: modules (\<^verbatim>\<open>register_vmap_mem\<close>, \<^verbatim>\<open>md_module_process\<close>), \<^verbatim>\<open>register_pstore_info\<close>, and
    \<^verbatim>\<open>msm_minidump_log_init\<close> with all features.
  \<^item> \<open>Panic_Buffers\<close>: the operations on the panic module as one step function, with an interpretation of
    \<open>step_invariant\<close>: every buffer keeps its size and shape.
  \<^item> \<open>Panic_Settings\<close>: from the registration through writes to the debugfs files to the panic.
  \<^item> \<open>Md_Samples\<close>, \<open>Panic_Samples\<close>: a concrete platform, on which the witnesses are evaluated.
  \<^item> \<open>Cpuss_Dump\<close>, \<open>Cpuss_Table\<close>: the sysfs handlers of \<^verbatim>\<open>memory_dump_v2.c\<close> for CPU registers and
    special purpose registers, and the lists of commands that they implement.
  \<^item> \<open>Dump_Table\<close>: the dump tables and \<^verbatim>\<open>mem_dump_alloc\<close>.
  \<^item> \<open>Xbl_Log\<close>, \<open>Kaslr_Store\<close>: the two small drivers.

  \<^bold>\<open>Conventions.\<close>  State is passed explicitly as records.  A function that writes memory returns
  an option, \<open>None\<close> being a memory fault (a NULL pointer, an error pointer or an access outside the object); error
  codes are ordinary negative results.  What the kernel provides (allocations, SMEM, the device
  tree, the resource manager, the log reader, \<^verbatim>\<open>sscanf\<close>) is an argument or a field of an environment
  record.  Counters that the code keeps below a small bound are natural numbers; where they are
  decremented, truncated or multiplied the width is written out.

  \<^bold>\<open>Loops.\<close>  Loops are recursion on the data or on a decreasing measure.  One loop has fuel: the write to the slab owner
  filter doubles a 32-bit \<^verbatim>\<open>int\<close>, which is a large unsigned number at bit 31 and 0 after that.  The 33 rounds of
  \<open>SLAB_FILTER_FUEL\<close> decide it: the loop has ended by then, or it never ends, which is the result \<open>None\<close> (C24).

  \<^bold>\<open>Not modelled.\<close>  Locks are not state: the sections between them are the atomic steps.  With a resource manager an update,
  which takes the read lock only, may be interrupted between its search and its request (\<open>Rm_Machine\<close>); on the SMEM table it is one
  step, although a registration (not a removal) could overlap with it.  Only the reservation and RCU
  locks of the dma-buf dumps are counted, since their error paths keep them.  The panic dump runs when the other CPUs have
  stopped, and is one step.  The loop of \<^verbatim>\<open>dump_bufinfo\<close> on a sequence counter is taken with the consistent view that it
  ends with.  The assembler statement that stores the registers is an argument, as are the structures of the scheduler, the
  page allocator and the slab allocator, which belong to the kernel.  The columns of the WALT scheduler are modelled up to
  the read of a pointer that is never set, which is a fault.  Releasing device-managed memory, reference counts of device tree
  nodes, log messages, and the module and driver tables are left out.
\<close>

section \<open>The minidump driver on the SMEM table\<close>

definition demo_registry :: registry where
  "demo_registry = \<lparr>reg_list = [demo_kmsg], reg_stable = INT_MAX\<rparr>"

definition demo_ops :: "md_op list" where
  "demo_ops = [Op_Add (demo_region ''LOG'' 0x5000), Op_Update 1 (demo_region ''LOG'' 0x6000),
     Op_Add (demo_region ''LOG'' 0x7000), Op_Remove (demo_region ''LOG'' 0x6000)]"

definition demo_pending :: md_globals where
  "demo_pending = init_globals\<lparr>pending_list := [demo_region ''LOG'' 0x5000], num_regions := 1\<rparr>"

lemma demo_registry_rep: "\<exists>s. reg_rep demo_base demo_registry s"
  using demo_driver [of "[]"] by (auto simp: reg_rep_def demo_registry_def MAX_ELF_REGIONS_def md_consts)

lemma demo_log_wf: "wf_region (demo_region ''LOG'' 0x5000)" "wf_region (demo_region ''LOG'' 0x6000)"
    "wf_region (demo_region ''LOG'' 0x7000)"
  by (rule demo_region_wf; simp add: cstring_def NUL_def)+

lemma demo_pending_ok: "unprobed [demo_region ''LOG'' 0x5000] demo_pending"
    "first_removed_entry demo_pending = INT_MAX"
  using demo_log_wf by (simp_all add: unprobed_def demo_pending_def init_globals_def md_consts)

lemma demo_started_view:
  assumes "elf_rep demo_base [] eh"
  shows "rm_view demo_base [] [demo_kmsg] [0] [] (demo_started eh)"
  unfolding rm_view_def
  by (rule exI [of _ "the (minidump_rm_table (demo_started eh))"])
    (use assms demo_kmsg_wf in \<open>simp add: demo_started_def demo_queue_def rm_rep_def rm_names_def rm_slots_def
      MAX_ELF_REGIONS_def md_consts arr_seg_def\<close>)

lemma demo_registered: "\<exists>s. rm_view demo_base [demo_kmsg] [] [5] [] s"
proof -
  obtain eh where "elf_rep demo_base [] eh" using demo_empty_header by blast
  from add_work_effect [OF demo_started_view [OF this], of 5 "\<lambda>_ _ _ _. 5"] show ?thesis by auto
qed

lemma demo_probe_log: "probe_log demo_env = demo_log"
  by (simp add: demo_env_def)

lemma demo_ops_spec: "run_ops registry_step demo_ops demo_registry = Some ([1, 0, - EEXIST, 0], demo_registry\<lparr>reg_stable := 1\<rparr>)"
proof -
  have a: "registry_add (demo_region ''LOG'' 0x5000) demo_registry =
      Some (1, demo_registry\<lparr>reg_list := [demo_kmsg, demo_region ''LOG'' 0x5000]\<rparr>)"
    using demo_log_wf
    by (simp add: registry_add_def demo_registry_def wf_region_def name_index_def demo_kmsg_wf
        MAX_ELF_REGIONS_def md_consts)
  have b: "registry_update 1 (demo_region ''LOG'' 0x6000)
      (demo_registry\<lparr>reg_list := [demo_kmsg, demo_region ''LOG'' 0x5000]\<rparr>) =
      Some (0, demo_registry\<lparr>reg_list := [demo_kmsg, demo_region ''LOG'' 0x6000]\<rparr>)"
    using demo_log_wf
    by (simp add: registry_update_def demo_registry_def INT_MAX_def move_region_def demo_region_def)
  have c: "registry_add (demo_region ''LOG'' 0x7000)
      (demo_registry\<lparr>reg_list := [demo_kmsg, demo_region ''LOG'' 0x6000]\<rparr>) =
      Some (- EEXIST, demo_registry\<lparr>reg_list := [demo_kmsg, demo_region ''LOG'' 0x6000]\<rparr>)"
    using demo_log_wf
    by (simp add: registry_add_def demo_registry_def wf_region_def name_index_def demo_kmsg_wf md_consts)
  have d: "registry_remove (demo_region ''LOG'' 0x6000)
      (demo_registry\<lparr>reg_list := [demo_kmsg, demo_region ''LOG'' 0x6000]\<rparr>) =
      Some (0, demo_registry\<lparr>reg_stable := 1\<rparr>)"
    using demo_log_wf
    by (simp add: registry_remove_def demo_registry_def name_index_def demo_kmsg_wf removable_def
        remove_nth_def INT_MAX_def init_log_def demo_kmsg_def)
  show ?thesis using a b c d by (simp add: demo_ops_def)
qed

text \<open>
  C1.  The driver implements the registry.  Starting from a state that represents a registry, every
  sequence of registrations, removals and updates that the registry specifies returns the
  registry's results, without a memory fault, and ends in a state that represents the
  registry's final contents: the table in shared memory and the ELF header both describe
  exactly the registered regions, in order.
\<close>

theorem driver_refines_registry:
  assumes "reg_rep bs g s" and "run_ops registry_step ops g = Some (rs, g')"
  shows "\<exists>s'. run_ops md_step ops s = Some (rs, s') \<and> reg_rep bs g' s'"
  using assms by (rule drv.run_sim)

theorem driver_refines_registry_witness:
  "\<exists>s s'. reg_rep demo_base demo_registry s \<and> run_ops md_step demo_ops s = Some ([1, 0, - EEXIST, 0], s') \<and>
     reg_rep demo_base (demo_registry\<lparr>reg_stable := 1\<rparr>) s'"
proof -
  obtain s where s: "reg_rep demo_base demo_registry s" using demo_registry_rep by blast
  from driver_refines_registry [OF s demo_ops_spec] s show ?thesis by blast
qed

text \<open>
  C8.  A probe on the SMEM table.  When the kernel provides what the probe asks for, it succeeds,
  and the driver then holds exactly the regions that were registered before it was probed,
  followed by the kernel log, in table and order; the pending list is empty.  The ELF header
  describes the kernel log only: the pending regions get no header.
\<close>

theorem probe_smem_establishes:
  assumes "smem_ready env" and "log_ready (probe_log env) p" and "unprobed P s"
    and "length P < CONFIG_MINIDUMP_MAX_ENTRIES" and "''KMSG'' \<notin> set (map mdr_name P)"
    and "wf_region (kmsg_region (probe_log env) lg p)"
  shows "\<exists>lg' s'. msm_minidump_driver_probe env (lg, s) = Some (0, lg', s') \<and>
    drv_rep (probe_base env) (length P) (P @ [kmsg_region (probe_log env) lg p]) s' \<and>
    first_removed_entry s' = first_removed_entry s \<and> pending_list s' = []"
  using assms by (rule probe_smem_ok)

theorem probe_smem_establishes_witness:
  "\<exists>lg' s'. msm_minidump_driver_probe demo_env (init_log, demo_pending) = Some (0, lg', s') \<and>
    drv_rep demo_base 1 [demo_region ''LOG'' 0x5000, demo_kmsg] s' \<and>
    first_removed_entry s' = INT_MAX \<and> pending_list s' = []"
  using probe_smem_establishes [OF demo_ready(1,2) demo_pending_ok(1), of init_log] demo_kmsg_wf(1) demo_pending_ok(2)
  by (simp add: demo_kmsg_def demo_base_def demo_probe_log md_consts)

text \<open>
  C19.  A registration that is refused changes nothing, in every mode of the driver; one that
  succeeds returns the number of regions before it, adds one to that number and happens only
  below the driver's limit.
\<close>

theorem add_region_all_or_nothing:
  assumes "msm_minidump_add_region alloc entry s = Some (r, s')"
  shows "r < 0 \<and> s' = s \<or>
    r = int (num_regions s) \<and> num_regions s' = num_regions s + 1 \<and> num_regions s < MAX_NUM_ENTRIES"
  using assms by (rule add_region_cases)

theorem add_region_all_or_nothing_witness:
  "\<exists>s'. msm_minidump_add_region True (Some demo_kmsg) init_globals = Some (0, s') \<and> num_regions s' = 1"
proof -
  have "msm_minidump_add_region True (Some demo_kmsg) init_globals =
      Some (region_added (init_globals\<lparr>pending_list := [demo_kmsg]\<rparr>))"
    using demo_kmsg_wf(1) validate_region_ok [of demo_kmsg]
    by (simp add: msm_minidump_add_region_def init_globals_def toc_enabled_def wf_region_def md_consts)
  from add_region_all_or_nothing [OF this [unfolded region_added_def]] this show ?thesis
    by (simp add: region_added_def init_globals_def)
qed

text \<open>
  C20.  The number of regions never exceeds the size of the driver's tables, whatever sequence of
  calls is made, in every mode of the driver.
\<close>

theorem regions_bounded:
  assumes "num_regions s \<le> MAX_NUM_ENTRIES" and "run_ops md_step ops s = Some (rs, s')"
  shows "num_regions s' \<le> MAX_NUM_ENTRIES"
  using assms by (rule cap.run_inv)

theorem regions_bounded_witness:
  "\<exists>s s'. run_ops md_step demo_ops s = Some ([1, 0, - EEXIST, 0], s') \<and> num_regions s' \<le> MAX_NUM_ENTRIES"
proof -
  obtain s where s: "reg_rep demo_base demo_registry s" using demo_registry_rep by blast
  then have n: "num_regions s \<le> MAX_NUM_ENTRIES"
    by (simp add: reg_rep_def drv_rep_def smem_rep_def demo_registry_def md_consts)
  obtain s' where "run_ops md_step demo_ops s = Some ([1, 0, - EEXIST, 0], s')"
    using drv.run_sim [OF s demo_ops_spec] by blast
  with regions_bounded [OF n this] show ?thesis by blast
qed

text \<open>
  C21.  Lookup.  On the SMEM table \<^verbatim>\<open>md_get_region\<close> returns a registered region exactly as it was
  registered.  With a resource manager it returns a region that has a header with its name and size, but with virtual and physical
  address exchanged.  In both modes it returns the zero region for a name that the table does not hold.
\<close>

theorem get_region_roundtrip:
  "(drv_rep bs p L s \<longrightarrow>
      (\<forall>k < length L. md_get_region (mdr_name (L ! k)) s = Some (L ! k)) \<and>
      (\<forall>nm. nm \<notin> set (map mdr_name L) \<longrightarrow> md_get_region nm s = Some zero_region)) \<and>
   (rm_rep bs L A t s \<longrightarrow>
      (\<forall>k < length L. md_get_region (mdr_name (L ! k)) s = Some (zero_region\<lparr>mdr_name := mdr_name (L ! k),
         phys_addr := virt_addr (L ! k), virt_addr := phys_addr (L ! k), mdr_size := mdr_size (L ! k)\<rparr>)) \<and>
      (\<forall>nm. nm \<notin> set (map mdr_name (L @ A)) \<longrightarrow> md_get_region nm s = Some zero_region))"
  using get_region_found [of bs p L s] get_region_missing [of bs p L s]
    rm_get_region_found [of bs L A t s] rm_get_region_missing [of bs L A t s]
  unfolding swapped_region_def by blast

theorem get_region_roundtrip_witness:
  "(\<exists>s. drv_rep demo_base 0 [demo_kmsg] s \<and> md_get_region ''KMSG'' s = Some demo_kmsg \<and>
      md_get_region ''NONE'' s = Some zero_region) \<and>
   (\<exists>t s r. rm_rep demo_base [demo_kmsg] [] t s \<and> md_get_region ''KMSG'' s = Some r \<and>
      virt_addr r = phys_addr demo_kmsg \<and> phys_addr r = virt_addr demo_kmsg \<and>
      md_get_region ''NONE'' s = Some zero_region)"
proof
  obtain s where s: "drv_rep demo_base 0 [demo_kmsg] s" using demo_driver [of "[]"] by (auto simp: MAX_ELF_REGIONS_def md_consts)
  from get_region_roundtrip [of demo_base 0 "[demo_kmsg]" s] s
  show "\<exists>s. drv_rep demo_base 0 [demo_kmsg] s \<and> md_get_region ''KMSG'' s = Some demo_kmsg \<and>
      md_get_region ''NONE'' s = Some zero_region" by (auto simp: demo_kmsg_wf)
  obtain s where "rm_view demo_base [demo_kmsg] [] [5] [] s" using demo_registered by blast
  then obtain t where t: "rm_rep demo_base [demo_kmsg] [] t s" by (auto simp: rm_view_def)
  from get_region_roundtrip [of demo_base 0 "[demo_kmsg]" s "[]" t] t
  show "\<exists>t s r. rm_rep demo_base [demo_kmsg] [] t s \<and> md_get_region ''KMSG'' s = Some r \<and>
      virt_addr r = phys_addr demo_kmsg \<and> phys_addr r = virt_addr demo_kmsg \<and>
      md_get_region ''NONE'' s = Some zero_region"
    by (intro exI [of _ t] exI [of _ s]) (auto simp: demo_kmsg_wf)
qed

text \<open>
  C3.  Removing headers with arbitrary details.  When the sizes of the described regions are
  positive and within the physical address space, a removal either takes the headers of the one
  region with the given name out of the ELF header (both tables, the string table, the offsets of
  all later regions and the counters), or it returns \<open>- EINVAL\<close> and changes nothing.
\<close>

theorem clear_headers_exact:
  assumes "elf_rep bs L eh" and "wf_region e" and "distinct (map mdr_name L)" and "\<forall>r \<in> set L. sized r"
  shows "msm_minidump_clear_headers e eh = Some (- EINVAL, eh) \<or>
    (\<exists>k eh'. k < length L \<and> mdr_name (L ! k) = mdr_name e \<and>
       msm_minidump_clear_headers e eh = Some (0, eh') \<and> elf_rep bs (remove_nth k L) eh')"
  using assms by (rule clear_headers_cases)

theorem clear_headers_exact_witness:
  "\<exists>eh eh'. elf_rep demo_base [demo_kmsg] eh \<and> msm_minidump_clear_headers demo_kmsg eh = Some (0, eh') \<and>
     elf_rep demo_base [] eh'"
proof -
  obtain s where "drv_rep demo_base 0 [demo_kmsg] s" using demo_driver [of "[]"] by (auto simp: MAX_ELF_REGIONS_def md_consts)
  then have eh: "elf_rep demo_base [demo_kmsg] (minidump_elfheader s)" by (simp add: drv_rep_def)
  have "\<exists>eh'. msm_minidump_clear_headers demo_kmsg (minidump_elfheader s) = Some (0, eh')"
    using clear_headers_rep [OF eh, of 0 demo_kmsg] demo_kmsg_wf(1) by auto
  then show ?thesis
    using clear_headers_exact [OF eh demo_kmsg_wf(1)] demo_kmsg_wf(2) eh
    by (auto simp: remove_nth_def errno_defs)
qed

text \<open>
  C35.  The last region.  With 197 regions registered the next valid registration, which the
  driver's own limit of 201 admits, writes its section header beyond the section header table.
\<close>

theorem section_table_overflow:
  assumes "drv_rep bs 0 L s" and "length L = MAX_ELF_REGIONS" and "wf_region e"
    and "mdr_name e \<notin> set (map mdr_name L)"
  shows "msm_minidump_add_region alloc (Some e) s = None"
  using assms by (rule add_region_198)

theorem section_table_overflow_witness:
  "\<exists>s. drv_rep demo_base 0 (demo_kmsg # demo_many 196) s \<and>
     msm_minidump_add_region True (Some (demo_region ''LOG'' 0x5000)) s = None"
proof -
  obtain s where s: "drv_rep demo_base 0 (demo_kmsg # demo_many 196) s"
    using demo_driver [OF demo_many_ok] by (auto simp: demo_many_def MAX_ELF_REGIONS_def md_consts)
  have "mdr_name (demo_region ''LOG'' 0x5000) \<notin> set (map mdr_name (demo_kmsg # demo_many 196))"
    by (auto simp: demo_kmsg_wf demo_many_def)
  from section_table_overflow [OF s _ demo_log_wf(1) this] s show ?thesis
    by (auto simp: demo_many_def MAX_ELF_REGIONS_def md_consts)
qed

text \<open>
  C36.  Removing a region that was pending when the driver was probed fails with \<open>- EINVAL\<close>,
  because it has no program header, but only after the region has been taken out of the driver's
  table and the table of contents has been marked invalid; the counters keep their values.
\<close>

theorem pending_region_removal:
  assumes "drv_rep bs p L s" and "k < length L" and "e = L ! k"
    and "\<forall>r \<in> set (drop p L). \<not> (phys_addr r = phys_addr e \<and> mdr_size r = mdr_size e)"
  shows "\<exists>s' t toc. msm_minidump_remove_region alloc (Some e) s = Some (- EINVAL, s') \<and>
     num_regions s' = length L \<and> minidump_table s' = Some t \<and>
     arr_list (tbl_entry t) (length L) = remove_nth k L @ [zero_region] \<and>
     tbl_ss_toc t = Some toc \<and> md_ss_toc_init toc = 0 \<and> ss_region_count toc = 1 + length L"
  using assms by (rule remove_pending_region)

theorem pending_region_removal_witness:
  "\<exists>s s' t toc. drv_rep demo_base 1 [demo_region ''LOG'' 0x5000, demo_kmsg] s \<and>
     msm_minidump_remove_region True (Some (demo_region ''LOG'' 0x5000)) s = Some (- EINVAL, s') \<and>
     num_regions s' = 2 \<and> minidump_table s' = Some t \<and>
     arr_list (tbl_entry t) 2 = [demo_kmsg, zero_region] \<and>
     tbl_ss_toc t = Some toc \<and> md_ss_toc_init toc = 0 \<and> ss_region_count toc = 3"
proof -
  obtain s where s: "drv_rep demo_base 1 [demo_region ''LOG'' 0x5000, demo_kmsg] s"
    using demo_probed [OF demo_pending_ok(1) _ _ demo_pending_ok(2)] by (auto simp: md_consts)
  have "\<forall>r \<in> set (drop 1 [demo_region ''LOG'' 0x5000, demo_kmsg]).
      \<not> (phys_addr r = phys_addr (demo_region ''LOG'' 0x5000) \<and> mdr_size r = mdr_size (demo_region ''LOG'' 0x5000))"
    by (simp add: demo_kmsg_def init_log_def)
  from pending_region_removal [OF s, of 0 "demo_region ''LOG'' 0x5000" True] this s show ?thesis
    by (fastforce simp: remove_nth_def numeral_2_eq_2 numeral_3_eq_3)
qed

text \<open>
  C37.  An update with the number of a region that an earlier removal has moved is refused with
  \<open>- EINVAL\<close> and leaves the table alone; the ELF header's addresses of that region are
  overwritten all the same.
\<close>

theorem refused_update_changes_header:
  assumes "drv_rep bs 0 L s" and "k < length L" and "wf_region e" and "first_removed_entry s \<le> int k"
  shows "\<exists>s'. msm_minidump_update_region alloc (int k) (Some e) s = Some (- EINVAL, s') \<and>
    minidump_table s' = minidump_table s \<and>
    elf_rep bs (L[k := move_region (L ! k) e]) (minidump_elfheader s')"
  using assms by (rule update_moved_region)

theorem refused_update_changes_header_witness:
  "\<exists>s s'. drv_rep demo_base 0 [demo_kmsg, demo_region ''B'' 0x7000] s \<and>
     msm_minidump_update_region True 1 (Some (demo_region ''B'' 0x8000)) s = Some (- EINVAL, s') \<and>
     minidump_table s' = minidump_table s \<and>
     elf_rep demo_base [demo_kmsg, demo_region ''B'' 0x8000] (minidump_elfheader s')"
proof -
  let ?A = "demo_region ''A'' 0x5000" and ?B = "demo_region ''B'' 0x7000" and ?B' = "demo_region ''B'' 0x8000"
  have wf: "wf_region ?A" "wf_region ?B" "wf_region ?B'"
    by (rule demo_region_wf; simp add: cstring_def NUL_def)+
  obtain s0 where s0: "drv_rep demo_base 0 [demo_kmsg, ?A, ?B] s0" "first_removed_entry s0 = INT_MAX"
    using demo_driver [of "[?A, ?B]"] wf by (auto simp: MAX_ELF_REGIONS_def md_consts demo_kmsg_wf)
  have "removable [demo_kmsg, ?A, ?B] 1 ?A"
    using wf(1) by (simp add: removable_def demo_kmsg_def init_log_def)
  from remove_region_ok [OF s0(1) _ _ this, of True] s0(2)
  obtain s where s: "drv_rep demo_base 0 [demo_kmsg, ?B] s" "first_removed_entry s = 1"
    by (auto simp: remove_nth_def INT_MAX_def)
  have mv: "[demo_kmsg, ?B][1 := move_region ([demo_kmsg, ?B] ! 1) ?B'] = [demo_kmsg, ?B']"
    by (simp add: move_region_def demo_region_def)
  from refused_update_changes_header [OF s(1) _ wf(3), of 1 True] s mv show ?thesis by auto
qed

section \<open>The work queue of the resource manager\<close>

text \<open>
  C2.  The work queue is safe.  From a good state the machine takes any steps: calls of the
  interface (with or without memory for their request), requests that an update queues without the
  spin lock, in any state and whatever its search found, the start of queued work, and the
  continuation of running work with any answer of the resource manager.  In every state that it
  reaches the invariant holds (the table lists the registered regions and then those still to be
  registered; the ELF header describes the registered ones), and every further step returns
  without a memory fault.

  The calls keep to \<open>client_ok\<close>: names are C strings, a valid region that is added has a
  positive size below \<open>2 ^ 52\<close> and finds fewer than 197 regions in the table, and the region that
  a removal names is valid.  The driver itself admits up to 201 regions; the 198th is a fault.
\<close>

theorem rm_machine_safe:
  assumes "rm_inv bs st0" and "rm_reach st0 (s, run)"
  shows "rm_inv bs (s, run) \<and>
    (\<forall>alloc op. client_ok op s \<longrightarrow> (\<exists>r s'. md_call alloc op s = Some (r, s'))) \<and>
    (\<forall>e. cstring (mdr_name e) \<longrightarrow> validate_region (Some e) = 0 \<longrightarrow>
       (\<exists>s'. queue_request MINIDUMP_UPDATE e s = Some s')) \<and>
    (\<forall>rq s1. run = None \<longrightarrow> rm_pop s = Some (rq, s1) \<longrightarrow> (\<exists>run' s'. rm_start rq s1 = Some (run', s'))) \<and>
    (\<forall>pc ret. run = Some pc \<longrightarrow> (\<exists>run' s'. rm_resume pc ret s = Some (run', s')))"
proof -
  have inv: "rm_inv bs (s, run)" by (rule rm_reach_inv [OF assms(2,1)])
  then show ?thesis
    using rm_client_inv [OF inv] rm_late_update_inv [OF inv] rm_start_inv [of bs s] rm_resume_inv [of bs s] by blast
qed

theorem rm_machine_safe_witness:
  "\<exists>s s' r r' s''. rm_inv demo_base (s, None) \<and> md_call True (Op_Remove demo_kmsg) s = Some (r, s') \<and>
     rm_inv demo_base (s', None) \<and> md_call False (Op_Update 0 demo_kmsg) s' = Some (r', s'')"
proof -
  obtain s where s: "rm_inv demo_base (s, None)" using demo_rm by blast
  have ok: "client_ok (Op_Remove demo_kmsg) s'" "client_ok (Op_Update 0 demo_kmsg) s'" for s'
    using demo_kmsg_wf(1) by (simp_all add: wf_region_def)
  obtain r s' where s': "md_call True (Op_Remove demo_kmsg) s = Some (r, s')"
    using rm_client_inv [OF s ok(1)] by blast
  have "rm_reach (s, None) (s', None)"
    by (rule rm_reach.step [OF rm_reach.init rm_step.client [OF ok(1) s']])
  from rm_machine_safe [OF s this] ok s s' show ?thesis by blast
qed

text \<open>
  C25.  A probe with a resource manager.  When the kernel and the resource manager provide what
  the probe asks for, it succeeds and the machine starts in a good state, with a request queued
  for every region that was registered before.
\<close>

theorem probe_rm_establishes:
  assumes "rm_ready env" and "log_ready (probe_log env) p" and "log_alloc (probe_log env)"
    and "unprobed P s" and "\<forall>r \<in> set P. sized r" and "length P < MAX_ELF_REGIONS"
    and "wf_region (kmsg_region (probe_log env) lg p)" and "sized (kmsg_region (probe_log env) lg p)"
  shows "\<exists>lg' s'. msm_minidump_driver_probe env (lg, s) = Some (0, lg', s') \<and>
    rm_inv (probe_base env) (s', None)"
  using assms by (rule probe_rm_ok)

theorem probe_rm_establishes_witness:
  "\<exists>lg' s'. msm_minidump_driver_probe demo_rm_env (init_log, demo_pending) = Some (0, lg', s') \<and>
    rm_inv (probe_base demo_rm_env) (s', None)"
  by (rule probe_rm_establishes [OF demo_ready(3,4) _ demo_pending_ok(1)])
    (use demo_kmsg_wf demo_region_wf(2) in \<open>simp_all add: demo_kmsg_def demo_rm_env_def demo_env_def
      demo_log_def MAX_ELF_REGIONS_def md_consts\<close>)

text \<open>
  C16.  The entry that a running work function remembered by its index still has the same name
  when the resource manager has answered, in every reachable state.  The branches of the work
  functions that report a corrupt table (one of which releases the lock twice) are never taken.
\<close>

theorem rm_entry_not_corrupt:
  assumes "rm_inv bs st0" and "rm_reach st0 (s, Some pc)" and "pc_entry pc = (e, n)"
  shows "\<exists>t. minidump_rm_table s = Some t \<and> n < num_regions s \<and> rmr_name (rm_entry t n) = mdr_name e"
  using rm_inv_pc_entry [OF rm_reach_inv [OF assms(2,1)] assms(3)] .

theorem rm_entry_not_corrupt_witness:
  "\<exists>eh t. minidump_rm_table (demo_started eh) = Some t \<and> 0 < num_regions (demo_started eh) \<and>
     rmr_name (rm_entry t 0) = mdr_name demo_kmsg"
proof -
  obtain eh where eh: "elf_rep demo_base [] eh" using demo_empty_header by blast
  from rm_entry_not_corrupt [OF demo_queue_inv [OF eh] demo_queue_reach, of demo_kmsg 0] show ?thesis by auto
qed

text \<open>
  C15.  When no work is running and the queue is empty, the ELF header describes exactly the
  regions of the table, in the table's order.
\<close>

theorem rm_quiescent_in_sync:
  assumes "rm_inv bs st0" and "rm_reach st0 (s, None)" and "rm_queued s = []"
  shows "\<exists>t L. minidump_rm_table s = Some t \<and> elf_rep bs L (minidump_elfheader s) \<and>
    rm_names s t = map mdr_name L \<and> num_regions s = length L"
proof -
  have inv: "rm_inv bs (s, None)" by (rule rm_reach_inv [OF assms(2,1)])
  then obtain t where t: "minidump_rm_table s = Some t" by (auto simp: rm_inv_def rm_rep_def)
  then show ?thesis using rm_inv_quiescent [OF inv t] assms(3) by (auto simp: rm_queued_def)
qed

theorem rm_quiescent_in_sync_witness:
  "\<exists>eh s' t L. rm_reach (demo_queue eh, None) (s', None) \<and> minidump_rm_table s' = Some t \<and>
     elf_rep demo_base L (minidump_elfheader s') \<and> rm_names s' t = map mdr_name L \<and> num_regions s' = length L"
proof -
  obtain eh where eh: "elf_rep demo_base [] eh" using demo_empty_header by blast
  note inv = demo_queue_inv [OF eh]
  let ?pc = "Rm_Add_Register demo_kmsg 0"
  obtain run s' where s': "rm_resume ?pc 5 (demo_started eh) = Some (run, s')"
    using rm_resume_inv [OF rm_reach_inv [OF demo_queue_reach inv]] by blast
  have r: "run = None" and q: "rm_queued s' = []"
    using rm_resume_queued [OF s'] by (cases run rule: pc_rank.cases; simp add: rm_queued_def demo_started_def)+
  have reach: "rm_reach (demo_queue eh, None) (s', None)"
    using rm_reach_resume [OF demo_queue_reach s'] r by simp
  from rm_quiescent_in_sync [OF inv this q] reach show ?thesis by blast
qed

text \<open>
  C9.  The queue drains.  Left to itself, the worker finishes the running work and all queued
  requests within \<open>work_left\<close> sections, whatever the resource manager answers, and ends idle in a
  good state.
\<close>

theorem rm_queue_drains:
  assumes "rm_inv bs st" and "work_left st \<le> n"
  shows "\<exists>s'. rm_worker n ans st = Some (s', None) \<and> rm_queued s' = [] \<and> rm_inv bs (s', None)"
  using assms by (rule rm_worker_drains)

theorem rm_queue_drains_witness:
  "\<exists>s s'. rm_inv demo_base (s, None) \<and> rm_worker (work_left (s, None)) (\<lambda>_. - 1) (s, None) = Some (s', None) \<and>
     rm_queued s' = []"
proof -
  obtain s where s: "rm_inv demo_base (s, None)" using demo_rm by blast
  from rm_queue_drains [OF s order_refl] s show ?thesis by blast
qed

text \<open>
  C26.  What a queued request does.  \<open>rm_view bs L A sl q s\<close> says that \<open>L\<close> are the regions with
  headers, \<open>A\<close> those still to be registered, and \<open>sl\<close> the slot numbers of the table.  The work for
  the oldest region of \<open>A\<close> registers it: its slot number is stored and its headers are added, or,
  when the resource manager refuses, it leaves the table.  The work for a removal gives the slot
  back and takes the region out of table and header; it does nothing when the slot number is 0, and when the
  resource manager refuses, only the slot number is lost.  The work for an update exchanges the slot
  and stores the new addresses in the header; when the resource manager refuses either call the slot number is
  0 and the addresses stay.  A request for a name that the table does not hold does nothing.
\<close>

theorem rm_work_effect:
  assumes "rm_view bs L A sl q s" and "slot = register (phys_addr e) (mdr_size e) (mdr_name e) (length (mdr_name e))"
  shows "(\<forall>A'. A = e # A' \<longrightarrow>
      (\<exists>s'. minidump_rm_work register deregister \<lparr>rq_entry = e, work_cmd = MINIDUMP_ADD\<rparr> s = Some s' \<and>
        (if slot < 0 then rm_view bs L A' (remove_nth (length L) sl) q s'
         else rm_view bs (L @ [e]) A' (sl[length L := slot]) q s'))) \<and>
    (\<forall>k < length L. removable L k e \<longrightarrow>
      (\<exists>s'. minidump_rm_work register deregister \<lparr>rq_entry = e, work_cmd = MINIDUMP_REMOVE\<rparr> s = Some s' \<and>
        (if sl ! k = 0 then s' = s
         else if deregister (nat (sl ! k mod 2 ^ 16)) < 0 then rm_view bs L A (sl[k := 0]) q s'
         else rm_view bs (remove_nth k L) A (remove_nth k sl) q s'))) \<and>
    (\<forall>k < length L. wf_region e \<longrightarrow> mdr_name e = mdr_name (L ! k) \<longrightarrow>
      (\<exists>s'. minidump_rm_work register deregister \<lparr>rq_entry = e, work_cmd = MINIDUMP_UPDATE\<rparr> s = Some s' \<and>
        (if deregister (nat (sl ! k mod 2 ^ 16)) < 0 \<or> slot < 0 then rm_view bs L A (sl[k := 0]) q s'
         else rm_view bs (L[k := move_region (L ! k) e]) A (sl[k := slot]) q s'))) \<and>
    (\<forall>cmd. mdr_name e \<notin> set (map mdr_name (L @ A)) \<longrightarrow>
      minidump_rm_work register deregister \<lparr>rq_entry = e, work_cmd = cmd\<rparr> s = Some s)"
proof (intro conjI allI impI)
  fix A' assume "A = e # A'"
  with add_work_effect [of bs L e A' sl q s slot register] assms
  show "\<exists>s'. minidump_rm_work register deregister \<lparr>rq_entry = e, work_cmd = MINIDUMP_ADD\<rparr> s = Some s' \<and>
        (if slot < 0 then rm_view bs L A' (remove_nth (length L) sl) q s'
         else rm_view bs (L @ [e]) A' (sl[length L := slot]) q s')"
    by (simp add: minidump_rm_work_def)
next
  fix k assume "k < length L" and "removable L k e"
  from remove_work_effect [OF assms(1) this, of deregister]
  show "\<exists>s'. minidump_rm_work register deregister \<lparr>rq_entry = e, work_cmd = MINIDUMP_REMOVE\<rparr> s = Some s' \<and>
        (if sl ! k = 0 then s' = s
         else if deregister (nat (sl ! k mod 2 ^ 16)) < 0 then rm_view bs L A (sl[k := 0]) q s'
         else rm_view bs (remove_nth k L) A (remove_nth k sl) q s')"
    by (simp add: minidump_rm_work_def)
next
  fix k assume "k < length L" and "wf_region e" and "mdr_name e = mdr_name (L ! k)"
  from update_work_effect [OF assms(1) this, of slot register deregister] assms(2)
  show "\<exists>s'. minidump_rm_work register deregister \<lparr>rq_entry = e, work_cmd = MINIDUMP_UPDATE\<rparr> s = Some s' \<and>
        (if deregister (nat (sl ! k mod 2 ^ 16)) < 0 \<or> slot < 0 then rm_view bs L A (sl[k := 0]) q s'
         else rm_view bs (L[k := move_region (L ! k) e]) A (sl[k := slot]) q s')"
    by (simp add: minidump_rm_work_def)
qed (simp add: work_missing [OF assms(1)])

theorem rm_work_effect_witness:
  "\<exists>s s' s''. rm_view demo_base [demo_kmsg] [] [5] [] s \<and>
     minidump_rm_work (\<lambda>_ _ _ _. 7) (\<lambda>_. 0) \<lparr>rq_entry = demo_kmsg, work_cmd = MINIDUMP_UPDATE\<rparr> s = Some s' \<and>
     rm_view demo_base [demo_kmsg] [] [7] [] s' \<and>
     minidump_rm_work (\<lambda>_ _ _ _. 7) (\<lambda>_. 0) \<lparr>rq_entry = demo_kmsg, work_cmd = MINIDUMP_REMOVE\<rparr> s' = Some s'' \<and>
     rm_view demo_base [] [] [] [] s''"
proof -
  let ?work = "minidump_rm_work (\<lambda>_ _ _ _. 7) (\<lambda>_. 0)"
  obtain s where s: "rm_view demo_base [demo_kmsg] [] [5] [] s" using demo_registered by blast
  note effect = rm_work_effect [where register = "\<lambda>_ _ _ _. 7" and deregister = "\<lambda>_. 0" and e = demo_kmsg and slot = 7,
      OF _ refl]
  have mv: "move_region demo_kmsg demo_kmsg = demo_kmsg" by (simp add: move_region_def)
  have rem: "removable [demo_kmsg] 0 demo_kmsg" using demo_kmsg_wf(1) by (simp add: removable_def)
  obtain s' where s': "?work \<lparr>rq_entry = demo_kmsg, work_cmd = MINIDUMP_UPDATE\<rparr> s = Some s'"
    "rm_view demo_base [demo_kmsg] [] [7] [] s'"
    using effect [OF s] demo_kmsg_wf(1) by (auto simp: mv)
  obtain s'' where "?work \<lparr>rq_entry = demo_kmsg, work_cmd = MINIDUMP_REMOVE\<rparr> s' = Some s''"
    "rm_view demo_base [] [] [] [] s''"
    using effect [OF s'(2)] rem by (auto simp: remove_nth_def)
  with s s' show ?thesis by blast
qed

section \<open>The kernel log\<close>

text \<open>
  C31.  When the buffer is at least as large as the size that the dump uses, and the kernel's log
  reader respects the size it is given, the dump writes its header line and then the log, and
  nothing behind the buffer.
\<close>

theorem kmsg_dump_fits:
  assumes "length (kmsg_header why) < dump_sz" and "dump_sz \<le> cap" and "cap < 2 ^ 64"
    and "\<And>n log. get_buffer n = Some log \<Longrightarrow> length log \<le> n"
  shows "\<exists>b'. md_kmsg_dump cap dump_sz why get_buffer b = Some b' \<and> (\<forall>i \<ge> cap. b' i = b i) \<and>
    arr_list b' (length (kmsg_header why)) = kmsg_header why \<and>
    (\<forall>log. get_buffer (dump_sz - length (kmsg_header why)) = Some log \<longrightarrow>
       arr_seg b' (length (kmsg_header why)) (length log) = log)"
  using assms by (rule md_kmsg_dump_ok)

theorem kmsg_dump_fits_witness:
  "\<exists>b'. md_kmsg_dump 64 64 ''Oops'' (\<lambda>n. Some (take n ''log'')) (\<lambda>_. NUL) = Some b' \<and>
     arr_list b' 15 = kmsg_header ''Oops'' \<and> arr_seg b' 15 3 = ''log''"
proof -
  have len: "length (kmsg_header ''Oops'') = 15" "length ''log'' = 3" by (simp_all add: kmsg_header_def)
  have log: "take (64 - 15) ''log'' = ''log''" by simp
  have "\<exists>b'. md_kmsg_dump 64 64 ''Oops'' (\<lambda>n. Some (take n ''log'')) (\<lambda>_. NUL) = Some b' \<and>
      (\<forall>i \<ge> 64. b' i = NUL) \<and> arr_list b' 15 = kmsg_header ''Oops'' \<and>
      (\<forall>log. Some (take (64 - 15) ''log'') = Some log \<longrightarrow> arr_seg b' 15 (length log) = log)"
    by (rule kmsg_dump_fits [of "''Oops''" 64 64 "\<lambda>n. Some (take n ''log'')", unfolded len]) simp_all
  then show ?thesis unfolding log using len(2) by metis
qed

text \<open>
  C38.  The size is a module parameter that can be raised after the buffer was allocated; a log
  that fills the raised size is then written beyond the buffer.
\<close>

theorem kmsg_dump_overrun:
  assumes "length (kmsg_header why) < cap" and "cap < dump_sz" and "dump_sz < 2 ^ 64"
    and "get_buffer (dump_sz - length (kmsg_header why)) = Some log"
    and "length log = dump_sz - length (kmsg_header why)"
  shows "md_kmsg_dump cap dump_sz why get_buffer b = None"
  using assms by (rule md_kmsg_dump_overrun)

theorem kmsg_dump_overrun_witness:
  "md_kmsg_dump 64 128 ''Oops'' (\<lambda>n. Some (replicate n CHR ''x'')) (\<lambda>_. NUL) = None"
  by (rule kmsg_dump_overrun [of _ _ _ _ "replicate 113 CHR ''x''"]) (simp_all add: kmsg_header_def)

section \<open>The register dump tables\<close>

definition demo_regs :: cpuss_dump_data where
  "demo_regs = \<lparr>cpussregdata = Some \<lparr>reg_mem = (\<lambda>_. 0), reg_size = 4096, core_reg_num = 0,
     core_reg_used_num = 0, core_reg_end_index = 0, sys_reg_size = 0, reg_used_memory = 0\<rparr>,
     sprdata = replicate MAX_CORE_NUM None\<rparr>"

definition demo_table :: reg_table where
  "demo_table = \<lparr>tab_num = 50, tab_core = [], tab_sys = []\<rparr>"

definition demo_filled :: reg_table where
  "demo_filled = demo_table\<lparr>tab_core := [Read 0x100 4], tab_sys := [Write 0x200 7]\<rparr>"

definition demo_reg_ops :: "reg_op list" where
  "demo_reg_ops = [Reg_Config True (Read 0x100 4) 10, Reg_Config False (Write 0x200 7) 11,
     Reg_Num (Some 3) 2, Reg_Reset (Some 2) 2]"

lemma demo_table_dev: "\<exists>dev. tab_dev 8 4096 demo_table dev"
  using update_reg_dump_table_rep [of "Some demo_regs" demo_regs _ 4096 50 8 undefined]
  by (auto simp: demo_regs_def table_reset_def demo_table_def)

lemma demo_reg_spec:
  "run_ops (table_step 8 4096) demo_reg_ops demo_table =
     Some ([10, 11, - EPERM, - EINVAL], demo_filled)"
  by (simp add: demo_reg_ops_def demo_table_def demo_filled_def table_add_def with_cmd_def table_use_def out_offset_def
      sys_base_def outs_of_def words_of_def stored_def)

lemma demo_filled_dev: "\<exists>dev. tab_dev 8 4096 demo_filled dev"
proof -
  obtain dev where "tab_dev 8 4096 demo_table dev" using demo_table_dev by blast
  then have "(8 :: u32) \<noteq> 0 \<and> tab_dev 8 4096 demo_table dev" by simp
  from regs.run_sim [OF this demo_reg_spec] show ?thesis by blast
qed

text \<open>
  C5.  The sysfs handlers implement a list of commands.  Every sequence of configurations,
  resets and changes of the register count that the specification covers has the specified
  results, and the memory then encodes the specified lists: the header words, the per-core
  commands, zeros up to the system registers, the system commands and the output offset.
\<close>

theorem register_handlers_refine_table:
  assumes "cores \<noteq> 0 \<and> tab_dev cores sz g dev" and "run_ops (table_step cores sz) ops g = Some (rs, g')"
  shows "\<exists>dev'. run_ops (reg_impl cores) ops dev = Some (rs, dev') \<and> cores \<noteq> 0 \<and> tab_dev cores sz g' dev'"
  using assms by (rule regs.run_sim)

theorem register_handlers_refine_table_witness:
  "\<exists>dev dev'. tab_dev 8 4096 demo_table dev \<and>
     run_ops (reg_impl 8) demo_reg_ops dev = Some ([10, 11, - EPERM, - EINVAL], dev') \<and>
     tab_dev 8 4096 demo_filled dev'"
proof -
  obtain dev where dev: "tab_dev 8 4096 demo_table dev" using demo_table_dev by blast
  then have "(8 :: u32) \<noteq> 0 \<and> tab_dev 8 4096 demo_table dev" by simp
  from register_handlers_refine_table [OF this demo_reg_spec] dev show ?thesis by auto
qed

text \<open>
  C14.  Reading the configuration back: when every command's first word is not zero and the text
  fits a page, the listing prints exactly the configured commands, the per-core ones first, each
  under its header.
\<close>

theorem register_config_roundtrip:
  assumes "tab_dev cores sz g dev" and "\<forall>c \<in> set (tab_core g @ tab_sys g). printable c"
    and "length (table_text g) < PAGE_SIZE"
  shows "register_config_show dev = Some (int (length (table_text g)), table_text g)"
  using assms by (rule register_config_show_rep)

theorem register_config_roundtrip_witness:
  "\<exists>dev. register_config_show dev = Some (int (length (table_text demo_filled)), table_text demo_filled)"
proof -
  obtain dev where dev: "tab_dev 8 4096 demo_filled dev" using demo_filled_dev by blast
  have "length (table_text demo_filled) < PAGE_SIZE"
    using length_reg_line [of "0x100" 4 "CHR ''r''"] length_reg_line [of "0x200" 7 "CHR ''w''"]
    by (simp add: table_text_def demo_filled_def lines_of_def PAGE_SIZE_def)
  then show ?thesis using register_config_roundtrip [OF dev]
    by (auto simp: demo_filled_def printable_def cpuss_consts)
qed

text \<open>C30.  A refused configuration changes neither the table in memory nor the counters.\<close>

theorem refused_config_unchanged:
  assumes "register_config_store cores scan n dev = Some (ret, dev')" and "ret < 0"
  shows "dev' = dev"
  using assms by (rule register_config_store_error)

theorem refused_config_unchanged_witness:
  "register_config_store 8 (scan_of True (Read 2 4)) 9 (Some demo_regs) = Some (- EINVAL, Some demo_regs)"
proof -
  have "\<exists>dev'. register_config_store 8 (scan_of True (Read 2 4)) 9 (Some demo_regs) = Some (- EINVAL, dev')"
    by (auto simp: register_config_store_def demo_regs_def)
  then obtain dev' where d: "register_config_store 8 (scan_of True (Read 2 4)) 9 (Some demo_regs) = Some (- EINVAL, dev')"
    by blast
  from refused_config_unchanged [OF this] d show ?thesis by (simp add: EINVAL_def)
qed

text \<open>
  The register count is multiplied without an overflow check: a count of \<open>2 ^ 31\<close> is
  accepted with room for none, and the system registers start right behind the header.
\<close>

theorem register_count_wraps:
  assumes "dev = Some cpu" and "cpussregdata cpu = Some d" and "24 < unat (reg_size d)"
  shows "\<exists>cpu' d'. update_reg_dump_table 0x80000000 dev = Some (0, Some cpu') \<and> cpussregdata cpu' = Some d' \<and>
    core_reg_num d' = 0x80000000 \<and> reg_mem d' 2 = 5"
  using assms by (rule core_reg_num_wraps)

theorem register_count_wraps_witness:
  "\<exists>cpu' d'. update_reg_dump_table 0x80000000 (Some demo_regs) = Some (0, Some cpu') \<and>
     cpussregdata cpu' = Some d' \<and> core_reg_num d' = 0x80000000 \<and> reg_mem d' 2 = 5"
  by (rule register_count_wraps [OF refl, of _ "the (cpussregdata demo_regs)"]) (simp_all add: demo_regs_def)

definition demo_sprs :: cpuss_dump_data where
  "demo_sprs = \<lparr>cpussregdata = None, sprdata = (replicate MAX_CORE_NUM None)[1 := Some
     \<lparr>spr_mem = (\<lambda>_. 0)(0 := INPUT_DATA_BY_HLOS, 1 := FORMAT_VERSION_1, 2 := 5, 3 := 24), spr_size = 64,
      sprs_data_index = 0, spr_used_memory = 24\<rparr>]\<rparr>"

lemma demo_sprs_rep: "sprs_dev ((replicate MAX_CORE_NUM None)[1 := Some []]) (Some demo_sprs)"
proof -
  have "list_all2 (rel_option spr_rep) (replicate MAX_CORE_NUM None) (replicate MAX_CORE_NUM None)"
    by (simp add: list_all2_conv_all_nth)
  then show ?thesis
    by (auto simp: sprs_dev_def demo_sprs_def spr_rep_def intro!: list_all2_update_cong)
qed

text \<open>
  C29.  Configuring a special purpose register appends it to the list of its core, and to no
  other list, as long as the core's region has room for one more register and its value;
  otherwise the call returns \<open>- ENOMEM\<close> and changes nothing.
\<close>

theorem spr_config_appends:
  assumes "sprs_dev Ss (Some c)" and "unat cpu < MAX_CORE_NUM" and "Ss ! unat cpu = Some S"
    and "sprdata c ! unat cpu = Some d"
  shows "if 24 + 12 * (length S + 1) < unat (spr_size d)
    then \<exists>dev'. spr_config_store 2 v cpu n (Some c) = Some (int n, dev') \<and>
           sprs_dev (Ss[unat cpu := Some (S @ [v])]) dev'
    else spr_config_store 2 v cpu n (Some c) = Some (- ENOMEM, Some c)"
  using assms by (rule spr_config_store_rep)

theorem spr_config_appends_witness:
  "\<exists>dev'. spr_config_store 2 77 1 5 (Some demo_sprs) = Some (5, dev') \<and>
     sprs_dev ((replicate MAX_CORE_NUM None)[1 := Some [77]]) dev'"
  using spr_config_appends [OF demo_sprs_rep, of 1 "[]" "the (sprdata demo_sprs ! 1)" 77 5]
  by (simp add: demo_sprs_def MAX_CORE_NUM_def)

section \<open>The memory dump tables\<close>

definition demo_nodes :: "dump_node list" where
  "demo_nodes = [\<lparr>node_name = ''c0_context'', node_size = Inr 2048, node_id = Inr 0\<rparr>,
     \<lparr>node_name = ''cpuss_reg'', node_size = Inr 4096, node_id = Inr 0xEF\<rparr>,
     \<lparr>node_name = ''broken'', node_size = Inl (- EINVAL), node_id = Inr 1\<rparr>]"

definition demo_dump_env :: dump_env where
  "demo_dump_env = \<lparr>memory_region_node = True, reserved_mem_init = 0, dma_alloc = (\<lambda>_. Some (0xA000, 0x90000000)), alloc_cpudata = True,
     alloc_desc = (\<lambda>_. True), alloc_md = True, create_file = (\<lambda>_. 0), dump_nodes = demo_nodes\<rparr>"

definition demo_dump :: mem_dump where
  "demo_dump = \<lparr>table_phys = 0, memdump_table = None, data_at = (\<lambda>_. None), cpuss_dev = None,
     cpuss_initialized = (False, False), files = [], md = init_globals\<rparr>"

lemma demo_usable: "usable demo_nodes = [(''c0_context'', 2048, 0), (''cpuss_reg'', 4096, 0xEF)]"
  by (simp add: demo_nodes_def)

lemma demo_alloc: "\<exists>ret s'. mem_dump_alloc demo_dump_env demo_dump = Some (ret, s')"
proof -
  let ?r = "memdump_region 0xA000 0x90000000 (dump_total_size demo_nodes)"
  have "\<exists>r m. msm_minidump_add_region True (Some ?r) init_globals = Some (r, m)"
    by (simp add: msm_minidump_add_region_def init_globals_def toc_enabled_def)
  then obtain r m where "msm_minidump_add_region True (Some ?r) init_globals = Some (r, m)" by blast
  then show ?thesis
    using mem_dump_alloc_rep [of demo_dump_env "0xA000" "0x90000000" demo_dump r m]
    by (auto simp: demo_dump_env_def mem_dump_reserve_mem_def demo_dump_def demo_usable dump_consts is_spr_def sprs_fit_def
        SPR_DUMP_CPU0_def)
qed

text \<open>
  C10.  Laying out the dump memory.  When the block could be allocated, the nodes fit the table and
  the regions for the special purpose registers have room for their headers, \<^verbatim>\<open>mem_dump_alloc\<close> runs
  without a memory fault, and the application processor's table then lists exactly the nodes that
  have a size and an id, in order, each with the physical address of its own header.
\<close>

theorem mem_dump_layout:
  assumes "mem_dump_reserve_mem env = 0" and "dma_alloc env (dump_total_size (dump_nodes env)) = Some (va, pa)"
    and "pa + of_nat sizeof_dump_table \<noteq> 0"
    and "length (usable (dump_nodes env)) \<le> DUMP_MAX_NUM_ENTRIES"
    and "\<forall>(nm, z, i) \<in> set (usable (dump_nodes env)). is_spr i \<longrightarrow> spr_fits z"
    and "sprs_fit (cpuss_dev s)"
    and "msm_minidump_add_region (alloc_md env)
      (Some (memdump_region va pa (dump_total_size (dump_nodes env)))) (md s) = Some (r, m)"
  shows "\<exists>ret s'. mem_dump_alloc env s = Some (ret, s') \<and>
    dumps_rep pa (node_entries pa (sizeof_dump_table * 2) (usable (dump_nodes env))) s' \<and> md s' = m"
  using assms by (rule mem_dump_alloc_rep)

theorem mem_dump_layout_witness:
  "\<exists>ret s'. mem_dump_alloc demo_dump_env demo_dump = Some (ret, s') \<and>
    dumps_rep 0x90000000 (node_entries 0x90000000 (sizeof_dump_table * 2) (usable demo_nodes)) s'"
proof -
  let ?r = "memdump_region 0xA000 0x90000000 (dump_total_size demo_nodes)"
  have "\<exists>r m. msm_minidump_add_region True (Some ?r) init_globals = Some (r, m)"
    by (simp add: msm_minidump_add_region_def init_globals_def toc_enabled_def)
  then obtain r m where "msm_minidump_add_region True (Some ?r) init_globals = Some (r, m)" by blast
  then show ?thesis
    using mem_dump_layout [of demo_dump_env "0xA000" "0x90000000" demo_dump r m]
    by (auto simp: demo_dump_env_def mem_dump_reserve_mem_def demo_dump_def demo_usable dump_consts is_spr_def sprs_fit_def
        SPR_DUMP_CPU0_def)
qed

text \<open>
  C27.  The nodes fit the block.  When \<^verbatim>\<open>mem_dump_alloc\<close> has laid out a block that does not wrap around
  the address space, every node with a size and an id has a header, at the
  address behind the nodes before it, with its name, its size and the address right behind the
  header.  Every header lies, with its data, behind the two tables and within the size that was
  allocated, and ends before the next header begins.
\<close>

theorem mem_dump_nodes_fit:
  assumes "mem_dump_alloc env s = Some (ret, s')" and "data_at s = (\<lambda>_. None)"
    and "mem_dump_reserve_mem env = 0" and "dma_alloc env (dump_total_size (dump_nodes env)) = Some (va, pa)"
    and "unat pa + dump_total_size (dump_nodes env) \<le> 2 ^ 64" and "pa + of_nat sizeof_dump_table \<noteq> 0"
  shows "(\<forall>k < length (usable (dump_nodes env)).
      let a = pa + of_nat (node_end (sizeof_dump_table * 2) (take k (usable (dump_nodes env))));
          (nm, z, i) = usable (dump_nodes env) ! k
      in data_at s' a = Some (zero_data\<lparr>dd_addr := a + 64, dd_len := ucast z, dd_name := strscpy_str nm 32\<rparr>)) \<and>
    (\<forall>p d. data_at s' p = Some d \<longrightarrow> dd_addr d = p + 64 \<and> unat pa + sizeof_dump_table * 2 \<le> unat p \<and>
       unat p + 64 + unat (dd_len d) \<le> unat pa + dump_total_size (dump_nodes env) \<and>
       (\<forall>p'. data_at s' p' \<noteq> None \<longrightarrow> unat p < unat p' \<longrightarrow> unat p + 64 + unat (dd_len d) \<le> unat p'))"
  using mem_dump_alloc_headers [OF assms]
  by (simp add: headers_ok_def node_data_def MSM_DUMP_DATA_SIZE_def Let_def)

theorem mem_dump_nodes_fit_witness:
  "\<exists>ret s' d1 d2. mem_dump_alloc demo_dump_env demo_dump = Some (ret, s') \<and>
     data_at s' 0x90007E10 = Some d1 \<and> dd_len d1 = 2048 \<and> dd_addr d1 = 0x90007E50 \<and>
     data_at s' 0x90008650 = Some d2 \<and> dd_len d2 = 4096 \<and> dd_name d2 = ''cpuss_reg'' \<and>
     unat (0x90008650 :: u64) + 64 + 4096 \<le> unat (0x90000000 :: u64) + dump_total_size demo_nodes"
proof -
  obtain ret s' where s': "mem_dump_alloc demo_dump_env demo_dump = Some (ret, s')" using demo_alloc by blast
  have nds: "dump_nodes demo_dump_env = demo_nodes" by (simp add: demo_dump_env_def)
  have "dump_total_size demo_nodes \<le> 2 ^ 20"
    by (simp add: dump_total_size_def demo_nodes_def align_4k_def dump_consts)
  then have "(\<forall>k < length (usable demo_nodes).
      let a = 0x90000000 + of_nat (node_end (sizeof_dump_table * 2) (take k (usable demo_nodes)));
          (nm, z, i) = usable demo_nodes ! k
      in data_at s' a = Some (zero_data\<lparr>dd_addr := a + 64, dd_len := ucast z, dd_name := strscpy_str nm 32\<rparr>)) \<and>
    (\<forall>p d. data_at s' p = Some d \<longrightarrow> unat p + 64 + unat (dd_len d) \<le> unat (0x90000000 :: u64) + dump_total_size demo_nodes)"
    using mem_dump_nodes_fit [OF s', of "0xA000" "0x90000000"]
    by (simp add: nds) (simp add: demo_dump_env_def demo_dump_def mem_dump_reserve_mem_def dump_consts)
  then have all: "\<And>k. k < 2 \<Longrightarrow> let a = 0x90000000 + of_nat (node_end (sizeof_dump_table * 2) (take k (usable demo_nodes)));
          (nm, z, i) = usable demo_nodes ! k
      in data_at s' a = Some (zero_data\<lparr>dd_addr := a + 64, dd_len := ucast z, dd_name := strscpy_str nm 32\<rparr>)"
    and fit: "\<And>p d. data_at s' p = Some d \<Longrightarrow>
      unat p + 64 + unat (dd_len d) \<le> unat (0x90000000 :: u64) + dump_total_size demo_nodes"
    by (simp_all add: demo_usable)
  have d1: "data_at s' 0x90007E10 = Some (zero_data\<lparr>dd_addr := 0x90007E50, dd_len := 2048, dd_name := ''c0_context''\<rparr>)"
    using all [of 0] by (simp add: demo_usable node_end_def dump_consts strscpy_str_def)
  have d2: "data_at s' 0x90008650 = Some (zero_data\<lparr>dd_addr := 0x90008690, dd_len := 4096, dd_name := ''cpuss_reg''\<rparr>)"
    using all [of 1] by (simp add: demo_usable node_end_def dump_consts strscpy_str_def)
  from fit [OF d2] s' d1 d2 show ?thesis by simp
qed

text \<open>
  C28.  Registrations fill the table in order up to its 336 entries; every later one is refused
  with \<open>- EINVAL\<close> and leaves the table as it is.
\<close>

theorem dump_registrations_refine_list:
  assumes "dumps_rep phys T s" and "run_ops dumps_add es T = Some (rs, T')"
  shows "\<exists>s'. run_ops (register_dump_table_entry MSM_DUMP_TABLE_APPS) es s = Some (rs, s') \<and> dumps_rep phys T' s'"
  using assms by (rule dumps.run_sim)

theorem dump_registrations_refine_list_witness:
  "\<exists>s s'. run_ops (register_dump_table_entry MSM_DUMP_TABLE_APPS)
       [zero_entry\<lparr>de_id := 1, de_addr := 64\<rparr>, zero_entry\<lparr>de_id := 2, de_addr := 128\<rparr>] s = Some ([0, 0], s') \<and>
     dumps_rep 0x90000000 [(1, 64), (2, 128)] s'"
proof -
  obtain s where s: "dumps_rep 0x90000000 [] s"
    using init_memory_dump_rep [of "0x90000000" demo_dump] by (auto simp: dump_consts)
  have "run_ops dumps_add [zero_entry\<lparr>de_id := 1, de_addr := 64\<rparr>, zero_entry\<lparr>de_id := 2, de_addr := 128\<rparr>] [] =
      Some ([0, 0], [(1, 64), (2, 128)])"
    by (simp add: dumps_add_def dump_consts)
  from dump_registrations_refine_list [OF s this] show ?thesis by blast
qed

text \<open>
  C34.  Creating a group of sysfs files.  When no file fails, all of them exist afterwards and the result is 0;
  otherwise the result is the error of the first file that fails, and none of the group exists.
\<close>

theorem sysfs_files_all_or_none:
  assumes "set as \<inter> set fs = {}"
  shows "memory_dump_create_files create as fs =
    (case find (\<lambda>a. create a \<noteq> 0) as of None \<Rightarrow> (0, fs @ as) | Some a \<Rightarrow> (create a, fs))"
  using assms by (rule memory_dump_create_files_spec)

theorem sysfs_files_all_or_none_witness:
  "memory_dump_create_files (\<lambda>_. 0) [''a'', ''b''] [''c''] = (0, [''c'', ''a'', ''b'']) \<and>
   memory_dump_create_files (\<lambda>f. if f = ''b'' then - ENOMEM else 0) [''a'', ''b''] [''c''] = (- ENOMEM, [''c''])"
  using sysfs_files_all_or_none [of "[''a'', ''b'']" "[''c'']" "\<lambda>_. 0"]
    sysfs_files_all_or_none [of "[''a'', ''b'']" "[''c'']" "\<lambda>f. if f = ''b'' then - ENOMEM else 0"]
  by (simp add: errno_defs)

text \<open>
  The result of the layout loop is that of its last round.  A last node whose size cannot be
  read turns the result into its error, although the state is the one of the run without it: the
  probe then fails after everything was set up.
\<close>

theorem last_node_decides:
  assumes "place_nodes env phys off nds st = Some st'" and "node_size nd = Inl e"
  shows "place_nodes env phys off (nds @ [nd]) st = Some (e, snd st') \<and> usable (nds @ [nd]) = usable nds"
  using place_nodes_last [OF assms] usable_snoc [OF assms(2)] by blast

theorem last_node_decides_witness:
  "place_nodes demo_dump_env 0 0 ([] @ [demo_nodes ! 2]) (0, (False, False), demo_dump) =
     Some (- EINVAL, (False, False), demo_dump) \<and> usable ([] @ [demo_nodes ! 2]) = usable []"
  using last_node_decides [of demo_dump_env 0 0 "[]" "(0, (False, False), demo_dump)" "(0, (False, False), demo_dump)"
      "demo_nodes ! 2" "- EINVAL"]
  by (simp add: demo_nodes_def)

section \<open>The boot log and the KASLR offset\<close>

text \<open>
  C32.  A probe that finds the three nodes publishes one text: the boot loader's log without its
  last byte, then the two time stamps, each in a field of 23 characters that its line always fits.
\<close>

theorem xbl_log_published:
  assumes "alloc_data env" and "reserved_memory env" and "\<forall>n. alloc_buf env n" and "0 \<le> create_blob env"
    and "node_ready env uefi_log n0" and "node_ready env tz_start_count n1" and "node_ready env tz_end_count n2"
    and "resource_size n0 < 2 ^ 31"
  shows "\<exists>xd s. xbl_log_probe env = Some (0, Some xd) \<and> dbg_blob xd = Some s \<and>
    length s = resource_size n0 - 1 + 46 \<and>
    take (resource_size n0 - 1) s = arr_list (res_data n0) (resource_size n0 - 1) \<and>
    take (length (tz_line tz_start_count (res_word n1) @ [NUL])) (drop (resource_size n0 - 1) s) =
      tz_line tz_start_count (res_word n1) @ [NUL] \<and>
    take (length (tz_line tz_end_count (res_word n2) @ [NUL])) (drop (resource_size n0 - 1 + 23) s) =
      tz_line tz_end_count (res_word n2) @ [NUL]"
  using assms by (rule xbl_log_probe_ok)

definition demo_xbl_node :: res_node where
  "demo_xbl_node = \<lparr>to_resource = 0, resource_size = 4, remap_ok = True, res_data = (\<lambda>i. CHR ''x''), res_word = 42\<rparr>"

definition demo_xbl_env :: xbl_env where
  "demo_xbl_env = \<lparr>alloc_data = True, reserved_memory = True, find_node = (\<lambda>_. Some demo_xbl_node),
     alloc_buf = (\<lambda>_. True), junk = (\<lambda>_. NUL), create_blob = 0\<rparr>"

theorem xbl_log_published_witness:
  "\<exists>xd s. xbl_log_probe demo_xbl_env = Some (0, Some xd) \<and> dbg_blob xd = Some s \<and> length s = 49"
  using xbl_log_published [of demo_xbl_env demo_xbl_node demo_xbl_node demo_xbl_node]
  by (auto simp: demo_xbl_env_def demo_xbl_node_def node_ready_def)

text \<open>
  C33.  A tool that reads the three words back after a successful probe gets the kernel's offset,
  whatever the memory held before; where the mapping failed nothing was written and the probe
  returns its error.
\<close>

theorem kaslr_roundtrip:
  "(\<exists>io'. kaslr_off_store_probe (Inr io) off = (0, Some io') \<and> kaslr_read io' = Some off \<and>
      (\<forall>a. a \<notin> {0, 4, 8} \<longrightarrow> io' a = io a)) \<and>
   kaslr_off_store_probe (Inl e) off = (e, None)"
  using halves [of off]
  by (simp add: kaslr_off_store_probe_def writel_def kaslr_read_def Let_def mask_take_bit ucast_low_half)

theorem kaslr_roundtrip_witness:
  "\<exists>io'. kaslr_off_store_probe (Inr (\<lambda>_. 0)) 0x123456789A = (0, Some io') \<and>
     kaslr_read io' = Some 0x123456789A \<and> io' 12 = 0"
  using kaslr_roundtrip [of "\<lambda>_. 0" "0x123456789A" 0] by auto

section \<open>Kernel stacks in the minidump\<close>

definition demo_stacks :: stack_env where
  "demo_stacks = \<lparr>dyn_minidump_stack = False, vmap_stack = True, thread_size = 0x4000, kimage_vaddr = 0x8000,
     sizeof_task_struct = 64, vmalloc_phys = (\<lambda>v. v + 0x90000000), linear_phys = (\<lambda>v. v + 0x80000000),
     stack_alloc = True\<rparr>"

definition demo_task :: task_ctx where
  "demo_task = \<lparr>ctx_cpu = 1, ctx_idle = False, ctx_task = 0x7000, ctx_sp = 0x12345, area_addr = 0x10000,
     area_size = 0x4000\<rparr>"

definition demo_stack_state :: "md_globals \<Rightarrow> stack_state" where
  "demo_stack_state s = \<lparr>md_current_stack_init = False, md_stack_data = (\<lambda>_. zero_stack_data demo_stacks),
     md_suspend_context = \<lparr>task_mdno = 0, susp_stack = zero_stack_data demo_stacks, task_mdr = zero_region,
       susp_init = False\<rparr>, sched_switch_hooked = False, pm_hooked = False, stack_md = s\<rparr>"

definition demo_switches :: "task_switch list" where
  "demo_switches = [\<lparr>sw_idle = False, sw_cpu = 0, sw_stack = 0x20000\<rparr>, \<lparr>sw_idle = True, sw_cpu = 1, sw_stack = 0x30000\<rparr>]"

lemma demo_stack_pages: "STACK_NUM_PAGES demo_stacks = 4" "area_addr demo_task = 0x10000"
  by (simp_all add: STACK_NUM_PAGES_def demo_stacks_def demo_task_def PAGE_SIZE_def)

lemma demo_stack_ok: "stack_ok demo_stacks 0x10000" "stack_ok demo_stacks 0x20000" "stack_ok demo_stacks 0x30000"
  by (simp_all add: stack_ok_def demo_stack_pages)

lemma demo_kmsg_driver: "\<exists>s. drv_rep demo_base 0 [demo_kmsg] s \<and> first_removed_entry s = INT_MAX"
  using demo_driver [of "[]"] by (simp add: MAX_ELF_REGIONS_def md_consts)

text \<open>
  C39.  The stack of a dying task.  When the stack pointer, as given or, if it is not a kernel address, as read
  from the register, lies in the task's stack of \<open>n\<close> pages, the driver ends up with one more region for every page
  from the one with the stack pointer to the end of the stack, in order and with the physical address of
  that page, and with one for the task; no other region changes.
\<close>

theorem dump_stack_exact:
  assumes "drv_rep bs p L s" and "stack_ready env ctx n (chosen_sp env ctx sp)"
    and "vmap_stack env" and "\<not> dyn_minidump_stack env"
    and "free_for_stack L" and "length L + n + 1 \<le> MAX_ELF_REGIONS"
  shows "\<exists>s'. dump_stack_minidump env ctx sp (lg, s) = Some (lg\<lparr>is_vmap_stack := True\<rparr>, s') \<and>
     drv_rep bs p (L @ dumped_stack env ctx n (chosen_sp env ctx sp) @ [ktask_region env ctx]) s'"
  using assms by (rule dump_stack_ok)

theorem dump_stack_exact_witness:
  "\<exists>s s'. dump_stack_minidump demo_stacks demo_task 0 (init_log, s) = Some (init_log\<lparr>is_vmap_stack := True\<rparr>, s') \<and>
     drv_rep demo_base 0 ([demo_kmsg] @ dumped_stack demo_stacks demo_task 4 0x12345 @ [ktask_region demo_stacks demo_task]) s' \<and>
     length (dumped_stack demo_stacks demo_task 4 0x12345) = 2"
proof -
  obtain s where s: "drv_rep demo_base 0 [demo_kmsg] s" using demo_kmsg_driver by blast
  have sp: "chosen_sp demo_stacks demo_task 0 = 0x12345" by (simp add: chosen_sp_def demo_stacks_def demo_task_def)
  have "\<exists>s'. dump_stack_minidump demo_stacks demo_task 0 (init_log, s) = Some (init_log\<lparr>is_vmap_stack := True\<rparr>, s') \<and>
     drv_rep demo_base 0 ([demo_kmsg] @ dumped_stack demo_stacks demo_task 4 (chosen_sp demo_stacks demo_task 0) @
       [ktask_region demo_stacks demo_task]) s'"
    by (rule dump_stack_exact [OF s])
      (unfold sp, simp_all add: stack_ready_def free_for_stack_def demo_kmsg_wf demo_stacks_def demo_task_def
        MAX_ELF_REGIONS_def md_consts)
  moreover have "length (dumped_stack demo_stacks demo_task 4 0x12345) = 2"
    by (simp add: dumped_stack_def demo_task_def)
  ultimately show ?thesis unfolding sp by blast
qed

text \<open>
  C40.  The stack regions follow the running tasks.  After the registration for \<open>C\<close> CPUs, which also asks the
  other CPUs for their running tasks, and any sequence of task switches, the regions are, behind the ones
  that were there before, those of every CPU, and each CPU's describe the pages of the stack of the last task that ran
  there, the idle task apart; the numbers kept for later updates are those of its regions.
\<close>

theorem stacks_follow_tasks:
  assumes "drv_rep bs 0 A (stack_md st)" and "\<forall>c. md_stack_data st c = zero_stack_data env"
    and "free_for_stacks A" and "stack_ok env (area_addr ctx)" and "C \<le> 1000"
    and "length A + C * STACK_NUM_PAGES env \<le> MAX_ELF_REGIONS"
    and "int MAX_ELF_REGIONS \<le> first_removed_entry (stack_md st)"
    and "\<forall>c \<in> set others. ctx_cpu c < C \<and> stack_ok env (area_addr c)"
    and "run_ops (switch_spec env C) switches (running others (\<lambda>_. area_addr ctx)) = Some (rs, f)"
  shows "\<exists>st1 st2. register_current_stack env True ctx [0..<C] others st = Some st1 \<and>
     run_ops (switch_step env) switches st1 = Some (rs, st2) \<and> cpu_stacks_rep env bs A [] C f st2"
proof -
  obtain st1 where st1: "register_current_stack env True ctx [0..<C] others st = Some st1"
    "cpu_stacks_rep env bs A [] C (running others (\<lambda>_. area_addr ctx)) st1"
    using register_current_stack_ok [OF assms(1-8)] by blast
  with stacks.run_sim [OF st1(2) assms(9)] show ?thesis by blast
qed

theorem stacks_follow_tasks_witness:
  "\<exists>s st1 st2. register_current_stack demo_stacks True demo_task [0..<2] [demo_task] (demo_stack_state s) = Some st1 \<and>
     run_ops (switch_step demo_stacks) demo_switches st1 = Some ([(), ()], st2) \<and>
     cpu_stacks_rep demo_stacks demo_base [demo_kmsg] [] 2 ((\<lambda>_. 0x10000)(0 := 0x20000)) st2"
proof -
  obtain s where s: "drv_rep demo_base 0 [demo_kmsg] s" "first_removed_entry s = INT_MAX"
    using demo_kmsg_driver by blast
  have f: "running [demo_task] (\<lambda>_. 0x10000) = (\<lambda>_. 0x10000)"
    by (rule ext) (simp add: running_def demo_task_def)
  have "\<exists>st1 st2. register_current_stack demo_stacks True demo_task [0..<2] [demo_task] (demo_stack_state s) = Some st1 \<and>
     run_ops (switch_step demo_stacks) demo_switches st1 = Some ([(), ()], st2) \<and>
     cpu_stacks_rep demo_stacks demo_base [demo_kmsg] [] 2 ((\<lambda>_. 0x10000)(0 := 0x20000)) st2"
    by (rule stacks_follow_tasks)
      (use s f demo_stack_ok demo_stack_pages in \<open>simp_all add: demo_stack_state_def free_for_stacks_def
        demo_kmsg_wf switch_spec_def demo_switches_def MAX_ELF_REGIONS_def INT_MAX_def md_consts,
        simp add: demo_task_def\<close>)
  then show ?thesis by blast
qed

section \<open>The panic dump\<close>

text \<open>
  C4.  The panic dump keeps to its memory, whatever has been set up before, in a build without WALT.  After the registration of
  the buffers and memory dumps on a driver with the regions \<open>L\<close>, and any sequence of writes to the files in debugfs with
  sizes below 2 GB and slab filters below \<open>0xFFFFFFFF80000000\<close>, also malformed ones and ones to files that do not exist, and
  whatever the allocator answered, every memory dump that is on has a block of exactly its size.  If the text of the slab owner
  dump is shorter than its region, or the dump is off, the panic dump then runs through without a fault, and no byte outside of
  the blocks changes.
\<close>

theorem panic_survives_settings:
  assumes "panic_platform (oe_reg oe) L" and "drv_rep bs 0 L s" and "\<forall>x \<in> set ws. numbers_small x" and "\<not> config_walt (oe_panic oe)"
  shows "\<exists>a rs b. md_register_panic_data (oe_reg oe) (oe_slab oe) (init_panic_state s) = Some a \<and>
     run_ops (panic_step oe) (map (\<lambda>(f, w). Write_File f w) ws) a = Some (rs, b) \<and>
     (\<forall>k. dump_addr (ps_mem b) k \<noteq> None \<longrightarrow> dump_cap (ps_mem b) k = unat (dump_size (ps_mem b) k) \<and>
        PAGE_SIZE \<le> unat (dump_size (ps_mem b) k)) \<and>
     (slab_fits (oe_panic oe) b \<longrightarrow> (\<exists>c. md_dump_process (oe_panic oe) b = Some c \<and>
        (\<forall>k. same_outside 0 (unat (dump_size (ps_mem b) k)) (dump_mem (ps_mem b) k) (dump_mem (ps_mem c) k))))"
  using assms by (rule panic_after_settings)

theorem panic_survives_settings_witness:
  "\<exists>s a rs b c. md_register_panic_data demo_reg demo_slab (init_panic_state s) = Some a \<and>
     run_ops (panic_step demo_op_env) (map (\<lambda>(f, w). Write_File f w) demo_writes) a = Some (rs, b) \<and>
     md_dump_process demo_panic b = Some c \<and>
     (\<forall>k. same_outside 0 (unat (dump_size (ps_mem b) k)) (dump_mem (ps_mem b) k) (dump_mem (ps_mem c) k))"
proof -
  obtain s where s: "drv_rep demo_base 0 [demo_kmsg] s" using demo_kmsg_driver by blast
  have e: "oe_reg demo_op_env = demo_reg" "oe_slab demo_op_env = demo_slab" "oe_panic demo_op_env = demo_panic"
    by (simp_all add: demo_op_env_def)
  show ?thesis
    using panic_survives_settings [of demo_op_env "[demo_kmsg]" demo_base s demo_writes, unfolded e,
        OF demo_platform s demo_writes_small demo_panic_build] demo_slab_fits by blast
qed

text \<open>
  C6.  What the panic dump says.  The first panic appends to every buffer that is registered the text computed from the state
  of the kernel: registers and memory around them of the panicking and of the stopped CPUs, the run queues with the tasks,
  the memory information and the caches.  It is made once: another panic changes nothing.  As in all properties of the dump the
  state is one in which the slab owner dump is off or its text shorter than its region, and the build one without WALT.
\<close>

theorem panic_dump_contents:
  assumes "panic_ready env st"
  shows "\<exists>st'. md_panic_handler env st = Some (0, st') \<and>
     seq_bufs st' KCNTXT = map_option (seq_buf_printf (context_text env st)) (seq_bufs st KCNTXT) \<and>
     seq_bufs st' KRUNQUEUE = map_option (seq_buf_printf
       (runq_text (pe_all_tasks env) (ps_align_offset st) (run_queues env) (threads env))) (seq_bufs st KRUNQUEUE) \<and>
     seq_bufs st' MEMINFO = map_option (seq_buf_printf (meminfo_text (counters env))) (seq_bufs st MEMINFO) \<and>
     seq_bufs st' SLABINFO = map_option (seq_buf_printf
       (slabinfo_text (config_debug_slab env) (slab_trylock env) (slab_list env))) (seq_bufs st SLABINFO) \<and>
     (\<forall>env'. md_panic_handler env' st' = Some (0, st'))"
proof -
  from md_dump_process_text [OF assms] obtain st' where st': "md_dump_process env st = Some st'"
    "seq_bufs st' KCNTXT = map_option (seq_buf_printf (context_text env st)) (seq_bufs st KCNTXT)"
    "seq_bufs st' KRUNQUEUE = map_option (seq_buf_printf
       (runq_text (pe_all_tasks env) (ps_align_offset st) (run_queues env) (threads env))) (seq_bufs st KRUNQUEUE)"
    "seq_bufs st' MEMINFO = map_option (seq_buf_printf (meminfo_text (counters env))) (seq_bufs st MEMINFO)"
    "seq_bufs st' SLABINFO = map_option (seq_buf_printf
       (slabinfo_text (config_debug_slab env) (slab_trylock env) (slab_list env))) (seq_bufs st SLABINFO)" by blast
  have "md_handle_done st'" using md_dump_process_done [OF st'(1)] assms by (simp add: panic_ready_def)
  with st' md_dump_process_again show ?thesis by (simp add: md_panic_handler_def)
qed

theorem panic_dump_contents_witness:
  "\<exists>st'. md_panic_handler demo_panic (demo_panic_state init_globals) = Some (0, st') \<and> md_panic_handler demo_panic st' = Some (0, st') \<and>
     seq_bufs st' SLABINFO = Some (seq_buf_printf (slab_title1 @ slab_title2 @ slab_title3 @ [LF]) (seq_buf_init 32768))"
  using panic_dump_contents [OF demo_panic_ready, of init_globals]
  by (auto simp: demo_panic_state_def demo_panic_def slabinfo_text_def PAGE_SIZE_def)

text \<open>
  C18.  What the register buffer holds after a panic, when it was empty before the first oops.  Any number of oopses have printed
  into it, and the CPUs that were stopped have stored any registers.  Then it holds the texts of the oopses, in order, and the text
  of the panic, cut after 131071 characters; the memory information is complete.  Nothing is cut when the oopses, the panicking CPU (unless it was
  the last one to die) and the possible CPUs are at most five together, with numbers below 1000.
\<close>

theorem panic_texts_fit:
  assumes "panic_ready env st0" and "seq_bufs st0 KCNTXT = Some (seq_buf_init (panic_pages a KCNTXT * PAGE_SIZE))"
    and "seq_bufs st0 MEMINFO = Some (seq_buf_init (panic_pages a MEMINFO * PAGE_SIZE))"
    and "st = (die_run dies st0)\<lparr>regs_before_stop := rb\<rparr>"
  shows "\<exists>st' m n. md_dump_process env st = Some st' \<and> seq_bufs st' KCNTXT = Some m \<and> seq_bufs st' MEMINFO = Some n \<and>
     sb_chars n = meminfo_text (counters env) \<and>
     sb_chars m = take 131071 (concat (map die_text dies) @ context_text env st) \<and>
     ((\<forall>c \<in> {this_cpu env} \<union> set (possible_cpus env) \<union> set (map (this_cpu \<circ> fst) dies). c < 1000) \<longrightarrow>
      length dies + (if int (this_cpu env) = die_cpu st then 0 else 1) + length (possible_cpus env) \<le> 5 \<longrightarrow>
      sb_chars m = concat (map die_text dies) @ context_text env st)"
proof -
  let ?T = "concat (map die_text dies) @ context_text env st" and ?n = "panic_pages a KCNTXT * PAGE_SIZE"
  have ready: "panic_ready env st" using die_run_ready [OF assms(1,2)] assms(4) by simp
  have "\<not> md_in_oops_handler st0" using assms(1) by (simp add: panic_ready_def)
  from die_run_text [OF this assms(2) seq_wf_init, of dies] obtain c where
    "die_run dies st0 = st0\<lparr>die_cpu := c, seq_bufs := (seq_bufs st0)(KCNTXT := Some (seq_buf_printf (concat (map die_text dies))
       (seq_buf_init ?n))), md_in_oops_handler := False\<rparr>" ..
  then have bufs: "seq_bufs st = (seq_bufs st0)(KCNTXT := Some (seq_buf_printf (concat (map die_text dies)) (seq_buf_init ?n)))"
    using assms(4) by simp
  from md_dump_process_text [OF ready] obtain st' where st': "md_dump_process env st = Some st'"
    "seq_bufs st' KCNTXT = map_option (seq_buf_printf (context_text env st)) (seq_bufs st KCNTXT)"
    "seq_bufs st' MEMINFO = map_option (seq_buf_printf (meminfo_text (counters env))) (seq_bufs st MEMINFO)" by blast
  have m: "seq_bufs st' KCNTXT = Some (seq_buf_printf ?T (seq_buf_init ?n))"
    using st'(2) by (simp add: bufs seq_buf_printf_append)
  have n: "sb_chars (seq_buf_printf (meminfo_text (counters env)) (seq_buf_init 4096)) = meminfo_text (counters env)"
    using seq_buf_init_text [of 4096 "meminfo_text (counters env)"] length_meminfo_text [of "counters env"] by simp
  have T: "sb_chars (seq_buf_printf ?T (seq_buf_init ?n)) = take 131071 ?T"
    using seq_buf_init_text [of ?n ?T] by (simp add: PAGE_SIZE_def)
  have fits: "length ?T < 131072"
    if cpus: "\<forall>c \<in> {this_cpu env} \<union> set (possible_cpus env) \<union> set (map (this_cpu \<circ> fst) dies). c < 1000"
      and five: "length dies + (if int (this_cpu env) = die_cpu st then 0 else 1) + length (possible_cpus env) \<le> 5"
  proof -
    let ?k = "(if int (this_cpu env) = die_cpu st then 0 else 1) + length (possible_cpus env)"
    have "length ?T \<le> length dies * 24043 + ?k * 24043"
      unfolding length_append by (intro add_mono length_die_texts length_context_text) (use cpus in auto)
    also have "\<dots> = (length dies + ?k) * 24043" by (simp only: add_mult_distrib)
    also have "\<dots> \<le> 5 * 24043" using five by (intro mult_le_mono1) (simp only: add.assoc)
    finally show ?thesis by simp
  qed
  show ?thesis
    by (intro exI [of _ st'] exI [of _ "seq_buf_printf ?T (seq_buf_init ?n)"]
        exI [of _ "seq_buf_printf (meminfo_text (counters env)) (seq_buf_init 4096)"] conjI impI st'(1) m n T)
      (use st'(3) assms(3) bufs T fits in \<open>auto simp: PAGE_SIZE_def\<close>)
qed

theorem panic_texts_fit_witness:
  "\<exists>st' m. md_dump_process demo_panic (die_run [(demo_panic, zero_regs)] (demo_panic_state init_globals)) = Some st' \<and>
     seq_bufs st' KCNTXT = Some m \<and> sb_chars m = die_text (demo_panic, zero_regs) @
       context_text demo_panic (die_run [(demo_panic, zero_regs)] (demo_panic_state init_globals))"
proof -
  let ?st0 = "demo_panic_state init_globals" and ?dies = "[(demo_panic, zero_regs)]"
  have run: "die_run ?dies ?st0 = (die_run ?dies ?st0)\<lparr>regs_before_stop := regs_before_stop (die_run ?dies ?st0)\<rparr>" by simp
  have c: "this_cpu demo_panic = 0" "possible_cpus demo_panic = [0, 1]" by (simp_all add: demo_panic_def)
  have fresh: "seq_bufs ?st0 k = Some (seq_buf_init (panic_pages False k * PAGE_SIZE))" for k
    by (simp add: demo_panic_state_def)
  have cpus: "\<forall>c \<in> {this_cpu demo_panic} \<union> set (possible_cpus demo_panic) \<union> set (map (this_cpu \<circ> fst) ?dies). c < 1000"
    and five: "length ?dies + (if int (this_cpu demo_panic) = die_cpu (die_run ?dies ?st0) then 0 else 1) +
      length (possible_cpus demo_panic) \<le> 5" by (simp_all add: c)
  from panic_texts_fit [OF demo_panic_ready fresh fresh run] obtain st' m where
    "md_dump_process demo_panic (die_run ?dies ?st0) = Some st'" "seq_bufs st' KCNTXT = Some m"
    "sb_chars m = concat (map die_text ?dies) @ context_text demo_panic (die_run ?dies ?st0)"
    using cpus five by blast
  then show ?thesis by simp
qed

text \<open>
  C22.  Every buffer keeps its shape.  Whatever sequence of operations has run since the module was loaded (registration, module
  events, dying and stopping CPUs, panics, writes to the files) without a fault, every buffer that is present has the size
  that its kind is registered with, and holds fewer characters than that.
\<close>

theorem panic_buffers_typed:
  assumes "run_ops (panic_step oe) ops (init_panic_state s) = Some (rs, st)" and "seq_bufs st k = Some m"
  shows "sb_size m = panic_pages (config_all_tasks (oe_reg oe)) k * PAGE_SIZE \<and> length (sb_chars m) < sb_size m"
proof -
  have "bufs_ok (config_all_tasks (oe_reg oe)) (init_panic_state s)" by (simp add: bufs_ok_def init_panic_state_def)
  from panic_bufs.run_inv [OF this assms(1)] have ok: "seq_wf m" "sb_size m = panic_pages (config_all_tasks (oe_reg oe)) k * PAGE_SIZE"
    using assms(2) by (auto simp: bufs_ok_def)
  moreover have "0 < panic_pages a k * PAGE_SIZE" for a by (cases k) (simp_all add: PAGE_SIZE_def)
  ultimately have "0 < sb_size m" by simp
  with ok show ?thesis by (auto simp: seq_wf_def split: if_splits)
qed

theorem panic_buffers_typed_witness:
  "\<exists>s rs st. run_ops (panic_step demo_op_env) [Register_Panic, Kernel_Panics] (init_panic_state s) = Some (rs, st) \<and>
     (\<forall>k m. seq_bufs st k = Some m \<longrightarrow> sb_size m = panic_pages False k * PAGE_SIZE \<and> length (sb_chars m) < sb_size m)"
proof -
  obtain s where s: "drv_rep demo_base 0 [demo_kmsg] s" using demo_kmsg_driver by blast
  have e: "oe_reg demo_op_env = demo_reg" "oe_slab demo_op_env = demo_slab" "oe_panic demo_op_env = demo_panic"
    "config_all_tasks demo_reg = False" by (simp_all add: demo_op_env_def demo_reg_def)
  obtain a c where "md_register_panic_data demo_reg demo_slab (init_panic_state s) = Some a" "md_dump_process demo_panic a = Some c"
    using panic_after_settings [of demo_op_env "[demo_kmsg]" demo_base s "[]", unfolded e, OF demo_platform s _ demo_panic_build]
      demo_slab_fits by auto
  then have run: "run_ops (panic_step demo_op_env) [Register_Panic, Kernel_Panics] (init_panic_state s) = Some ([0, 0], c)"
    by (simp add: e ignore_result_def md_panic_handler_def)
  have "\<forall>k m. seq_bufs c k = Some m \<longrightarrow> sb_size m = panic_pages False k * PAGE_SIZE \<and> length (sb_chars m) < sb_size m"
    using panic_buffers_typed [OF run] unfolding e by blast
  with run show ?thesis by blast
qed

text \<open>
  C23.  The registration of a buffer succeeds completely or leaves everything as it was: on a failed allocation or a refused
  region nothing stays allocated, no buffer appears and the tables of the driver are unchanged.
\<close>

theorem panic_entries_all_or_nothing:
  assumes "md_register_panic_entries env n k st = Some (ret, st')"
  shows "ret < 0 \<and> st' = st \<or>
    ret = 0 \<and> (\<exists>p. text_alloc env k = Some p \<and> heap_live st' = Seq_Obj k # Text_Obj p # heap_live st \<and>
      seq_bufs st' = (seq_bufs st)(k := Some (seq_buf_init (n * PAGE_SIZE))) \<and>
      (\<exists>r. msm_minidump_add_region (mem_alloc (mem_env_of env)) (Some (panic_region (panic_name k) p
        (mem_virt_to_phys (mem_env_of env) p) (of_nat (n * PAGE_SIZE)))) (mem_md (ps_mem st)) = Some (r, mem_md (ps_mem st')) \<and> 0 \<le> r))"
  using assms by (rule register_panic_entries_cases)

theorem panic_entries_all_or_nothing_witness:
  "\<exists>ret st'. md_register_panic_entries demo_reg 8 SLABINFO (init_panic_state init_globals) = Some (ret, st') \<and>
     ret < 0 \<and> st' = init_panic_state init_globals"
proof -
  have none: "text_alloc demo_reg SLABINFO = None" by (simp add: demo_reg_def)
  then have run: "md_register_panic_entries demo_reg 8 SLABINFO (init_panic_state init_globals) =
      Some (- EINVAL, init_panic_state init_globals)" by (simp add: md_register_panic_entries_def)
  from panic_entries_all_or_nothing [OF run] none run show ?thesis by auto
qed

text \<open>
  C13.  The run queues are printed as the tree that they are: CPU by CPU the entities of the fair queue, nested groups indented
  below their group, then the real-time queues in the order of their priority, and at the end a row for every listed task; the
  routine with its global indentation and its loops over the bitmap prints exactly the text defined by recursion on the data.
\<close>

theorem runqueues_text:
  assumes "seq_wf m"
  shows "md_dump_runqueues False all_tasks rqs ts (Some m, k) = Some (Some (seq_buf_printf (runq_text all_tasks k rqs ts) m), k)"
  using assms by (rule md_dump_runqueues_text)

theorem runqueues_text_witness:
  "md_dump_runqueues False False [(0, demo_rq)] [demo_sched_task] (Some (seq_buf_init 32768), 0) =
     Some (Some (seq_buf_printf (runq_text False 0 [(0, demo_rq)] [demo_sched_task]) (seq_buf_init 32768)), 0)"
  by (rule runqueues_text) simp

text \<open>
  C7.  The trace buffer holds the last lap of the trace.  After the registration and any sequence of calls of the trace hooks,
  the buffer starts with the events that were recorded since it was last full, one behind the other; the hooks return
  what the specification says and never write beyond the buffer.
\<close>

theorem trace_hooks_refine:
  assumes "drv_rep bs p L s" and "''KFTRACE'' \<notin> set (map mdr_name L)" and "length L < MAX_ELF_REGIONS" and "v \<noteq> 0"
    and "run_ops trace_spec_step hooks \<lparr>lap = [], recording = False, tracing = True\<rparr> = Some (rs, a)"
  shows "\<exists>t s' t'. md_register_trace_buf env (Some v) (init_trace, s) = Some (t, s') \<and> drv_rep bs p (L @ [ftrace_region env v]) s' \<and>
     run_ops trace_step hooks t = Some (rs, t') \<and> md_ftrace_buf_current t' = length (concat (lap a)) \<and>
     arr_list (md_ftrace_mem t') (length (concat (lap a))) = concat (lap a)"
proof -
  let ?t = "init_trace\<lparr>md_ftrace_buf_addr := Some v\<rparr>"
  have "trace_rep \<lparr>lap = [], recording = False, tracing = True\<rparr> ?t" by (simp add: trace_rep_def init_trace_def)
  from trace.run_sim [OF this assms(5)] obtain t' where "run_ops trace_step hooks ?t = Some (rs, t')" "trace_rep a t'" by blast
  with register_trace_buf_rep [OF assms(1-4), of env] show ?thesis by (auto simp: trace_rep_def)
qed

theorem trace_hooks_refine_witness:
  "\<exists>s t s' t'. md_register_trace_buf demo_log (Some 0x700000) (init_trace, s) = Some (t, s') \<and>
     run_ops trace_step [Trace_Enter, Trace_Buf ''ab'' True, Trace_Buf ''c'' True, Trace_Exit, Trace_Buf ''d'' True] t =
       Some ([False, False, False, False, True], t') \<and> arr_list (md_ftrace_mem t') 3 = ''abc''"
proof -
  obtain s where s: "drv_rep demo_base 0 [demo_kmsg] s" using demo_kmsg_driver by blast
  let ?hooks = "[Trace_Enter, Trace_Buf ''ab'' True, Trace_Buf ''c'' True, Trace_Exit, Trace_Buf ''d'' True]"
  let ?a = "\<lparr>lap = [''ab'', ''c''], recording = False, tracing = True\<rparr>"
  have "run_ops trace_spec_step ?hooks \<lparr>lap = [], recording = False, tracing = True\<rparr> = Some ([False, False, False, False, True], ?a)"
    by (simp add: lap_add_def MD_FTRACE_BUF_SIZE_def)
  from trace_hooks_refine [OF s _ _ _ this, of "0x700000" demo_log] show ?thesis
    by (auto simp: demo_kmsg_wf MAX_ELF_REGIONS_def md_consts numeral_3_eq_3)
qed

section \<open>Memory dumps, modules and pstore\<close>





text \<open>
  C12.  The page owner dump is complete when it fits.  With the default filter, and when its text stays in front of the table of
  handles, the region starts with one record for every allocated page in the order of the page numbers; the addresses of a
  stack follow the first page that has it, as long as the table has room for its handle.
\<close>

theorem pageowner_dump_text:
  assumes "page_owner_filter os = 0xF" and "page_owner_handles_size os = 4 * q" and "nr_handles os = 0" and "0 < q"
    and "4 * q \<le> dump_sz" and "dump_sz \<le> cap"
    and "length (owner_text env q [] (pages_from env (first_pfn env (min_low_pfn env)))) < dump_sz - 4 * q"
  shows "\<exists>os' b'. md_dump_pageowner env cap dump_sz (os, b) = Some (os', b') \<and>
     arr_list b' (length (owner_text env q [] (pages_from env (first_pfn env (min_low_pfn env))))) =
       owner_text env q [] (pages_from env (first_pfn env (min_low_pfn env)))"
proof -
  have "dump_rep cap dump_sz q [] [] (os, b)" using assms by (simp add: dump_rep_def handles_rep_def)
  from owner_loop_text [OF this assms(4-6), where left = dump_sz] assms(7) show ?thesis
    by (fastforce simp: md_dump_pageowner_def dump_rep_def)
qed

theorem pageowner_dump_text_witness:
  "\<exists>os' b'. md_dump_pageowner demo_owner 65536 65536 (init_owner, \<lambda>_. NUL) = Some (os', b') \<and>
     arr_list b' 18 = ''1 7 2'' @ [LF] @ ''10'' @ [LF] @ ''20'' @ [LF] @ ''3 7 0'' @ [LF]"
proof -
  let ?T = "owner_text demo_owner 4096 [] (pages_from demo_owner (first_pfn demo_owner (min_low_pfn demo_owner)))"
  have t: "?T = ''1 7 2'' @ [LF] @ ''10'' @ [LF] @ ''20'' @ [LF] @ ''3 7 0'' @ [LF]" by (simp only: demo_pages demo_owner_text)
  have l: "length ?T = 18" unfolding t by simp
  have "\<exists>os' b'. md_dump_pageowner demo_owner 65536 65536 (init_owner, \<lambda>_. NUL) = Some (os', b') \<and> arr_list b' (length ?T) = ?T"
    by (rule pageowner_dump_text) (simp_all only: l, simp_all add: init_owner_def)
  then show ?thesis unfolding l by (simp only: t)
qed

text \<open>
  C24.  A write to the slab owner filter, decided for every number.  Below \<open>0xFFFFFFFF80000000\<close> the loop over the bits ends
  within 32 rounds; the filter is set if every cache named by one of the bits 0 to 30 exists, and otherwise refused.  From
  there on the loop also looks at a cache 31, and when none that it looks at is missing, it never ends: the \<^verbatim>\<open>int\<close> that is doubled
  becomes 0 after bit 31.
\<close>

theorem slab_filter_write_decided:
  "if f < 0xFFFFFFFF80000000
   then slab_owner_filter_write env (Some f) count ss =
     Some (if \<forall>j < 31. bit f j \<longrightarrow> kmalloc_caches env j \<noteq> None
           then (int count, ss\<lparr>slab_owner_filter := f\<rparr>) else (- EINVAL, ss))
   else if \<forall>j < 32. bit f j \<longrightarrow> kmalloc_caches env j \<noteq> None
   then slab_owner_filter_write env (Some f) count ss = None \<and>
     (\<forall>fuel. slab_filter_loop fuel env f 0 1 = Filter_Running)
   else slab_owner_filter_write env (Some f) count ss = Some (- EINVAL, ss)"
proof (cases "f < 0xFFFFFFFF80000000")
  case True
  then show ?thesis using filter_write_ends [OF True] by (simp add: caches_exist_def Ball_def)
next
  case False
  then have "0xFFFFFFFF80000000 \<le> f" by simp
  note large = slab_filter_loop_large [OF this, of 0 env]
  have ex: "caches_exist env f 0 32 \<longleftrightarrow> (\<forall>j < 32. bit f j \<longrightarrow> kmalloc_caches env j \<noteq> None)"
    by (simp add: caches_exist_def Ball_def)
  show ?thesis
  proof (cases "caches_exist env f 0 32")
    case True
    then have "\<And>fuel. slab_filter_loop fuel env f 0 1 = Filter_Running" using large by simp
    with True False ex show ?thesis by (simp add: slab_owner_filter_write_def)
  next
    case missing: False
    then have "slab_filter_loop SLAB_FILTER_FUEL env f 0 1 = Filter_Invalid"
      using large [of SLAB_FILTER_FUEL] by (simp add: SLAB_FILTER_FUEL_def)
    with missing False ex show ?thesis by (simp add: slab_owner_filter_write_def)
  qed
qed

theorem slab_filter_write_decided_witness:
  "slab_owner_filter_write demo_slab (Some 0x180) 4 init_slab = Some (4, init_slab\<lparr>slab_owner_filter := 0x180\<rparr>) \<and>
   slab_owner_filter_write demo_slab (Some 0x80000180) 4 init_slab = Some (4, init_slab\<lparr>slab_owner_filter := 0x80000180\<rparr>) \<and>
   (\<forall>n. slab_filter_loop n (demo_slab\<lparr>kmalloc_caches := (\<lambda>_. kmalloc_caches demo_slab 7)\<rparr>) 0xFFFFFFFF80000000 0 1 =
      Filter_Running)"
proof -
  have "\<forall>j < 31. bit (0x180 :: u64) j \<longrightarrow> kmalloc_caches demo_slab j \<noteq> None"
    and "\<forall>j < 31. bit (0x80000180 :: u64) j \<longrightarrow> kmalloc_caches demo_slab j \<noteq> None"
    by (auto simp: less_Suc_eq numeral_eq_Suc demo_slab_def)
  then show ?thesis
    using slab_filter_write_decided [of "0x180" demo_slab 4 init_slab]
      slab_filter_write_decided [of "0x80000180" demo_slab 4 init_slab]
      slab_filter_write_decided [of "0xFFFFFFFF80000000" "demo_slab\<lparr>kmalloc_caches := (\<lambda>_. kmalloc_caches demo_slab 7)\<rparr>" 4 init_slab]
    by (simp add: demo_slab_def)
qed

text \<open>
  C17.  The data of a key module, with address and length multiples of four, are registered completely and page by page, when
  the table has room for them and no region has one of their names yet: the new regions cover its addresses in order and
  without gap or overlap, none reaches over a page boundary, and each has the physical address of its own page.
\<close>

theorem vmap_mem_partition:
  assumes "drv_rep bs p L s" and "cstring nm" and "4 dvd unat addr" and "4 dvd len" and "addr \<noteq> 0" and "unat addr + len \<le> 2 ^ 64"
    and "set (map mdr_name L) \<inter> set (map mdr_name (vmap_regions env nm addr len)) = {}"
    and "length L + length (vmap_chunks addr len) \<le> MAX_ELF_REGIONS"
  shows "\<exists>s' R. register_vmap_mem env nm addr len s = Some (0, s') \<and> drv_rep bs p (L @ R) s' \<and>
     concat (map (\<lambda>r. chunk_bytes (virt_addr r, unat (mdr_size r))) R) = chunk_bytes (addr, len) \<and>
     (\<forall>r \<in> set R. unat (virt_addr r) mod PAGE_SIZE + unat (mdr_size r) \<le> PAGE_SIZE \<and> phys_addr r = vmalloc_phys env (virt_addr r))"
proof -
  let ?R = "vmap_regions env nm addr len"
  have m: "map (\<lambda>r. (virt_addr r, unat (mdr_size r))) ?R = vmap_chunks addr len" by (rule vmap_chunk_regions)
  have "concat (map chunk_bytes (map (\<lambda>r. (virt_addr r, unat (mdr_size r))) ?R)) = chunk_bytes (addr, len)"
    unfolding m by (rule vmap_chunks_cover)
  then have "concat (map (\<lambda>r. chunk_bytes (virt_addr r, unat (mdr_size r))) ?R) = chunk_bytes (addr, len)" by (simp add: o_def)
  moreover have "unat (virt_addr r) mod PAGE_SIZE + unat (mdr_size r) \<le> PAGE_SIZE" if "r \<in> set ?R" for r
  proof -
    have "(virt_addr r, unat (mdr_size r)) \<in> set (vmap_chunks addr len)" unfolding m [symmetric] set_map using that by (rule imageI)
    from vmap_chunks_inside [OF this] show ?thesis by simp
  qed
  moreover have "\<forall>r \<in> set ?R. phys_addr r = vmalloc_phys env (virt_addr r)" by (auto simp: vmap_regions_def)
  ultimately show ?thesis using register_vmap_mem_ok [OF assms] by blast
qed

theorem vmap_mem_partition_witness:
  "\<exists>s s' R. register_vmap_mem demo_stacks ''qcom_wdt'' 0x10F00 0x1200 s = Some (0, s') \<and> drv_rep demo_base 0 ([demo_kmsg] @ R) s' \<and>
     concat (map (\<lambda>r. chunk_bytes (virt_addr r, unat (mdr_size r))) R) = chunk_bytes (0x10F00, 0x1200) \<and>
     (\<forall>r \<in> set R. unat (virt_addr r) mod PAGE_SIZE + unat (mdr_size r) \<le> PAGE_SIZE \<and> phys_addr r = vmalloc_phys demo_stacks (virt_addr r))"
proof -
  obtain s where s: "drv_rep demo_base 0 [demo_kmsg] s" using demo_kmsg_driver by blast
  have c: "vmap_chunks 0x10F00 0x1200 = [(0x10F00, 0x100), (0x11000, 0x1000), (0x12000, 0x100)]"
    by ((subst vmap_chunks.simps, simp add: PAGE_SIZE_def)+)
  have n: "set (map mdr_name [demo_kmsg]) \<inter> set (map mdr_name (vmap_regions demo_stacks ''qcom_wdt'' 0x10F00 0x1200)) = {}"
    unfolding vmap_names c by (simp add: demo_kmsg_wf vmap_name_def scnprintf_str_def dec_str_small hex_digit_def)
  show ?thesis
    using vmap_mem_partition [OF s _ _ _ _ _ n] by (simp add: c cstring_def NUL_def MAX_ELF_REGIONS_def md_consts) blast
qed

end
